(* ===== verification/Prelude.thy ===== *)
theory Prelude
  imports Complex_Main "HOL-Library.Word" "HOL-Library.AList" "HOL-Library.Sublist"
begin

text \<open>
  Shared vocabulary of the development: machine types, the outcome of a fallible Rust
  function, big-endian byte strings, and the few string operations of the Rust standard
  library that the sources call. The generic lemmas on them carry the component proofs.
\<close>

unbundle bit_operations_syntax

named_theorems outcome_simps \<open>equations of the outcome combinators\<close>
named_theorems bytes_simps \<open>lengths and round trips of byte strings\<close>

section \<open>Types\<close>

type_synonym u8 = "8 word"
type_synonym u16 = "16 word"
type_synonym u32 = "32 word"
type_synonym u64 = "64 word"
type_synonym u256 = "256 word"
type_synonym address = "160 word"
type_synonym b256 = "256 word"
type_synonym bytes = "8 word list"

text \<open>
  A Rust function either returns a value, returns an error, or panics (an out-of-range
  slice, an \<open>unwrap\<close> of nothing). A panic is a value of its own, so that no property can
  mistake it for an error return.
\<close>

datatype ('a, 'e) outcome =
    is_ok: Ok (ok_value: 'a)
  | is_err: Err (err_value: 'e)
  | is_panic: Panic

fun and_then :: "('a, 'e) outcome \<Rightarrow> ('a \<Rightarrow> ('b, 'e) outcome) \<Rightarrow> ('b, 'e) outcome" where
  "and_then (Ok x) f = f x"
| "and_then (Err e) f = Err e"
| "and_then Panic f = Panic"

fun map_err :: "('e \<Rightarrow> 'f) \<Rightarrow> ('a, 'e) outcome \<Rightarrow> ('a, 'f) outcome" where
  "map_err g (Ok x) = Ok x"
| "map_err g (Err e) = Err (g e)"
| "map_err g Panic = Panic"

fun ok_or :: "'e \<Rightarrow> 'a option \<Rightarrow> ('a, 'e) outcome" where
  "ok_or e None = Err e"
| "ok_or e (Some x) = Ok x"

definition require :: "bool \<Rightarrow> 'e \<Rightarrow> (unit, 'e) outcome" where
  "require b e = (if b then Ok () else Err e)"

lemma and_then_Ok_iff [outcome_simps]:
  "and_then r f = Ok y \<longleftrightarrow> (\<exists>x. r = Ok x \<and> f x = Ok y)"
  by (cases r) auto

lemma and_then_Err_iff [outcome_simps]:
  "and_then r f = Err e \<longleftrightarrow> r = Err e \<or> (\<exists>x. r = Ok x \<and> f x = Err e)"
  by (cases r) auto

lemma and_then_Panic_iff [outcome_simps]:
  "and_then r f = Panic \<longleftrightarrow> r = Panic \<or> (\<exists>x. r = Ok x \<and> f x = Panic)"
  by (cases r) auto

lemma and_then_assoc: "and_then (and_then r f) g = and_then r (\<lambda>x. and_then (f x) g)"
  by (cases r) simp_all

lemma map_err_Ok_iff [outcome_simps]: "map_err g r = Ok x \<longleftrightarrow> r = Ok x"
  by (cases r) auto

lemma ok_or_Ok_iff [outcome_simps]: "ok_or e r = Ok x \<longleftrightarrow> r = Some x"
  by (cases r) auto

lemma is_ok_ok_or [outcome_simps]: "is_ok (ok_or e r) \<longleftrightarrow> r \<noteq> None"
  by (cases r) auto

lemma ok_or_not_Panic [outcome_simps]: "ok_or e r \<noteq> Panic"
  by (cases r) auto

lemma require_Ok_iff [outcome_simps]: "require b e = Ok u \<longleftrightarrow> b"
  by (simp add: require_def)

lemma require_not_Panic [outcome_simps]: "require b e \<noteq> Panic"
  by (simp add: require_def)

section \<open>Integers\<close>

definition saturating_sub :: "'a::len word \<Rightarrow> 'a word \<Rightarrow> 'a word" where
  "saturating_sub a b = (if b \<le> a then a - b else 0)"

definition saturating_mul :: "'a::len word \<Rightarrow> 'a word \<Rightarrow> 'a word" where
  "saturating_mul a b = (if unat a * unat b < 2 ^ LENGTH('a) then a * b else - 1)"

lemma unat_saturating_sub: "unat (saturating_sub a b) = unat a - unat b"
  by (auto simp: saturating_sub_def unat_sub word_le_nat_alt)

lemma saturating_sub_le: "saturating_sub a b \<le> a"
  by (simp add: word_le_nat_alt unat_saturating_sub)

lemma unat_less: "unat (w :: 'a::len word) < 2 ^ LENGTH('a)"
  by (rule unsigned_less)

lemma unat_add_no_wrap:
  fixes a b :: "'a::len word"
  shows "unat a + unat b < 2 ^ LENGTH('a) \<Longrightarrow> unat (a + b) = unat a + unat b"
  by (simp add: unat_word_ariths)

lemma unat_sub_no_wrap: "(b :: 'a::len word) \<le> a \<Longrightarrow> unat (a - b) = unat a - unat b"
  by (rule unat_sub)

lemma unat_ucast_up:
  fixes w :: "'a::len word"
  assumes "LENGTH('a) \<le> LENGTH('b::len)"
  shows "unat (ucast w :: 'b word) = unat w"
proof -
  have "unat w < 2 ^ LENGTH('b)"
    by (rule less_le_trans [OF unat_less]) (simp add: assms)
  then show ?thesis by (simp add: unsigned_ucast_eq take_bit_nat_eq_self)
qed

section \<open>Big-endian byte strings\<close>

definition be_bytes :: "nat \<Rightarrow> nat \<Rightarrow> bytes" where
  "be_bytes k n = map (\<lambda>i. word_of_nat (n div 256 ^ i)) (rev [0..<k])"

definition be_nat :: "bytes \<Rightarrow> nat" where
  "be_nat bs = foldl (\<lambda>acc b. acc * 256 + unat b) 0 bs"

lemma length_be_bytes [simp, bytes_simps]: "length (be_bytes k n) = k"
  by (simp add: be_bytes_def)

lemma be_bytes_0 [simp]: "be_bytes 0 n = []"
  by (simp add: be_bytes_def)

lemma be_bytes_Suc: "be_bytes (Suc k) n = word_of_nat (n div 256 ^ k) # be_bytes k n"
  by (simp add: be_bytes_def)

lemma foldl_be: "foldl (\<lambda>acc b. acc * 256 + unat b) m bs = m * 256 ^ length bs + be_nat bs"
  for bs :: bytes
proof (induction bs arbitrary: m)
  case Nil
  then show ?case by (simp add: be_nat_def)
next
  case (Cons b bs)
  have "foldl (\<lambda>acc b. acc * 256 + unat b) m (b # bs) =
    (m * 256 + unat b) * 256 ^ length bs + be_nat bs"
    by (simp add: Cons.IH [of "m * 256 + unat b"])
  moreover have "be_nat (b # bs) = unat b * 256 ^ length bs + be_nat bs"
    using Cons.IH [of "unat b"] by (simp add: be_nat_def)
  ultimately show ?case by (simp add: algebra_simps)
qed

lemma be_nat_Nil [simp]: "be_nat [] = 0"
  by (simp add: be_nat_def)

lemma be_nat_Cons [simp]: "be_nat (b # bs) = unat b * 256 ^ length bs + be_nat bs"
  using foldl_be [of "unat b" bs] by (simp add: be_nat_def)

lemma be_nat_less: "be_nat bs < 256 ^ length bs"
proof (induction bs)
  case Nil
  then show ?case by simp
next
  case (Cons b bs)
  have "unat b \<le> 255"
    using unat_less [of b] by simp
  then have "unat b * 256 ^ length bs + be_nat bs < 255 * 256 ^ length bs + 256 ^ length bs"
    using Cons.IH mult_le_mono1 by (metis add_le_less_mono)
  then show ?case by simp
qed

lemma be_nat_be_bytes [bytes_simps]: "be_nat (be_bytes k n) = n mod 256 ^ k"
proof (induction k)
  case 0
  then show ?case by simp
next
  case (Suc k)
  have "unat (word_of_nat (n div 256 ^ k) :: u8) = (n div 256 ^ k) mod 256"
    by (simp add: unat_of_nat)
  then show ?case
    using mod_mult2_eq [of n "256 ^ k" 256] by (simp add: be_bytes_Suc Suc mult.commute)
qed

lemma be_nat_inject:
  "length bs = length cs \<Longrightarrow> be_nat bs = be_nat cs \<Longrightarrow> bs = cs"
proof (induction bs cs rule: list_induct2)
  case Nil
  then show ?case by simp
next
  case (Cons b bs c cs)
  let ?k = "256 ^ length cs :: nat"
  have less: "be_nat bs < ?k" "be_nat cs < ?k"
    using be_nat_less [of bs] be_nat_less [of cs] Cons.hyps by simp_all
  have eq: "unat b * ?k + be_nat bs = unat c * ?k + be_nat cs"
    using Cons.prems Cons.hyps by simp
  have "unat b = unat c"
    using arg_cong [OF eq, of "\<lambda>n. n div ?k"] less by simp
  with eq Cons.IH show ?case
    by (simp add: word_unat_eq_iff)
qed

lemma be_bytes_be_nat [bytes_simps]: "be_bytes (length bs) (be_nat bs) = bs"
  using be_nat_less [of bs] by (intro be_nat_inject) (simp_all add: be_nat_be_bytes)

lemma be_bytes_inject:
  assumes "be_bytes k m = be_bytes k n" and "m < 256 ^ k" and "n < 256 ^ k"
  shows "m = n"
proof -
  have "m mod 256 ^ k = n mod 256 ^ k"
    using assms(1) by (metis be_nat_be_bytes)
  with assms(2,3) show ?thesis by simp
qed

text \<open>The byte strings of the fixed-size values that the sources hash or serialise.\<close>

definition address_bytes :: "address \<Rightarrow> bytes" where
  "address_bytes a = be_bytes 20 (unat a)"

definition b256_bytes :: "b256 \<Rightarrow> bytes" where
  "b256_bytes h = be_bytes 32 (unat h)"

definition u64_be_bytes :: "u64 \<Rightarrow> bytes" where
  "u64_be_bytes n = be_bytes 8 (unat n)"

definition b256_of_bytes :: "bytes \<Rightarrow> b256" where
  "b256_of_bytes bs = word_of_nat (be_nat bs)"

definition address_of_bytes :: "bytes \<Rightarrow> address" where
  "address_of_bytes bs = word_of_nat (be_nat bs)"

lemma length_value_bytes [simp, bytes_simps]:
  "length (address_bytes a) = 20" "length (b256_bytes h) = 32" "length (u64_be_bytes n) = 8"
  by (simp_all add: address_bytes_def b256_bytes_def u64_be_bytes_def)

lemma b256_of_bytes_b256_bytes [simp, bytes_simps]: "b256_of_bytes (b256_bytes h) = h"
  using unat_less [of h] by (simp add: b256_of_bytes_def b256_bytes_def be_nat_be_bytes)

lemma address_of_bytes_address_bytes [simp, bytes_simps]: "address_of_bytes (address_bytes a) = a"
  using unat_less [of a] by (simp add: address_of_bytes_def address_bytes_def be_nat_be_bytes)

lemma address_bytes_inject [simp]: "address_bytes a = address_bytes b \<longleftrightarrow> a = b"
  by (metis address_of_bytes_address_bytes)

lemma b256_bytes_inject [simp]: "b256_bytes a = b256_bytes b \<longleftrightarrow> a = b"
  by (metis b256_of_bytes_b256_bytes)

section \<open>Slices\<close>

text \<open>\<open>slice.chunks(n)\<close>: consecutive pieces of \<open>n\<close> elements, the last one shorter.\<close>

function chunks :: "nat \<Rightarrow> 'a list \<Rightarrow> 'a list list" where
  "chunks n xs = (if n = 0 \<or> xs = [] then [] else take n xs # chunks n (drop n xs))"
  by pat_completeness auto
termination
  by (relation "measure (\<lambda>(n, xs). length xs)") auto

declare chunks.simps [simp del]

lemma chunks_Nil [simp]: "chunks n [] = []"
  by (simp add: chunks.simps)

lemma concat_chunks: "0 < n \<Longrightarrow> concat (chunks n xs) = xs"
proof (induction n xs rule: chunks.induct)
  case (1 n xs)
  then show ?case by (subst chunks.simps) auto
qed

lemma chunks_length_le: "c \<in> set (chunks n xs) \<Longrightarrow> length c \<le> n"
proof (induction n xs rule: chunks.induct)
  case (1 n xs)
  then show ?case by (subst (asm) chunks.simps) (auto split: if_splits)
qed

lemma drop_prefix: "length xs = k \<Longrightarrow> drop (k + m) (xs @ ys) = drop m ys"
  by simp

section \<open>Strings\<close>

text \<open>
  Rust strings are modelled by HOL strings, one character per byte; the sources only
  inspect ASCII text. \<open>to_lowercase\<close> and \<open>trim\<close> are therefore their ASCII versions.
\<close>

definition as_bytes :: "string \<Rightarrow> bytes" where
  "as_bytes s = map of_char s"

definition starts_with :: "'a list \<Rightarrow> 'a list \<Rightarrow> bool" where
  "starts_with s p \<longleftrightarrow> take (length p) s = p"

definition strip_prefix :: "'a list \<Rightarrow> 'a list \<Rightarrow> 'a list option" where
  "strip_prefix s p = (if starts_with s p then Some (drop (length p) s) else None)"

definition char_lower :: "char \<Rightarrow> char" where
  "char_lower c = (let n = of_char c :: nat in if 65 \<le> n \<and> n \<le> 90 then char_of (n + 32) else c)"

definition to_lowercase :: "string \<Rightarrow> string" where
  "to_lowercase s = map char_lower s"

lemma length_as_bytes [simp]: "length (as_bytes s) = length s"
  by (simp add: as_bytes_def)

lemma as_bytes_append [simp]: "as_bytes (s @ t) = as_bytes s @ as_bytes t"
  by (simp add: as_bytes_def)

lemma starts_with_append [simp]: "starts_with (p @ s) p"
  by (simp add: starts_with_def)

lemma strip_prefix_append [simp]: "strip_prefix (p @ s) p = Some s"
  by (simp add: strip_prefix_def)

lemma strip_prefix_Some_iff: "strip_prefix s p = Some r \<longleftrightarrow> s = p @ r"
  by (auto simp: strip_prefix_def starts_with_def) (metis append_take_drop_id)

end
