(* ===== verification/Scale.thy ===== *)
theory Scale
  imports Prelude
begin

text \<open>
  The SCALE codec, a third-party crate: the encoders and decoders of its primitive values
  are the parameters \<open>scale_lib\<close>, and \<open>scale_ok\<close> is the documented promise that decoding
  returns the value and leaves the rest of the input. The locale \<open>codec\<close> is the contract
  every \<open>Encode\<close>/\<open>Decode\<close> pair of the sources has to keep; the theories that model such a
  pair give it as a sublocale of \<open>scale_primitives\<close>. \<open>scale_ref\<close> is the published format.
\<close>

type_synonym 'a decoder = "bytes \<Rightarrow> ('a \<times> bytes) option"

record scale_lib =
  array_enc :: "bytes \<Rightarrow> bytes"
  array_dec :: "nat \<Rightarrow> bytes decoder"
  u8_enc :: "u8 \<Rightarrow> bytes"
  u8_dec :: "u8 decoder"
  u64_enc :: "u64 \<Rightarrow> bytes"
  u64_dec :: "u64 decoder"
  u64s_enc :: "u64 list \<Rightarrow> bytes"
  u64s_dec :: "nat \<Rightarrow> u64 list decoder"
  vec_enc :: "bytes \<Rightarrow> bytes"
  vec_dec :: "bytes decoder"

text \<open>The sources encode vectors far below the \<open>2 ^ 30\<close> bytes of the two-bit length modes.\<close>

definition vec_bound :: nat where
  "vec_bound = 2 ^ 30"

definition scale_ok :: "scale_lib \<Rightarrow> bool" where
  "scale_ok sl \<longleftrightarrow>
     (\<forall>bs rest. array_dec sl (length bs) (array_enc sl bs @ rest) = Some (bs, rest)) \<and>
     (\<forall>n rest. u8_dec sl (u8_enc sl n @ rest) = Some (n, rest)) \<and>
     (\<forall>n rest. u64_dec sl (u64_enc sl n @ rest) = Some (n, rest)) \<and>
     (\<forall>ns rest. u64s_dec sl (length ns) (u64s_enc sl ns @ rest) = Some (ns, rest)) \<and>
     (\<forall>bs rest. length bs < vec_bound \<longrightarrow> vec_dec sl (vec_enc sl bs @ rest) = Some (bs, rest)) \<and>
     (\<forall>n inp bs rest. array_dec sl n inp = Some (bs, rest) \<longrightarrow> length bs = n) \<and>
     (\<forall>n inp ns rest. u64s_dec sl n inp = Some (ns, rest) \<longrightarrow> length ns = n)"

lemma scale_okD:
  assumes "scale_ok sl"
  shows "u8_dec sl (u8_enc sl b @ rest) = Some (b, rest)"
    and "u64_dec sl (u64_enc sl w @ rest) = Some (w, rest)"
    and "length bs < vec_bound \<Longrightarrow> vec_dec sl (vec_enc sl bs @ rest) = Some (bs, rest)"
    and "n = length ns \<Longrightarrow> u64s_dec sl n (u64s_enc sl ns @ rest) = Some (ns, rest)"
    and "n = length bs \<Longrightarrow> array_dec sl n (array_enc sl bs @ rest) = Some (bs, rest)"
  using assms unfolding scale_ok_def by blast+

section \<open>The contract of an encoder and a decoder\<close>

locale codec =
  fixes valid :: "'a \<Rightarrow> bool"
    and enc :: "'a \<Rightarrow> bytes"
    and dec :: "'a decoder"
  assumes dec_enc: "valid x \<Longrightarrow> dec (enc x @ rest) = Some (x, rest)"
begin

lemma dec_enc_all: "valid x \<Longrightarrow> dec (enc x) = Some (x, [])"
  using dec_enc [of x "[]"] by simp

lemma enc_inject: "valid x \<Longrightarrow> valid y \<Longrightarrow> enc x = enc y \<Longrightarrow> x = y"
  by (metis dec_enc_all option.inject prod.inject)

text \<open>No encoding is a proper prefix of another.\<close>

lemma prefix_free: "valid x \<Longrightarrow> valid y \<Longrightarrow> enc x @ r = enc y @ s \<Longrightarrow> x = y \<and> r = s"
  by (metis dec_enc option.inject prod.inject)

text \<open>A stream of encodings decodes value by value.\<close>

fun dec_list :: "nat \<Rightarrow> 'a list decoder" where
  "dec_list 0 inp = Some ([], inp)"
| "dec_list (Suc n) inp = (case dec inp of
     None \<Rightarrow> None
   | Some (x, inp') \<Rightarrow> (case dec_list n inp' of
       None \<Rightarrow> None
     | Some (xs, inp'') \<Rightarrow> Some (x # xs, inp'')))"

lemma dec_list_enc:
  "(\<forall>x \<in> set xs. valid x) \<Longrightarrow> dec_list (length xs) (concat (map enc xs) @ rest) = Some (xs, rest)"
  by (induction xs) (simp_all add: dec_enc)

end

locale scale_primitives =
  fixes sl :: scale_lib
  assumes ok: "scale_ok sl"

section \<open>The published format\<close>

definition le_bytes :: "nat \<Rightarrow> nat \<Rightarrow> bytes" where
  "le_bytes k n = rev (be_bytes k n)"

definition le_nat :: "bytes \<Rightarrow> nat" where
  "le_nat bs = be_nat (rev bs)"

lemma le_nat_le_bytes: "n < 256 ^ k \<Longrightarrow> le_nat (le_bytes k n) = n"
  by (simp add: le_nat_def le_bytes_def be_nat_be_bytes)

lemma length_le_bytes [simp]: "length (le_bytes k n) = k"
  by (simp add: le_bytes_def)

definition take_bytes :: "nat \<Rightarrow> bytes decoder" where
  "take_bytes n inp = (if n \<le> length inp then Some (take n inp, drop n inp) else None)"

definition le_u64_dec :: "u64 decoder" where
  "le_u64_dec inp = map_option (\<lambda>(bs, rest). (word_of_nat (le_nat bs), rest)) (take_bytes 8 inp)"

fun le_u64s_dec :: "nat \<Rightarrow> u64 list decoder" where
  "le_u64s_dec 0 inp = Some ([], inp)"
| "le_u64s_dec (Suc n) inp = (case le_u64_dec inp of
     None \<Rightarrow> None
   | Some (w, inp') \<Rightarrow> map_option (\<lambda>(ws, r). (w # ws, r)) (le_u64s_dec n inp'))"

text \<open>Compact lengths below \<open>2 ^ 30\<close>: the two low bits select one, two or four bytes.\<close>

definition compact_enc :: "nat \<Rightarrow> bytes" where
  "compact_enc n = (if n < 2 ^ 6 then le_bytes 1 (4 * n)
     else if n < 2 ^ 14 then le_bytes 2 (4 * n + 1) else le_bytes 4 (4 * n + 2))"

definition compact_dec :: "nat decoder" where
  "compact_dec inp = (case inp of [] \<Rightarrow> None
     | b # _ \<Rightarrow>
       let k = (if unat b mod 4 = 0 then 1 else if unat b mod 4 = 1 then 2 else 4) in
       if unat b mod 4 = 3 then None
       else map_option (\<lambda>(bs, r). (le_nat bs div 4, r)) (take_bytes k inp))"

definition scale_ref :: scale_lib where
  "scale_ref =
     \<lparr>array_enc = (\<lambda>bs. bs), array_dec = take_bytes,
      u8_enc = (\<lambda>b. [b]), u8_dec = (\<lambda>inp. case inp of [] \<Rightarrow> None | b # r \<Rightarrow> Some (b, r)),
      u64_enc = (\<lambda>n. le_bytes 8 (unat n)), u64_dec = le_u64_dec,
      u64s_enc = (\<lambda>ns. concat (map (\<lambda>n. le_bytes 8 (unat n)) ns)), u64s_dec = le_u64s_dec,
      vec_enc = (\<lambda>bs. compact_enc (length bs) @ bs),
      vec_dec = (\<lambda>inp. case compact_dec inp of None \<Rightarrow> None | Some (n, r) \<Rightarrow> take_bytes n r)\<rparr>"

lemma take_bytes_append [simp]: "take_bytes (length bs) (bs @ rest) = Some (bs, rest)"
  by (simp add: take_bytes_def)

lemma take_bytes_le_bytes [simp]: "take_bytes k (le_bytes k n @ rest) = Some (le_bytes k n, rest)"
  using take_bytes_append [of "le_bytes k n" rest] by simp

lemma le_u64_dec_enc [simp]: "le_u64_dec (le_bytes 8 (unat n) @ rest) = Some (n, rest)"
  using unat_less [of n] by (simp add: le_u64_dec_def le_nat_le_bytes)

lemma le_u64s_dec_enc [simp]:
  "le_u64s_dec (length ns) (concat (map (\<lambda>n. le_bytes 8 (unat n)) ns) @ rest) = Some (ns, rest)"
  by (induction ns) simp_all

lemma hd_le_bytes: "0 < k \<Longrightarrow> le_bytes k n = word_of_nat n # tl (le_bytes k n)"
proof -
  have "le_bytes k n = map (\<lambda>i. word_of_nat (n div 256 ^ i)) [0..<k]"
    by (simp add: le_bytes_def be_bytes_def rev_map)
  then show "0 < k \<Longrightarrow> ?thesis" by (simp add: upt_conv_Cons)
qed

lemma compact_dec_Cons:
  "unat b mod 4 \<noteq> 3 \<Longrightarrow> compact_dec (b # t) =
     map_option (\<lambda>(bs, r). (le_nat bs div 4, r))
       (take_bytes (if unat b mod 4 = 0 then 1 else if unat b mod 4 = 1 then 2 else 4) (b # t))"
  by (simp add: compact_dec_def)

lemma compact_dec_enc:
  assumes "n < vec_bound"
  shows "compact_dec (compact_enc n @ rest) = Some (n, rest)"
proof -
  have first: "compact_dec (le_bytes k m @ rest) = Some (m div 4, rest)"
    if "k = (if m mod 4 = 0 then 1 else if m mod 4 = 1 then 2 else 4)" "m mod 4 \<noteq> 3" "m < 256 ^ k" for k m
  proof -
    have b: "unat (word_of_nat m :: u8) mod 4 = m mod 4"
      by (simp add: unat_of_nat mod_mod_cancel)
    have e: "le_bytes k m @ rest = word_of_nat m # (tl (le_bytes k m) @ rest)"
      using hd_le_bytes [of k m] that(1) by (metis append_Cons less_numeral_extra(1) zero_less_numeral)
    have "compact_dec (le_bytes k m @ rest) =
        map_option (\<lambda>(bs, r). (le_nat bs div 4, r)) (take_bytes k (le_bytes k m @ rest))"
      unfolding e by (subst compact_dec_Cons) (simp_all only: b that(1,2) not_False_eq_True)
    then show ?thesis using that(3) by (simp add: le_nat_le_bytes)
  qed
  consider "n < 2 ^ 6" | "\<not> n < 2 ^ 6" "n < 2 ^ 14" | "\<not> n < 2 ^ 6" "\<not> n < 2 ^ 14" by blast
  then show ?thesis
  proof cases
    case 1
    then show ?thesis using first [of 1 "4 * n"] by (simp add: compact_enc_def)
  next
    case 2
    moreover have "(4 * n + 1) mod 4 = 1" "(4 * n + 1) div 4 = n" for n :: nat by presburger+
    ultimately show ?thesis using first [of 2 "4 * n + 1"] by (simp add: compact_enc_def)
  next
    case 3
    moreover have "(4 * n + 2) mod 4 = 2" "(4 * n + 2) div 4 = n" for n :: nat by presburger+
    ultimately show ?thesis
      using first [of 4 "4 * n + 2"] assms by (simp add: compact_enc_def vec_bound_def)
  qed
qed

lemma length_le_u64s_dec: "le_u64s_dec n inp = Some (ns, rest) \<Longrightarrow> length ns = n"
  by (induction n inp arbitrary: ns rest rule: le_u64s_dec.induct)
    (auto split: option.splits)

lemma scale_ref_ok: "scale_ok scale_ref"
  unfolding scale_ok_def
  by (auto simp: scale_ref_def compact_dec_enc length_le_u64s_dec take_bytes_def [of _ "_"]
      split: if_splits)

interpretation scale_format: scale_primitives scale_ref
  by unfold_locales (rule scale_ref_ok)

end
