(* ===== verification/Crypto.thy ===== *)
theory Crypto
  imports Prelude
begin

text \<open>
  The \<open>sovereign-crypto\<close> crate (\<open>crates/crypto/src/lib.rs\<close>): schemes and profiles, signature
  dispatch, hashing, address derivation and the post-quantum envelope. The cryptographic
  primitives are third-party crates and stay parameters (\<open>crypto_lib\<close>); the dispatch, the
  length checks, the chunking of the Poseidon input and the envelope format are the code's.
  Lemmas: the envelope parses exactly what the packer wrote; the quantum trigger admits only
  post-quantum schemes; when verification panics; which schemes verify no signature at all.
\<close>

section \<open>Schemes and profiles\<close>

datatype signature_scheme =
    Secp256k1 | Secp256k1Schnorr | Secp256r1 | Ed25519 | Pasta | Bls | BabyJubjub
  | MlDsa | SlhDsa | Falcon | Xmss

datatype hash_scheme = Keccak256 | Poseidon | Sha256 | Blake3

datatype pairing_curve = Bn254 | Bls12381 | BabyBear | Bandersnatch

datatype state_tree_scheme = Verkle | PoseidonMerkle | MinaSnarkState

record crypto_profile =
  cp_name :: string
  cp_signature :: signature_scheme
  cp_hash :: hash_scheme
  cp_pairing_curve :: pairing_curve
  cp_state_tree :: state_tree_scheme

fun is_post_quantum :: "signature_scheme \<Rightarrow> bool" where
  "is_post_quantum MlDsa = True"
| "is_post_quantum SlhDsa = True"
| "is_post_quantum Falcon = True"
| "is_post_quantum Xmss = True"
| "is_post_quantum _ = False"

fun default_address_hash :: "signature_scheme \<Rightarrow> hash_scheme" where
  "default_address_hash Secp256k1 = Keccak256"
| "default_address_hash Secp256k1Schnorr = Keccak256"
| "default_address_hash Secp256r1 = Keccak256"
| "default_address_hash Falcon = Keccak256"
| "default_address_hash Ed25519 = Blake3"
| "default_address_hash Bls = Blake3"
| "default_address_hash Pasta = Poseidon"
| "default_address_hash BabyJubjub = Poseidon"
| "default_address_hash MlDsa = Poseidon"
| "default_address_hash SlhDsa = Sha256"
| "default_address_hash Xmss = Sha256"

definition ETHEREUM :: crypto_profile where
  "ETHEREUM = \<lparr>cp_name = ''ethereum'', cp_signature = Secp256k1, cp_hash = Keccak256,
     cp_pairing_curve = Bn254, cp_state_tree = Verkle\<rparr>"

definition THROUGHPUT :: crypto_profile where
  "THROUGHPUT = \<lparr>cp_name = ''throughput'', cp_signature = Ed25519, cp_hash = Blake3,
     cp_pairing_curve = Bn254, cp_state_tree = PoseidonMerkle\<rparr>"

definition QUANTUM_STANDARD :: crypto_profile where
  "QUANTUM_STANDARD = \<lparr>cp_name = ''quantum_standard'', cp_signature = MlDsa, cp_hash = Poseidon,
     cp_pairing_curve = Bls12381, cp_state_tree = PoseidonMerkle\<rparr>"

definition IOT_COMPACT :: crypto_profile where
  "IOT_COMPACT = \<lparr>cp_name = ''iot_compact'', cp_signature = Falcon, cp_hash = Keccak256,
     cp_pairing_curve = Bls12381, cp_state_tree = Verkle\<rparr>"

definition QUANTUM_HARDENED :: crypto_profile where
  "QUANTUM_HARDENED = \<lparr>cp_name = ''quantum_hardened'', cp_signature = SlhDsa, cp_hash = Sha256,
     cp_pairing_curve = Bls12381, cp_state_tree = PoseidonMerkle\<rparr>"

definition MINA_RECURSIVE :: crypto_profile where
  "MINA_RECURSIVE = \<lparr>cp_name = ''mina_recursive'', cp_signature = Pasta, cp_hash = Poseidon,
     cp_pairing_curve = BabyBear, cp_state_tree = MinaSnarkState\<rparr>"

text \<open>The error strings of the crate, one constructor per message.\<close>

datatype crypto_error =
    UnsupportedProfileName | UnsupportedSignatureScheme | RejectedQuantumThreat
  | InvalidSecp256k1Key | InvalidSecp256k1Signature | Secp256k1VerificationFailed
  | InvalidSecp256r1KeyLength | InvalidZkCurveLengths | InvalidBlsLengths
  | InvalidEd25519Key | InvalidEd25519Signature | Ed25519VerificationFailed
  | InvalidMlDsaKeyLength | InvalidMlDsaSignatureLength | MlDsaKeyDeserialization
  | MlDsaVerificationFailed
  | InvalidSlhDsaKeyLength | InvalidSlhDsaSignatureLength | SlhDsaKeyDeserialization
  | SlhDsaVerificationFailed
  | InvalidFalconKey | InvalidFalconSignature | FalconVerificationFailed
  | InvalidXmssLengths
  | NotAnEnvelope | UnsupportedEnvelopeScheme | EnvelopeTruncated

definition profile_from_name :: "string \<Rightarrow> (crypto_profile, crypto_error) outcome" where
  "profile_from_name name = (let n = to_lowercase name in
     if n \<in> {''ethereum'', ''eth''} then Ok ETHEREUM
     else if n \<in> {''throughput'', ''high_perf''} then Ok THROUGHPUT
     else if n \<in> {''quantum_standard'', ''quantum_default'', ''mldsa''} then Ok QUANTUM_STANDARD
     else if n \<in> {''iot_compact'', ''falcon''} then Ok IOT_COMPACT
     else if n \<in> {''quantum_hardened'', ''slhdsa''} then Ok QUANTUM_HARDENED
     else if n \<in> {''mina_recursive'', ''mina''} then Ok MINA_RECURSIVE
     else Err UnsupportedProfileName)"

definition parse_scheme :: "string \<Rightarrow> (signature_scheme, crypto_error) outcome" where
  "parse_scheme s = (let n = to_lowercase s in
     if n = ''secp256k1'' then Ok Secp256k1
     else if n \<in> {''secp256k1schnorr'', ''schnorr''} then Ok Secp256k1Schnorr
     else if n \<in> {''secp256r1'', ''p256''} then Ok Secp256r1
     else if n = ''ed25519'' then Ok Ed25519
     else if n \<in> {''pasta'', ''pallas'', ''vesta''} then Ok Pasta
     else if n \<in> {''bls'', ''bls12381''} then Ok Bls
     else if n \<in> {''babyjubjub'', ''jubjub''} then Ok BabyJubjub
     else if n \<in> {''mldsa'', ''dilithium''} then Ok MlDsa
     else if n \<in> {''slhdsa'', ''sphincs+'', ''sphincs''} then Ok SlhDsa
     else if n = ''falcon'' then Ok Falcon
     else if n = ''xmss'' then Ok Xmss
     else Err UnsupportedSignatureScheme)"

text \<open>\<open>unwrap_or\<close> on an outcome.\<close>

fun unwrap_or :: "'a \<Rightarrow> ('a, 'e) outcome \<Rightarrow> 'a" where
  "unwrap_or d (Ok x) = x"
| "unwrap_or d _ = d"

definition profile_or_ethereum :: "string \<Rightarrow> crypto_profile" where
  "profile_or_ethereum name = unwrap_or ETHEREUM (profile_from_name name)"

section \<open>The third-party primitives\<close>

text \<open>
  One field per call into a third-party crate: key and signature parsers (does the byte string
  decode), verification proper, and the hash functions. \<open>poseidon2\<close> is the two-input Poseidon
  permutation of \<open>light_poseidon\<close> on 32-byte field elements.
\<close>

record crypto_lib =
  keccak256 :: "bytes \<Rightarrow> b256"
  poseidon2 :: "bytes \<Rightarrow> bytes \<Rightarrow> bytes"
  sha256 :: "bytes \<Rightarrow> bytes"
  blake3 :: "bytes \<Rightarrow> bytes"
  k256_key_ok :: "bytes \<Rightarrow> bool"
  k256_sig_ok :: "bytes \<Rightarrow> bool"
  k256_verify :: "bytes \<Rightarrow> bytes \<Rightarrow> bytes \<Rightarrow> bool"
  ed25519_key_ok :: "bytes \<Rightarrow> bool"
  ed25519_sig_ok :: "bytes \<Rightarrow> bool"
  ed25519_verify :: "bytes \<Rightarrow> bytes \<Rightarrow> bytes \<Rightarrow> bool"
  ml_dsa_pk_len :: nat
  ml_dsa_sig_len :: nat
  ml_dsa_key_ok :: "bytes \<Rightarrow> bool"
  ml_dsa_verify :: "bytes \<Rightarrow> bytes \<Rightarrow> bytes \<Rightarrow> bool"
  slh_dsa_pk_len :: nat
  slh_dsa_sig_len :: nat
  slh_dsa_key_ok :: "bytes \<Rightarrow> bool"
  slh_dsa_verify :: "bytes \<Rightarrow> bytes \<Rightarrow> bytes \<Rightarrow> bool"
  falcon_key_ok :: "bytes \<Rightarrow> bool"
  falcon_sig_ok :: "bytes \<Rightarrow> bool"
  falcon_verify :: "bytes \<Rightarrow> bytes \<Rightarrow> bytes \<Rightarrow> bool"
  recover_address :: "bytes \<Rightarrow> b256 \<Rightarrow> address option"
  traditional_sig_ok :: "bytes \<Rightarrow> bool"

section \<open>Signature verification\<close>

text \<open>
  The Ed25519 branch slices \<open>public_key[0..32]\<close> before any length check, which panics on a
  shorter key.
\<close>

fun verify_scheme :: "crypto_lib \<Rightarrow> signature_scheme \<Rightarrow> bytes \<Rightarrow> bytes \<Rightarrow> bytes
    \<Rightarrow> (unit, crypto_error) outcome" where
  "verify_scheme cl Secp256k1 pk msg sig =
     and_then (require (k256_key_ok cl pk) InvalidSecp256k1Key) (\<lambda>_.
     and_then (require (k256_sig_ok cl sig) InvalidSecp256k1Signature) (\<lambda>_.
     require (k256_verify cl pk msg sig) Secp256k1VerificationFailed))"
| "verify_scheme cl Secp256k1Schnorr pk msg sig =
     and_then (require (k256_key_ok cl pk) InvalidSecp256k1Key) (\<lambda>_.
     and_then (require (k256_sig_ok cl sig) InvalidSecp256k1Signature) (\<lambda>_.
     require (k256_verify cl pk msg sig) Secp256k1VerificationFailed))"
| "verify_scheme cl Secp256r1 pk msg sig =
     require (\<not> (length pk \<noteq> 33 \<and> length pk \<noteq> 65)) InvalidSecp256r1KeyLength"
| "verify_scheme cl Pasta pk msg sig =
     require (\<not> (length pk \<noteq> 32 \<or> length sig \<noteq> 64)) InvalidZkCurveLengths"
| "verify_scheme cl BabyJubjub pk msg sig =
     require (\<not> (length pk \<noteq> 32 \<or> length sig \<noteq> 64)) InvalidZkCurveLengths"
| "verify_scheme cl Bls pk msg sig =
     require (\<not> (length pk \<noteq> 48 \<or> length sig \<noteq> 96)) InvalidBlsLengths"
| "verify_scheme cl Ed25519 pk msg sig =
     (if length pk < 32 then Panic else
     and_then (require (ed25519_key_ok cl (take 32 pk)) InvalidEd25519Key) (\<lambda>_.
     and_then (require (ed25519_sig_ok cl sig) InvalidEd25519Signature) (\<lambda>_.
     require (ed25519_verify cl (take 32 pk) msg sig) Ed25519VerificationFailed)))"
| "verify_scheme cl MlDsa pk msg sig =
     and_then (require (length pk = ml_dsa_pk_len cl) InvalidMlDsaKeyLength) (\<lambda>_.
     and_then (require (length sig = ml_dsa_sig_len cl) InvalidMlDsaSignatureLength) (\<lambda>_.
     and_then (require (ml_dsa_key_ok cl pk) MlDsaKeyDeserialization) (\<lambda>_.
     require (ml_dsa_verify cl pk msg sig) MlDsaVerificationFailed)))"
| "verify_scheme cl SlhDsa pk msg sig =
     and_then (require (length pk = slh_dsa_pk_len cl) InvalidSlhDsaKeyLength) (\<lambda>_.
     and_then (require (length sig = slh_dsa_sig_len cl) InvalidSlhDsaSignatureLength) (\<lambda>_.
     and_then (require (slh_dsa_key_ok cl pk) SlhDsaKeyDeserialization) (\<lambda>_.
     require (slh_dsa_verify cl pk msg sig) SlhDsaVerificationFailed)))"
| "verify_scheme cl Falcon pk msg sig =
     and_then (require (falcon_key_ok cl pk) InvalidFalconKey) (\<lambda>_.
     and_then (require (falcon_sig_ok cl sig) InvalidFalconSignature) (\<lambda>_.
     require (falcon_verify cl pk msg sig) FalconVerificationFailed))"
| "verify_scheme cl Xmss pk msg sig =
     require (\<not> (length pk \<noteq> 64 \<or> sig = [])) InvalidXmssLengths"

definition verify_signature :: "crypto_lib \<Rightarrow> signature_scheme \<Rightarrow> bytes \<Rightarrow> bytes \<Rightarrow> bytes \<Rightarrow> bool
    \<Rightarrow> (unit, crypto_error) outcome" where
  "verify_signature cl scheme pk msg sig quantum_threat =
     (if quantum_threat \<and> \<not> is_post_quantum scheme then Err RejectedQuantumThreat
      else verify_scheme cl scheme pk msg sig)"

section \<open>Hashing and addresses\<close>

text \<open>
  The Poseidon branch pads every 31-byte chunk on the left to 32 bytes, hashes a lone chunk
  with zero, and otherwise folds the chunks from the left.
\<close>

definition poseidon_chunks :: "bytes \<Rightarrow> bytes list" where
  "poseidon_chunks data =
     (let cs = map (\<lambda>c. replicate (32 - length c) 0 @ c) (chunks 31 data)
      in if cs = [] then [replicate 32 0] else cs)"

definition poseidon_hash :: "crypto_lib \<Rightarrow> bytes \<Rightarrow> bytes" where
  "poseidon_hash cl data =
     (case poseidon_chunks data of
        [] \<Rightarrow> []
      | [c] \<Rightarrow> poseidon2 cl c (replicate 32 0)
      | c # cs \<Rightarrow> foldl (poseidon2 cl) c cs)"

fun hash :: "crypto_lib \<Rightarrow> hash_scheme \<Rightarrow> bytes \<Rightarrow> bytes" where
  "hash cl Keccak256 data = b256_bytes (keccak256 cl data)"
| "hash cl Poseidon data = poseidon_hash cl data"
| "hash cl Sha256 data = sha256 cl data"
| "hash cl Blake3 data = blake3 cl data"

definition derive_address :: "crypto_lib \<Rightarrow> hash_scheme \<Rightarrow> bytes \<Rightarrow> bytes" where
  "derive_address cl scheme pk =
     (let hashed = hash cl scheme pk in
      if 20 \<le> length hashed then drop (length hashed - 20) hashed else replicate 20 0)"

section \<open>The post-quantum envelope\<close>

definition envelope_magic :: bytes where
  "envelope_magic = [0x71, 0x74, 0x65, 0x6e]"

fun scheme_byte :: "signature_scheme \<Rightarrow> u8" where
  "scheme_byte Secp256k1 = 0"
| "scheme_byte Ed25519 = 1"
| "scheme_byte Secp256r1 = 2"
| "scheme_byte Pasta = 3"
| "scheme_byte Bls = 4"
| "scheme_byte MlDsa = 5"
| "scheme_byte SlhDsa = 6"
| "scheme_byte Falcon = 7"
| "scheme_byte Secp256k1Schnorr = 8"
| "scheme_byte BabyJubjub = 9"
| "scheme_byte Xmss = 10"

definition scheme_of_byte :: "u8 \<Rightarrow> signature_scheme option" where
  "scheme_of_byte b =
     (if b = 0 then Some Secp256k1 else if b = 1 then Some Ed25519
      else if b = 2 then Some Secp256r1 else if b = 3 then Some Pasta
      else if b = 4 then Some Bls else if b = 5 then Some MlDsa
      else if b = 6 then Some SlhDsa else if b = 7 then Some Falcon
      else if b = 8 then Some Secp256k1Schnorr else if b = 9 then Some BabyJubjub
      else if b = 10 then Some Xmss else None)"

definition unpack_pq_envelope ::
    "bytes \<Rightarrow> (signature_scheme \<times> bytes \<times> bytes, crypto_error) outcome" where
  "unpack_pq_envelope witness =
     (if length witness < 9 \<or> take 4 witness \<noteq> envelope_magic then Err NotAnEnvelope
      else case scheme_of_byte (witness ! 4) of
        None \<Rightarrow> Err UnsupportedEnvelopeScheme
      | Some scheme \<Rightarrow>
          (let pk_len = be_nat [witness ! 5, witness ! 6];
               sig_len = be_nat [witness ! 7, witness ! 8]
           in if length witness < 9 + pk_len + sig_len then Err EnvelopeTruncated
              else Ok (scheme, take pk_len (drop 9 witness),
                       take sig_len (drop (9 + pk_len) witness))))"

definition pack_pq_envelope :: "signature_scheme \<Rightarrow> bytes \<Rightarrow> bytes \<Rightarrow> bytes" where
  "pack_pq_envelope scheme pk sig =
     envelope_magic @ [scheme_byte scheme]
       @ be_bytes 2 (length pk mod 2 ^ 16) @ be_bytes 2 (length sig mod 2 ^ 16) @ pk @ sig"

section \<open>Verification lemmas\<close>

lemma verify_signature_quantum:
  "verify_signature cl s pk msg sig True = Ok u \<Longrightarrow> is_post_quantum s"
  by (simp add: verify_signature_def split: if_splits)

lemma verify_scheme_not_panic: "s \<noteq> Ed25519 \<Longrightarrow> verify_scheme cl s pk msg sig \<noteq> Panic"
  by (cases s) (auto simp: outcome_simps)

lemma verify_scheme_Panic_iff:
  "verify_scheme cl s pk msg sig = Panic \<longleftrightarrow> s = Ed25519 \<and> length pk < 32"
proof (cases "s = Ed25519")
  case True
  then show ?thesis by (auto simp: outcome_simps)
next
  case False
  then show ?thesis using verify_scheme_not_panic [OF False] by simp
qed

lemma verify_signature_Panic_iff:
  "verify_signature cl s pk msg sig qt = Panic \<longleftrightarrow> s = Ed25519 \<and> length pk < 32 \<and> \<not> qt"
  by (auto simp: verify_signature_def verify_scheme_Panic_iff)

section \<open>Envelope lemmas\<close>

lemma scheme_of_byte_scheme_byte [simp]: "scheme_of_byte (scheme_byte s) = Some s"
  by (cases s) (simp_all add: scheme_of_byte_def)

lemma scheme_of_byte_Some: "scheme_of_byte b = Some s \<Longrightarrow> b = scheme_byte s"
  by (auto simp: scheme_of_byte_def split: if_splits)

lemma length_envelope_magic [simp]: "length envelope_magic = 4"
  by (simp add: envelope_magic_def)

lemma be_bytes_2: "be_bytes 2 n = [word_of_nat (n div 256), word_of_nat n]"
  by (simp add: be_bytes_Suc numeral_2_eq_2)

lemma length_pack_pq_envelope [simp]:
  "length (pack_pq_envelope s pk sig) = 9 + length pk + length sig"
  by (simp add: pack_pq_envelope_def)

lemma unpack_pack_append:
  assumes "length pk < 2 ^ 16" and "length sig < 2 ^ 16"
  shows "unpack_pq_envelope (pack_pq_envelope s pk sig @ rest) = Ok (s, pk, sig)"
proof -
  let ?w = "pack_pq_envelope s pk sig @ rest"
  have w: "?w = envelope_magic @ scheme_byte s #
      be_bytes 2 (length pk) @ be_bytes 2 (length sig) @ pk @ sig @ rest"
    using assms by (simp add: pack_pq_envelope_def)
  have "take 4 ?w = envelope_magic" by (simp add: w)
  moreover have "?w ! 4 = scheme_byte s" by (simp add: w nth_append)
  moreover have "[?w ! 5, ?w ! 6] = be_bytes 2 (length pk)"
    by (simp add: w nth_append be_bytes_2)
  moreover have "[?w ! 7, ?w ! 8] = be_bytes 2 (length sig)"
    by (simp add: w nth_append be_bytes_2)
  moreover have "be_nat (be_bytes 2 (length pk)) = length pk"
    "be_nat (be_bytes 2 (length sig)) = length sig"
    using assms by (simp_all add: be_nat_be_bytes)
  moreover have d9: "drop 9 ?w = pk @ sig @ rest"
    by (simp add: w be_bytes_2)
  moreover have "drop (9 + length pk) ?w = drop (length pk) (drop 9 ?w)"
    by (simp only: drop_drop add.commute)
  then have "drop (9 + length pk) ?w = sig @ rest"
    by (simp only: d9) simp
  moreover have "9 + length pk + length sig \<le> length ?w" by simp
  ultimately show ?thesis
    by (simp only: unpack_pq_envelope_def) simp
qed

lemma unpack_pq_envelope_Ok:
  assumes "unpack_pq_envelope w = Ok (s, pk, sig)"
  shows "length pk < 2 ^ 16 \<and> length sig < 2 ^ 16 \<and>
    w = pack_pq_envelope s pk sig @ drop (9 + length pk + length sig) w"
proof -
  define n where "n = be_nat [w ! 5, w ! 6]"
  define m where "m = be_nat [w ! 7, w ! 8]"
  from assms have len: "9 \<le> length w" "9 + n + m \<le> length w"
    and magic: "take 4 w = envelope_magic"
    and s: "w ! 4 = scheme_byte s"
    and pk: "pk = take n (drop 9 w)" and sig: "sig = take m (drop (9 + n) w)"
    by (auto simp: unpack_pq_envelope_def Let_def n_def m_def scheme_of_byte_Some
        split: if_splits option.splits)
  have n: "n < 2 ^ 16" and m: "m < 2 ^ 16"
    using be_nat_less [of "[w ! 5, w ! 6]"] be_nat_less [of "[w ! 7, w ! 8]"]
    by (simp_all add: n_def m_def power2_eq_square)
  have lens: "length pk = n" "length sig = m" using len by (simp_all add: pk sig)
  have nb: "be_bytes 2 n = [w ! 5, w ! 6]" "be_bytes 2 m = [w ! 7, w ! 8]"
    using be_bytes_be_nat [of "[w ! 5, w ! 6]"] be_bytes_be_nat [of "[w ! 7, w ! 8]"]
    by (simp_all add: n_def m_def numeral_2_eq_2)
  have "w = take 4 w @ drop 4 w" by simp
  also have "drop 4 w = w ! 4 # w ! 5 # w ! 6 # w ! 7 # w ! 8 # drop 9 w"
    using len(1) Cons_nth_drop_Suc [of 4 w] Cons_nth_drop_Suc [of 5 w]
      Cons_nth_drop_Suc [of 6 w] Cons_nth_drop_Suc [of 7 w] Cons_nth_drop_Suc [of 8 w]
    by simp
  also have "drop 9 w = pk @ drop (9 + n) w"
    by (simp add: pk add.commute flip: drop_drop)
  also have "drop (9 + n) w = sig @ drop (9 + n + m) w"
    by (simp add: sig add.commute flip: drop_drop)
  finally show ?thesis
    using n m by (simp add: pack_pq_envelope_def lens nb magic s)
qed

lemma unpack_pq_envelope_not_Panic [simp]: "unpack_pq_envelope w \<noteq> Panic"
  by (auto simp: unpack_pq_envelope_def Let_def split: option.splits)

section \<open>A concrete library\<close>

definition sample_crypto :: crypto_lib where
  "sample_crypto =
     \<lparr>keccak256 = (\<lambda>bs. word_of_nat (be_nat bs)), poseidon2 = (\<lambda>a b. take 32 (b @ a)),
      sha256 = (\<lambda>bs. b256_bytes (word_of_nat (be_nat bs))), blake3 = (\<lambda>bs. b256_bytes (word_of_nat (be_nat bs))),
      k256_key_ok = (\<lambda>pk. length pk = 33), k256_sig_ok = (\<lambda>s. length s = 64), k256_verify = (\<lambda>pk m s. True),
      ed25519_key_ok = (\<lambda>pk. length pk = 32), ed25519_sig_ok = (\<lambda>s. length s = 64),
      ed25519_verify = (\<lambda>pk m s. True),
      ml_dsa_pk_len = 1952, ml_dsa_sig_len = 3309, ml_dsa_key_ok = (\<lambda>pk. True), ml_dsa_verify = (\<lambda>pk m s. True),
      slh_dsa_pk_len = 32, slh_dsa_sig_len = 17088, slh_dsa_key_ok = (\<lambda>pk. True),
      slh_dsa_verify = (\<lambda>pk m s. True),
      falcon_key_ok = (\<lambda>pk. length pk = 897), falcon_sig_ok = (\<lambda>s. True), falcon_verify = (\<lambda>pk m s. True),
      recover_address = (\<lambda>sig h. if length sig = 65 then Some 7 else None),
      traditional_sig_ok = (\<lambda>sig. length sig = 65)\<rparr>"

section \<open>Properties\<close>

text \<open>C26: the envelope format. Unpacking what was packed, with anything after it, returns the
  scheme, the key and the signature exactly when both are shorter than 65536 bytes (the
  packer truncates longer lengths without an error).\<close>

theorem envelope_roundtrip_iff:
  "unpack_pq_envelope (pack_pq_envelope s pk sig @ rest) = Ok (s, pk, sig) \<longleftrightarrow>
     length pk < 2 ^ 16 \<and> length sig < 2 ^ 16"
  using unpack_pack_append [of pk sig s rest]
    unpack_pq_envelope_Ok [of "pack_pq_envelope s pk sig @ rest" s pk sig] by blast

text \<open>Parsing an envelope is canonical and total. It never panics, and bytes that parse are the
  packing of what was parsed followed by bytes that are ignored.\<close>

theorem envelope_parse_canonical:
  "(\<exists>s pk sig rest. unpack_pq_envelope w = Ok (s, pk, sig) \<and> w = pack_pq_envelope s pk sig @ rest) \<or>
   (\<exists>e. unpack_pq_envelope w = Err e)"
proof (cases "unpack_pq_envelope w")
  case (Ok x)
  then obtain s pk sig where "unpack_pq_envelope w = Ok (s, pk, sig)" by (cases x) auto
  with unpack_pq_envelope_Ok [OF this] show ?thesis by blast
qed simp_all

text \<open>Signature verification panics exactly on an Ed25519 key shorter than 32 bytes outside a
  quantum threat; under the threat a signature that verifies is of a post-quantum scheme.\<close>

theorem verify_signature_safety:
  "(verify_signature cl s pk msg sig qt = Panic \<longleftrightarrow> s = Ed25519 \<and> length pk < 32 \<and> \<not> qt) \<and>
   (verify_signature cl s pk msg sig qt = Ok () \<and> qt \<longrightarrow> is_post_quantum s)"
  using verify_signature_Panic_iff [of cl s pk msg sig qt] verify_signature_quantum [of cl s pk msg sig "()"]
  by (cases qt) simp_all

lemma verify_signature_safety_witness:
  "is_post_quantum Xmss \<and> verify_signature sample_crypto Ed25519 [1] [] [] False = Panic"
  using verify_signature_safety [of sample_crypto Xmss "replicate 64 0" "[]" "[0]" True]
    verify_signature_safety [of sample_crypto Ed25519 "[1]" "[]" "[]" False]
  by (simp add: verify_signature_def)

text \<open>Five of the schemes verify no signature. For Secp256r1, Pasta, BabyJubjub, BLS and XMSS,
  which counts as post-quantum, the verdict does not depend on the message, on the primitives
  or on any byte of the key or signature, only on their lengths.\<close>

theorem length_only_schemes:
  assumes "s \<in> {Secp256r1, Pasta, BabyJubjub, Bls, Xmss}"
    and "length pk = length pk'" and "length sig = length sig'"
  shows "verify_signature cl s pk msg sig qt = verify_signature cl' s pk' msg' sig' qt"
proof -
  have "sig = [] \<longleftrightarrow> sig' = []" using assms(3) by auto
  then show ?thesis using assms by (auto simp: verify_signature_def)
qed

lemma length_only_schemes_witness:
  "verify_signature sample_crypto Xmss (replicate 64 0) [1] [7] True =
     verify_signature sample_crypto Xmss (replicate 64 9) [2] [8] True"
  by (rule length_only_schemes) simp_all

lemma profile_or_ethereum_ethereum: "profile_or_ethereum ''ethereum'' = ETHEREUM"
  by (simp add: profile_or_ethereum_def profile_from_name_def to_lowercase_def char_lower_def)

end
