(* ===== verification/Text.thy ===== *)
theory Text
  imports Prelude
begin

text \<open>
  The remaining string operations of the Rust standard library that the sources use:
  splitting, trimming, substring search, decimal and hexadecimal formatting.
\<close>

section \<open>Splitting\<close>

text \<open>\<open>s.split(c)\<close>\<close>

fun split_on :: "char \<Rightarrow> string \<Rightarrow> string list" where
  "split_on c [] = [[]]"
| "split_on c (x # xs) =
     (if x = c then [] # split_on c xs
      else (case split_on c xs of [] \<Rightarrow> [[x]] | p # ps \<Rightarrow> (x # p) # ps))"

lemma split_on_not_Nil [simp]: "split_on c s \<noteq> []"
  by (induction s) (auto split: list.splits)

lemma split_on_notin [simp]: "c \<notin> set s \<Longrightarrow> split_on c s = [s]"
  by (induction s) auto

lemma split_on_append: "c \<notin> set s \<Longrightarrow> split_on c (s @ c # t) = s # split_on c t"
  by (induction s) auto

text \<open>\<open>s.splitn(n, c)\<close>\<close>

fun splitn :: "nat \<Rightarrow> char \<Rightarrow> string \<Rightarrow> string list" where
  "splitn 0 c s = []"
| "splitn (Suc 0) c s = [s]"
| "splitn (Suc (Suc n)) c s =
     (case dropWhile (\<lambda>x. x \<noteq> c) s of
        [] \<Rightarrow> [s]
      | _ # r \<Rightarrow> takeWhile (\<lambda>x. x \<noteq> c) s # splitn (Suc n) c r)"

lemma splitn_append:
  "c \<notin> set s \<Longrightarrow> splitn (Suc (Suc n)) c (s @ c # t) = s # splitn (Suc n) c t"
proof -
  assume "c \<notin> set s"
  then have "dropWhile (\<lambda>x. x \<noteq> c) (s @ c # t) = c # t" "takeWhile (\<lambda>x. x \<noteq> c) (s @ c # t) = s"
    by (auto simp: dropWhile_append takeWhile_append)
  then show ?thesis by simp
qed

section \<open>Trimming and searching\<close>

text \<open>\<open>s.trim_start_matches(p)\<close>: the prefix is removed as often as it occurs.\<close>

function trim_start_matches :: "string \<Rightarrow> string \<Rightarrow> string" where
  "trim_start_matches p s =
     (if p \<noteq> [] \<and> starts_with s p then trim_start_matches p (drop (length p) s) else s)"
  by pat_completeness auto
termination
  by (relation "measure (\<lambda>(p, s). length s)") (auto simp: starts_with_def intro!: diff_less)

declare trim_start_matches.simps [simp del]

lemma trim_start_matches_id: "\<not> starts_with s p \<Longrightarrow> trim_start_matches p s = s"
  by (subst trim_start_matches.simps) simp

lemma trim_start_matches_append [simp]:
  "p \<noteq> [] \<Longrightarrow> trim_start_matches p (p @ s) = trim_start_matches p s"
  by (subst trim_start_matches.simps) simp

lemma trim_start_matches_not_prefix:
  "p \<noteq> [] \<Longrightarrow> \<not> starts_with (trim_start_matches p s) p"
proof (induction p s rule: trim_start_matches.induct)
  case (1 p s)
  then show ?case by (subst trim_start_matches.simps) auto
qed

definition is_space :: "char \<Rightarrow> bool" where
  "is_space c \<longleftrightarrow> (of_char c :: nat) \<in> {9, 10, 11, 12, 13, 32}"

definition trim :: "string \<Rightarrow> string" where
  "trim s = rev (dropWhile is_space (rev (dropWhile is_space s)))"

fun contains :: "string \<Rightarrow> string \<Rightarrow> bool" where
  "contains [] p = (p = [])"
| "contains (c # s) p = (starts_with (c # s) p \<or> contains s p)"

text \<open>\<open>s.find(p)\<close>: the first position\<close>

fun find_sub :: "string \<Rightarrow> string \<Rightarrow> nat option" where
  "find_sub [] p = (if p = [] then Some 0 else None)"
| "find_sub (c # s) p =
     (if starts_with (c # s) p then Some 0 else map_option Suc (find_sub s p))"

definition ends_with :: "string \<Rightarrow> string \<Rightarrow> bool" where
  "ends_with s p \<longleftrightarrow> starts_with (rev s) (rev p)"

section \<open>Formatting\<close>

definition hex_char :: "nat \<Rightarrow> char" where
  "hex_char d = (if d < 10 then char_of (48 + d) else char_of (87 + d))"

text \<open>\<open>{b:02x}\<close> for every byte\<close>

definition hex_string :: "bytes \<Rightarrow> string" where
  "hex_string bs = concat (map (\<lambda>b. [hex_char (unat b div 16), hex_char (unat b mod 16)]) bs)"

text \<open>\<open>{}\<close> for an unsigned integer\<close>

fun decimal :: "nat \<Rightarrow> string" where
  "decimal n = (if n < 10 then [char_of (48 + n)] else decimal (n div 10) @ [char_of (48 + n mod 10)])"

declare decimal.simps [simp del]

text \<open>\<open>{:x}\<close> for an unsigned integer\<close>

fun lower_hex :: "nat \<Rightarrow> string" where
  "lower_hex n = (if n < 16 then [hex_char n] else lower_hex (n div 16) @ [hex_char (n mod 16)])"

declare lower_hex.simps [simp del]

lemma length_hex_string [simp]: "length (hex_string bs) = 2 * length bs"
  by (induction bs) (simp_all add: hex_string_def)

lemma of_char_hex_char:
  "d < 16 \<Longrightarrow> of_char (hex_char d) = (if d < 10 then 48 + d else 87 + d :: nat)"
  by (auto simp: hex_char_def of_char_of)

lemma hex_char_inject: "d < 16 \<Longrightarrow> e < 16 \<Longrightarrow> hex_char d = hex_char e \<Longrightarrow> d = e"
proof -
  assume d: "d < 16" and e: "e < 16" and "hex_char d = hex_char e"
  then have "(of_char (hex_char d) :: nat) = of_char (hex_char e)" by simp
  then show "d = e"
    using d e by (simp only: of_char_hex_char split: if_splits)
qed

lemma set_hex_string: "set (hex_string bs) \<subseteq> hex_char ` {0..<16}"
proof
  fix c assume "c \<in> set (hex_string bs)"
  then obtain b where "b \<in> set bs"
    and c: "c = hex_char (unat b div 16) \<or> c = hex_char (unat b mod 16)"
    by (auto simp: hex_string_def)
  have "unat b div 16 < 16" "unat b mod 16 < 16"
    using unat_less [of b] by simp_all
  with c show "c \<in> hex_char ` {0..<16}" by auto
qed

lemma set_decimal: "set (decimal n) \<subseteq> (\<lambda>d. char_of (48 + d :: nat)) ` {0..<10}"
proof (induction n rule: decimal.induct)
  case (1 n)
  then show ?case by (subst decimal.simps) auto
qed

lemma of_char_decimal_digit: "d < 10 \<Longrightarrow> of_char (char_of (48 + d :: nat)) = 48 + d"
  by (simp add: of_char_of)

lemma notin_decimal:
  assumes "(of_char c :: nat) < 48 \<or> 57 < (of_char c :: nat)"
  shows "c \<notin> set (decimal n)"
proof
  assume "c \<in> set (decimal n)"
  with set_decimal obtain d where d: "d < 10" "c = char_of (48 + d :: nat)" by fastforce
  with of_char_decimal_digit [OF d(1)] assms show False by (simp only:) linarith
qed

lemma notin_hex_string:
  assumes "(of_char c :: nat) < 48 \<or> 57 < (of_char c :: nat) \<and> (of_char c :: nat) < 97 \<or> 102 < (of_char c :: nat)"
  shows "c \<notin> set (hex_string bs)"
proof
  assume "c \<in> set (hex_string bs)"
  then obtain d where "d < 16" "c = hex_char d" using set_hex_string by fastforce
  with assms show False by (simp only: of_char_hex_char split: if_splits) linarith+
qed

section \<open>Reading hexadecimal\<close>

definition hex_value :: "char \<Rightarrow> nat option" where
  "hex_value c = (let n = of_char c :: nat in
     if 48 \<le> n \<and> n \<le> 57 then Some (n - 48)
     else if 97 \<le> n \<and> n \<le> 102 then Some (n - 87)
     else if 65 \<le> n \<and> n \<le> 70 then Some (n - 55) else None)"

fun hex_parse :: "string \<Rightarrow> bytes option" where
  "hex_parse [] = Some []"
| "hex_parse [c] = None"
| "hex_parse (c # d # s) =
     (case (hex_value c, hex_value d, hex_parse s) of
        (Some h, Some l, Some bs) \<Rightarrow> Some (word_of_nat (16 * h + l) # bs)
      | _ \<Rightarrow> None)"

lemma hex_value_hex_char [simp]: "d < 16 \<Longrightarrow> hex_value (hex_char d) = Some d"
  by (simp add: hex_value_def of_char_hex_char)

lemma hex_parse_hex_string [simp]: "hex_parse (hex_string bs) = Some bs"
proof (induction bs)
  case Nil
  then show ?case by (simp add: hex_string_def)
next
  case (Cons b bs)
  have "unat b div 16 < 16" "unat b mod 16 < 16" using unat_less [of b] by simp_all
  moreover have "16 * (unat b div 16) + unat b mod 16 = unat b" by simp
  moreover have "hex_string (b # bs) =
    hex_char (unat b div 16) # hex_char (unat b mod 16) # hex_string bs"
    by (simp add: hex_string_def)
  ultimately show ?case using Cons by simp
qed

lemma hex_string_inject: "hex_string a = hex_string b \<Longrightarrow> a = b"
  by (metis hex_parse_hex_string option.inject)

definition string_of_bytes :: "bytes \<Rightarrow> string" where
  "string_of_bytes bs = map (\<lambda>b. char_of (unat b)) bs"

lemma unat_of_char: "unat (of_char c :: u8) = of_char c"
proof -
  have "(of_char c :: u8) = word_of_nat (of_char c)" by (simp only: of_nat_of_char)
  then have "unat (of_char c :: u8) = of_char c mod 256"
    by (simp only: unat_of_nat) simp
  moreover have "of_char c < (256 :: nat)" by simp
  ultimately show ?thesis by simp
qed

lemma string_of_bytes_as_bytes [simp]: "string_of_bytes (as_bytes s) = s"
  by (induction s) (simp_all add: string_of_bytes_def as_bytes_def unat_of_char)

end
