(* ===== verification/Did.thy ===== *)
theory Did
  imports Crypto Text
begin

text \<open>
  Identity documents (\<open>crates/identity/src/did.rs\<close>): synthesis of a document from a foreign
  key or a master seed, and resolution of \<open>did:peer:4\<close> and \<open>did:sovereign\<close> strings. The
  base-58, hexadecimal, JSON and curve libraries are the parameters \<open>did_lib\<close>;
  \<open>did_lib_ok\<close> names what their documentation promises. Lemmas: both kinds of synthesised
  document resolve from their own DID string to exactly the document.
\<close>

section \<open>Documents\<close>

record sovereign_did_document =
  did_uri :: string
  short_form :: string
  ed25519_pubkey :: bytes
  evm_address :: address
  secp256k1_pubkey :: bytes
  bls_pubkey :: bytes
  ml_dsa_pubkey :: bytes
  slh_dsa_pubkey :: bytes
  falcon_pubkey :: bytes
  xmss_pubkey :: bytes
  authority_path :: "string list"
  trusted_authorities :: "string set"
  raw_document :: "string option"

record verification_method =
  vm_id :: string
  vm_key_type :: string
  vm_multibase :: string

record did_lib =
  dl_crypto :: crypto_lib
  bs58_encode :: "bytes \<Rightarrow> string"
  bs58_decode :: "string \<Rightarrow> bytes option"
  hex_encode :: "bytes \<Rightarrow> string"
  hex_decode :: "string \<Rightarrow> bytes option"
  did_json_parse :: "bytes \<Rightarrow> verification_method list option"
  did_json_print :: "verification_method list \<Rightarrow> string"
  secp_point :: "b256 \<Rightarrow> (bytes \<times> bytes) option"  \<comment> \<open>compressed and uncompressed point of a seed\<close>
  secp_uncompress :: "bytes \<Rightarrow> bytes option"

definition decode_multibase_key :: "did_lib \<Rightarrow> string \<Rightarrow> bytes \<Rightarrow> bytes option" where
  "decode_multibase_key dl multibase expected_prefix =
     (let clean = (case strip_prefix multibase ''z'' of Some r \<Rightarrow> r | None \<Rightarrow> multibase) in
      case bs58_decode dl clean of
        None \<Rightarrow> None
      | Some decoded \<Rightarrow> strip_prefix decoded expected_prefix)"

definition evm_address_of_point :: "did_lib \<Rightarrow> bytes \<Rightarrow> address" where
  "evm_address_of_point dl uncompressed =
     address_of_bytes (drop 12 (b256_bytes (keccak256 (dl_crypto dl) (drop 1 uncompressed))))"

section \<open>Synthesis\<close>

definition wrap_foreign_key :: "did_lib \<Rightarrow> u64 \<Rightarrow> bytes \<Rightarrow> sovereign_did_document" where
  "wrap_foreign_key dl chain_id raw =
     (let hex_key = hex_encode dl raw in
      \<lparr>did_uri = ''did:sovereign:'' @ decimal (unat chain_id) @ '':'' @ hex_key,
       short_form = hex_key,
       ed25519_pubkey = [],
       evm_address = (if 20 \<le> length raw then address_of_bytes (take 20 raw) else 0),
       secp256k1_pubkey = [], bls_pubkey = [], ml_dsa_pubkey = [], slh_dsa_pubkey = [],
       falcon_pubkey = [], xmss_pubkey = [], authority_path = [], trusted_authorities = {},
       raw_document = None\<rparr>)"

definition multibase :: "did_lib \<Rightarrow> bytes \<Rightarrow> string" where
  "multibase dl bs = ''z'' @ bs58_encode dl bs"

definition seed_verification_methods :: "did_lib \<Rightarrow> bytes \<Rightarrow> verification_method list" where
  "seed_verification_methods dl secp_raw =
     [\<lparr>vm_id = ''#key-secp256k1'', vm_key_type = ''EcdsaSecp256k1VerificationKey2019'',
       vm_multibase = multibase dl ([0xe7, 0x01] @ secp_raw)\<rparr>,
      \<lparr>vm_id = ''#key-ed25519'', vm_key_type = ''Ed25519VerificationKey2020'',
       vm_multibase = multibase dl [0xed, 0x01, 4, 5]\<rparr>,
      \<lparr>vm_id = ''#key-bls'', vm_key_type = ''Bls12381G1Key2020'',
       vm_multibase = multibase dl [0xea, 0x01, 6, 7]\<rparr>,
      \<lparr>vm_id = ''#key-mldsa'', vm_key_type = ''MlDsa65VerificationKey2024'',
       vm_multibase = multibase dl [0x93, 0x01, 8, 9]\<rparr>,
      \<lparr>vm_id = ''#key-slhdsa'', vm_key_type = ''SlhDsaSha2128fVerificationKey2024'',
       vm_multibase = multibase dl [0x94, 0x01, 10, 11]\<rparr>,
      \<lparr>vm_id = ''#key-falcon'', vm_key_type = ''Falcon512VerificationKey2024'',
       vm_multibase = multibase dl [0x92, 0x01, 12, 13]\<rparr>,
      \<lparr>vm_id = ''#key-xmss'', vm_key_type = ''XmssSha2256VerificationKey2024'',
       vm_multibase = multibase dl [0x95, 0x01, 14, 15]\<rparr>]"

definition peer_hash :: "did_lib \<Rightarrow> string \<Rightarrow> string" where
  "peer_hash dl doc_comp =
     multibase dl ([0x12, 0x20] @ hash (dl_crypto dl) Sha256 (as_bytes doc_comp))"

text \<open>\<open>SigningKey::from_slice(..).unwrap()\<close> panics when the seed is no valid scalar.\<close>

definition derive_from_seed ::
  "did_lib \<Rightarrow> b256 \<Rightarrow> (sovereign_did_document, unit) outcome" where
  "derive_from_seed dl master_seed =
     (case secp_point dl master_seed of
        None \<Rightarrow> Panic
      | Some (secp_raw, uncompressed) \<Rightarrow>
          (let json_str = did_json_print dl (seed_verification_methods dl secp_raw);
               doc_comp = multibase dl ([0x80, 0x04] @ as_bytes json_str);
               hash_comp = peer_hash dl doc_comp
           in Ok \<lparr>did_uri = ''did:peer:4'' @ hash_comp @ '':'' @ doc_comp,
                  short_form = ''did:peer:4'' @ hash_comp,
                  ed25519_pubkey = [4, 5],
                  evm_address = evm_address_of_point dl uncompressed,
                  secp256k1_pubkey = secp_raw,
                  bls_pubkey = [6, 7], ml_dsa_pubkey = [8, 9], slh_dsa_pubkey = [10, 11],
                  falcon_pubkey = [12, 13], xmss_pubkey = [14, 15],
                  authority_path = [], trusted_authorities = {},
                  raw_document = Some doc_comp\<rparr>))"

section \<open>Resolution\<close>

record did_keys =
  dk_evm :: "address option"
  dk_secp :: bytes
  dk_ed :: bytes
  dk_bls :: bytes
  dk_ml :: bytes
  dk_slh :: bytes
  dk_fal :: bytes
  dk_xmss :: bytes

definition no_keys :: did_keys where
  "no_keys = \<lparr>dk_evm = None, dk_secp = [], dk_ed = [], dk_bls = [], dk_ml = [], dk_slh = [],
     dk_fal = [], dk_xmss = []\<rparr>"

text \<open>One iteration of the loop over the verification methods.\<close>

definition add_verification_method ::
  "did_lib \<Rightarrow> did_keys \<Rightarrow> verification_method \<Rightarrow> did_keys" where
  "add_verification_method dl ks vm =
     (let t = vm_key_type vm; dec = decode_multibase_key dl (vm_multibase vm) in
      if t = ''EcdsaSecp256k1VerificationKey2019'' then
        (case dec [0xe7, 0x01] of None \<Rightarrow> ks
         | Some pk \<Rightarrow>
             (case secp_uncompress dl pk of
                None \<Rightarrow> ks\<lparr>dk_secp := pk\<rparr>
              | Some u \<Rightarrow> ks\<lparr>dk_secp := pk, dk_evm := Some (evm_address_of_point dl u)\<rparr>))
      else if t = ''Ed25519VerificationKey2020'' then
        (case dec [0xed, 0x01] of None \<Rightarrow> ks | Some pk \<Rightarrow> ks\<lparr>dk_ed := pk\<rparr>)
      else if t = ''Bls12381G1Key2020'' then
        (case dec [0xea, 0x01] of None \<Rightarrow> ks | Some pk \<Rightarrow> ks\<lparr>dk_bls := pk\<rparr>)
      else if t = ''MlDsa65VerificationKey2024'' then
        (case dec [0x93, 0x01] of None \<Rightarrow> ks | Some pk \<Rightarrow> ks\<lparr>dk_ml := pk\<rparr>)
      else if t = ''SlhDsaSha2128fVerificationKey2024'' then
        (case dec [0x94, 0x01] of None \<Rightarrow> ks | Some pk \<Rightarrow> ks\<lparr>dk_slh := pk\<rparr>)
      else if t = ''Falcon512VerificationKey2024'' then
        (case dec [0x92, 0x01] of None \<Rightarrow> ks | Some pk \<Rightarrow> ks\<lparr>dk_fal := pk\<rparr>)
      else if t = ''XmssSha2256VerificationKey2024'' then
        (case dec [0x95, 0x01] of None \<Rightarrow> ks | Some pk \<Rightarrow> ks\<lparr>dk_xmss := pk\<rparr>)
      else ks)"

text \<open>
  The first branch of \<open>from_did_string\<close>: \<open>Some r\<close> when the function returns \<open>r\<close> there,
  \<open>None\<close> when control falls through to the second branch.
\<close>

definition resolve_peer4 ::
  "did_lib \<Rightarrow> string \<Rightarrow> sovereign_did_document option option" where
  "resolve_peer4 dl did =
     (case strip_prefix did ''did:peer:4'' of
        None \<Rightarrow> None
      | Some rest \<Rightarrow>
          (case split_on (CHR '':'') rest of
             [hash_comp, doc_comp] \<Rightarrow>
               (if peer_hash dl doc_comp \<noteq> hash_comp then Some None
                else
                  (let clean = (case strip_prefix doc_comp ''z'' of Some r \<Rightarrow> r | None \<Rightarrow> doc_comp)
                   in case bs58_decode dl clean of
                        None \<Rightarrow> Some None
                      | Some decoded \<Rightarrow>
                          (if \<not> starts_with decoded [0x80, 0x04] then Some None
                           else case did_json_parse dl (drop 2 decoded) of
                             None \<Rightarrow> Some None
                           | Some vms \<Rightarrow>
                               (let ks = foldl (add_verification_method dl) no_keys vms in
                                case dk_evm ks of
                                  None \<Rightarrow> None
                                | Some a \<Rightarrow> Some (Some
                                    \<lparr>did_uri = did, short_form = ''did:peer:4'' @ hash_comp,
                                     ed25519_pubkey = dk_ed ks, evm_address = a,
                                     secp256k1_pubkey = dk_secp ks, bls_pubkey = dk_bls ks,
                                     ml_dsa_pubkey = dk_ml ks, slh_dsa_pubkey = dk_slh ks,
                                     falcon_pubkey = dk_fal ks, xmss_pubkey = dk_xmss ks,
                                     authority_path = [], trusted_authorities = {},
                                     raw_document = Some doc_comp\<rparr>)))))
           | _ \<Rightarrow> None))"

definition resolve_sovereign :: "did_lib \<Rightarrow> string \<Rightarrow> sovereign_did_document option" where
  "resolve_sovereign dl did =
     (if \<not> starts_with did ''did:sovereign:'' then None
      else case splitn 4 (CHR '':'') did of
        [_, _, _, key] \<Rightarrow>
          (let clean = trim_start_matches ''0x'' key in
           if length clean = 40 then
             (case hex_decode dl clean of
                None \<Rightarrow> None
              | Some addr \<Rightarrow>
                  (if length addr = 20 then Some
                     \<lparr>did_uri = did, short_form = clean, ed25519_pubkey = [],
                      evm_address = address_of_bytes addr, secp256k1_pubkey = [],
                      bls_pubkey = [], ml_dsa_pubkey = [], slh_dsa_pubkey = [],
                      falcon_pubkey = [], xmss_pubkey = [], authority_path = [],
                      trusted_authorities = {}, raw_document = None\<rparr>
                   else None))
           else None)
      | _ \<Rightarrow> None)"

definition from_did_string :: "did_lib \<Rightarrow> string \<Rightarrow> sovereign_did_document option" where
  "from_did_string dl did =
     (case resolve_peer4 dl did of
        Some r \<Rightarrow> r
      | None \<Rightarrow> resolve_sovereign dl did)"

section \<open>What the libraries promise\<close>

definition did_lib_ok :: "did_lib \<Rightarrow> bool" where
  "did_lib_ok dl \<longleftrightarrow>
     (\<forall>bs. bs58_decode dl (bs58_encode dl bs) = Some bs \<and> CHR '':'' \<notin> set (bs58_encode dl bs)) \<and>
     (\<forall>bs. hex_encode dl bs = hex_string bs \<and> hex_decode dl (hex_string bs) = Some bs) \<and>
     (\<forall>vms. did_json_parse dl (as_bytes (did_json_print dl vms)) = Some vms) \<and>
     (\<forall>seed c u. secp_point dl seed = Some (c, u) \<longrightarrow> secp_uncompress dl c = Some u)"

lemma did_lib_okD:
  assumes "did_lib_ok dl"
  shows "bs58_decode dl (bs58_encode dl bs) = Some bs" "CHR '':'' \<notin> set (bs58_encode dl bs)"
    and "hex_encode dl bs = hex_string bs" "hex_decode dl (hex_string bs) = Some bs"
    and "did_json_parse dl (as_bytes (did_json_print dl vms)) = Some vms"
    and "secp_point dl seed = Some (c, u) \<Longrightarrow> secp_uncompress dl c = Some u"
  using assms by (auto simp: did_lib_ok_def)

section \<open>Round trips\<close>

lemma decode_multibase_key_multibase:
  assumes "did_lib_ok dl"
  shows "decode_multibase_key dl (multibase dl (p @ k)) p = Some k"
  using strip_prefix_append [of "''z''" "bs58_encode dl (p @ k)"]
  by (simp add: decode_multibase_key_def multibase_def did_lib_okD [OF assms])

lemma not_starts_with_0x [simp]: "\<not> starts_with (hex_string bs) ''0x''"
proof
  assume "starts_with (hex_string bs) ''0x''"
  then have "take (length ''0x'') (hex_string bs) = ''0x''" by (simp only: starts_with_def)
  moreover have "CHR ''x'' \<in> set ''0x''" by simp
  ultimately have "CHR ''x'' \<in> set (take (length ''0x'') (hex_string bs))" by (simp only:)
  then have "CHR ''x'' \<in> set (hex_string bs)" by (rule in_set_takeD)
  then show False using notin_hex_string [of "CHR ''x''" bs] by simp
qed

lemma splitn_sovereign:
  "CHR '':'' \<notin> set c \<Longrightarrow>
    splitn 4 (CHR '':'') (''did:sovereign:'' @ c @ '':'' @ k) = [''did'', ''sovereign'', c, k]"
  using splitn_append [of "CHR '':''" "''did''" 2 "''sovereign:'' @ c @ '':'' @ k"]
    splitn_append [of "CHR '':''" "''sovereign''" 1 "c @ '':'' @ k"]
    splitn_append [of "CHR '':''" c 0 k]
  by (simp add: eval_nat_numeral)

lemma resolve_wrap_foreign_key:
  assumes "did_lib_ok dl"
  shows "from_did_string dl (did_uri (wrap_foreign_key dl chain raw)) =
    (if length raw = 20 then Some (wrap_foreign_key dl chain raw) else None)"
proof -
  let ?did = "''did:sovereign:'' @ decimal (unat chain) @ '':'' @ hex_string raw"
  have uri: "did_uri (wrap_foreign_key dl chain raw) = ?did"
    by (simp add: wrap_foreign_key_def Let_def did_lib_okD [OF assms])
  have peer: "resolve_peer4 dl ?did = None"
    by (simp add: resolve_peer4_def strip_prefix_def starts_with_def)
  have "starts_with ?did ''did:sovereign:''" by (rule starts_with_append)
  moreover have "splitn 4 (CHR '':'') ?did =
      [''did'', ''sovereign'', decimal (unat chain), hex_string raw]"
    by (rule splitn_sovereign) (simp add: notin_decimal)
  moreover have "trim_start_matches ''0x'' (hex_string raw) = hex_string raw"
    by (rule trim_start_matches_id) simp
  ultimately have "resolve_sovereign dl ?did =
      (if length raw = 20 then Some (wrap_foreign_key dl chain raw) else None)"
    by (simp add: resolve_sovereign_def wrap_foreign_key_def Let_def did_lib_okD [OF assms])
  with peer show ?thesis by (simp only: uri from_did_string_def) simp
qed

lemma resolve_document:
  assumes ok: "did_lib_ok dl" and parse: "did_json_parse dl (as_bytes js) = Some vms"
    and keys: "foldl (add_verification_method dl) no_keys vms =
      \<lparr>dk_evm = Some a, dk_secp = secp, dk_ed = ed, dk_bls = bls, dk_ml = ml, dk_slh = slh, dk_fal = fal, dk_xmss = xmss\<rparr>"
    and doc: "doc = multibase dl ([0x80, 0x04] @ as_bytes js)"
  shows "from_did_string dl (''did:peer:4'' @ peer_hash dl doc @ '':'' @ doc) = Some
    \<lparr>did_uri = ''did:peer:4'' @ peer_hash dl doc @ '':'' @ doc, short_form = ''did:peer:4'' @ peer_hash dl doc,
     ed25519_pubkey = ed, evm_address = a, secp256k1_pubkey = secp, bls_pubkey = bls, ml_dsa_pubkey = ml,
     slh_dsa_pubkey = slh, falcon_pubkey = fal, xmss_pubkey = xmss, authority_path = [],
     trusted_authorities = {}, raw_document = Some doc\<rparr>" (is "from_did_string dl ?did = Some ?d")
proof -
  have colon: "CHR '':'' \<notin> set (multibase dl bs)" for bs
    by (simp add: multibase_def did_lib_okD [OF ok])
  have "split_on (CHR '':'') (peer_hash dl doc @ '':'' @ doc) = [peer_hash dl doc, doc]"
    using split_on_append [of "CHR '':''" "peer_hash dl doc" doc] colon
    by (simp add: peer_hash_def doc)
  moreover have "strip_prefix ?did ''did:peer:4'' = Some (peer_hash dl doc @ '':'' @ doc)"
    by (rule strip_prefix_append)
  moreover have "strip_prefix doc ''z'' = Some (bs58_encode dl ([0x80, 0x04] @ as_bytes js))"
    unfolding doc multibase_def by (rule strip_prefix_append)
  ultimately have "resolve_peer4 dl ?did = Some (Some ?d)"
    by (simp only: resolve_peer4_def option.case list.case
        Let_def did_lib_okD [OF ok] starts_with_append simp_thms if_True if_False)
      (simp add: did_lib_okD [OF ok] keys parse starts_with_def)
  then show ?thesis by (simp add: from_did_string_def)
qed

lemma resolve_derive_from_seed:
  assumes ok: "did_lib_ok dl" and d: "derive_from_seed dl seed = Ok d"
  shows "from_did_string dl (did_uri d) = Some d"
proof -
  from d obtain secp u where pt: "secp_point dl seed = Some (secp, u)"
    by (cases "secp_point dl seed") (auto simp: derive_from_seed_def)
  have keys: "foldl (add_verification_method dl) no_keys (seed_verification_methods dl secp) =
      \<lparr>dk_evm = Some (evm_address_of_point dl u), dk_secp = secp, dk_ed = [4, 5],
       dk_bls = [6, 7], dk_ml = [8, 9], dk_slh = [10, 11], dk_fal = [12, 13], dk_xmss = [14, 15]\<rparr>"
    using decode_multibase_key_multibase [OF ok, of "[0xe7, 0x01]" secp]
      decode_multibase_key_multibase [OF ok, of "[0xed, 0x01]" "[4, 5]"]
      decode_multibase_key_multibase [OF ok, of "[0xea, 0x01]" "[6, 7]"]
      decode_multibase_key_multibase [OF ok, of "[0x93, 0x01]" "[8, 9]"]
      decode_multibase_key_multibase [OF ok, of "[0x94, 0x01]" "[10, 11]"]
      decode_multibase_key_multibase [OF ok, of "[0x92, 0x01]" "[12, 13]"]
      decode_multibase_key_multibase [OF ok, of "[0x95, 0x01]" "[14, 15]"]
    by (simp add: seed_verification_methods_def add_verification_method_def no_keys_def
        did_lib_okD(6) [OF ok pt])
  show ?thesis
    using resolve_document [OF ok did_lib_okD(5) [OF ok] keys refl] d
    by (auto simp: derive_from_seed_def pt Let_def)
qed

section \<open>A concrete library\<close>

text \<open>
  Hexadecimal for base 58, and a document as the hexadecimal fields of its verification methods
  separated by commas and closed by semicolons.
\<close>

definition hex_field :: "string \<Rightarrow> string" where
  "hex_field s = hex_string (as_bytes s)"

definition print_vm :: "verification_method \<Rightarrow> string" where
  "print_vm vm = hex_field (vm_id vm) @ '','' @ hex_field (vm_key_type vm) @ '','' @ hex_field (vm_multibase vm)"

definition print_vms :: "verification_method list \<Rightarrow> string" where
  "print_vms vms = concat (map (\<lambda>vm. print_vm vm @ '';'') vms)"

definition parse_field :: "string \<Rightarrow> string option" where
  "parse_field s = map_option string_of_bytes (hex_parse s)"

definition parse_vm :: "string \<Rightarrow> verification_method option" where
  "parse_vm s = (case map parse_field (split_on (CHR '','') s) of
     [Some a, Some b, Some c] \<Rightarrow> Some \<lparr>vm_id = a, vm_key_type = b, vm_multibase = c\<rparr>
   | _ \<Rightarrow> None)"

definition parse_vms :: "bytes \<Rightarrow> verification_method list option" where
  "parse_vms bs = those (map parse_vm (butlast (split_on (CHR '';'') (string_of_bytes bs))))"

definition sample_did_lib :: did_lib where
  "sample_did_lib =
     \<lparr>dl_crypto = sample_crypto, bs58_encode = hex_string, bs58_decode = hex_parse,
      hex_encode = hex_string, hex_decode = hex_parse,
      did_json_parse = parse_vms, did_json_print = print_vms,
      secp_point = (\<lambda>seed. Some (2 # b256_bytes seed, 4 # b256_bytes seed @ b256_bytes seed)),
      secp_uncompress = (\<lambda>c. Some (4 # drop 1 c @ drop 1 c))\<rparr>"

lemma parse_field_hex [simp]: "parse_field (hex_field s) = Some s"
  by (simp add: parse_field_def hex_field_def)

lemma comma_notin_field: "CHR '','' \<notin> set (hex_field s)"
  by (simp add: hex_field_def notin_hex_string)

lemma parse_vm_print [simp]: "parse_vm (print_vm vm) = Some vm"
proof -
  have "split_on (CHR '','') (print_vm vm) = [hex_field (vm_id vm), hex_field (vm_key_type vm), hex_field (vm_multibase vm)]"
    using split_on_append [of "CHR '',''" "hex_field (vm_id vm)" "hex_field (vm_key_type vm) @ '','' @ hex_field (vm_multibase vm)"]
      split_on_append [of "CHR '',''" "hex_field (vm_key_type vm)" "hex_field (vm_multibase vm)"]
    by (simp add: print_vm_def comma_notin_field)
  then show ?thesis by (simp add: parse_vm_def)
qed

lemma split_print_vms: "split_on (CHR '';'') (print_vms vms) = map print_vm vms @ [[]]"
proof (induction vms)
  case Nil
  then show ?case by (simp add: print_vms_def)
next
  case (Cons vm vms)
  have "CHR '';'' \<notin> set (print_vm vm)" by (simp add: print_vm_def hex_field_def notin_hex_string)
  from split_on_append [OF this, of "print_vms vms"] Cons show ?case by (simp add: print_vms_def)
qed

lemma parse_print_vms: "parse_vms (as_bytes (print_vms vms)) = Some vms"
proof -
  have "those (map parse_vm (map print_vm vms)) = Some vms" by (induction vms) simp_all
  then show ?thesis by (simp add: parse_vms_def split_print_vms)
qed

lemma sample_did_lib_ok: "did_lib_ok sample_did_lib"
  by (auto simp: did_lib_ok_def sample_did_lib_def notin_hex_string parse_print_vms)

section \<open>Properties\<close>

text \<open>C23: a derived identity resolves to itself: parsing the long-form DID of the document derived
  from a seed, which checks its hash, decodes its keys and recomputes the address, returns the
  whole document.\<close>

theorem derived_identity_resolves:
  assumes "did_lib_ok dl" and "derive_from_seed dl seed = Ok d"
  shows "from_did_string dl (did_uri d) = Some d"
  by (rule resolve_derive_from_seed [OF assms])

lemma derived_identity_resolves_witness:
  "from_did_string sample_did_lib (did_uri (ok_value (derive_from_seed sample_did_lib 5))) =
     Some (ok_value (derive_from_seed sample_did_lib 5))"
proof (rule derived_identity_resolves [OF sample_did_lib_ok])
  show "derive_from_seed sample_did_lib 5 = Ok (ok_value (derive_from_seed sample_did_lib 5))"
    by (simp add: derive_from_seed_def sample_did_lib_def Let_def)
qed

text \<open>The identity synthesized for a foreign key resolves to itself when the key has 20 bytes,
  and to nothing for a key of any other length.\<close>

theorem foreign_identity_resolves_iff:
  assumes "did_lib_ok dl"
  shows "from_did_string dl (did_uri (wrap_foreign_key dl chain raw)) =
    (if length raw = 20 then Some (wrap_foreign_key dl chain raw) else None)"
  by (rule resolve_wrap_foreign_key [OF assms])

lemma foreign_identity_resolves_iff_witness:
  "from_did_string sample_did_lib (did_uri (wrap_foreign_key sample_did_lib 1 [1, 2])) = None"
  using foreign_identity_resolves_iff [OF sample_did_lib_ok, of 1 "[1, 2]"] by simp

end
