(* ===== verification/F64.thy ===== *)
theory F64
  imports Prelude "HOL-Library.Log_Nat"
begin

text \<open>
  The \<open>f64\<close> arithmetic of Rust, executable: a double is NaN, an infinity or a finite
  rational, and every operation rounds its exact result to the nearest double, ties to
  even, with 53 significant bits, gradual underflow at exponent -1074 and overflow to
  infinity. The two zeros are one value: the sources compare them as equal and never
  divide by a zero of either sign that they have not tested for, except where a property
  says so. The lemmas: rounding is monotone and exact on the values that fit.
\<close>

section \<open>Values\<close>

datatype f64 = NaN | Inf bool | Fin rat  \<comment> \<open>\<open>Inf True\<close> is the negative infinity\<close>

section \<open>Rounding\<close>

definition ilog2 :: "rat \<Rightarrow> int" where
  "ilog2 x = (if 1 \<le> x then int (floorlog 2 (nat \<lfloor>x\<rfloor>)) - 1
              else - int (floorlog 2 (nat (\<lceil>1 / x\<rceil> - 1))))"

definition round_even :: "rat \<Rightarrow> int" where
  "round_even x = (let f = \<lfloor>x\<rfloor>; r = x - of_int f in
     if r < 1 / 2 then f else if 1 / 2 < r then f + 1 else if even f then f else f + 1)"

definition quantum :: "rat \<Rightarrow> rat" where
  "quantum x = 2 powi (max (ilog2 x) (-1022) - 52)"

definition round_mag :: "rat \<Rightarrow> rat" where
  "round_mag x = of_int (round_even (x / quantum x)) * quantum x"

definition round_rat :: "rat \<Rightarrow> rat" where
  "round_rat x = (if x = 0 then 0 else if 0 < x then round_mag x else - round_mag (- x))"

definition rnd :: "rat \<Rightarrow> f64" where
  "rnd x = (let m = round_rat x in
     if 2 ^ 1024 \<le> m then Inf False else if m \<le> - (2 ^ 1024) then Inf True else Fin m)"

section \<open>Operations\<close>

fun f64_neg :: "f64 \<Rightarrow> f64" where
  "f64_neg NaN = NaN"
| "f64_neg (Inf s) = Inf (\<not> s)"
| "f64_neg (Fin x) = Fin (- x)"

fun f64_add :: "f64 \<Rightarrow> f64 \<Rightarrow> f64" where
  "f64_add NaN b = NaN"
| "f64_add a NaN = NaN"
| "f64_add (Inf s) (Inf t) = (if s = t then Inf s else NaN)"
| "f64_add (Inf s) (Fin y) = Inf s"
| "f64_add (Fin x) (Inf t) = Inf t"
| "f64_add (Fin x) (Fin y) = rnd (x + y)"

definition f64_sub :: "f64 \<Rightarrow> f64 \<Rightarrow> f64" where
  "f64_sub a b = f64_add a (f64_neg b)"

fun f64_mul :: "f64 \<Rightarrow> f64 \<Rightarrow> f64" where
  "f64_mul NaN b = NaN"
| "f64_mul a NaN = NaN"
| "f64_mul (Inf s) (Inf t) = Inf (s \<noteq> t)"
| "f64_mul (Inf s) (Fin y) = (if y = 0 then NaN else Inf (s \<noteq> (y < 0)))"
| "f64_mul (Fin x) (Inf t) = (if x = 0 then NaN else Inf ((x < 0) \<noteq> t))"
| "f64_mul (Fin x) (Fin y) = rnd (x * y)"

fun f64_div :: "f64 \<Rightarrow> f64 \<Rightarrow> f64" where
  "f64_div NaN b = NaN"
| "f64_div a NaN = NaN"
| "f64_div (Inf s) (Inf t) = NaN"
| "f64_div (Inf s) (Fin y) = Inf (s \<noteq> (y < 0))"
| "f64_div (Fin x) (Inf t) = Fin 0"
| "f64_div (Fin x) (Fin y) =
     (if y = 0 then (if x = 0 then NaN else Inf (x < 0)) else rnd (x / y))"

fun f64_lt :: "f64 \<Rightarrow> f64 \<Rightarrow> bool" where
  "f64_lt NaN b = False"
| "f64_lt a NaN = False"
| "f64_lt (Inf s) (Inf t) = (s \<and> \<not> t)"
| "f64_lt (Inf s) (Fin y) = s"
| "f64_lt (Fin x) (Inf t) = (\<not> t)"
| "f64_lt (Fin x) (Fin y) = (x < y)"

fun f64_eq :: "f64 \<Rightarrow> f64 \<Rightarrow> bool" where
  "f64_eq NaN b = False"
| "f64_eq a NaN = False"
| "f64_eq a b = (a = b)"

definition f64_le :: "f64 \<Rightarrow> f64 \<Rightarrow> bool" where
  "f64_le a b \<longleftrightarrow> f64_lt a b \<or> f64_eq a b"

text \<open>\<open>f64::max\<close>: if one argument is NaN the other is returned.\<close>

fun f64_max :: "f64 \<Rightarrow> f64 \<Rightarrow> f64" where
  "f64_max NaN b = b"
| "f64_max a NaN = a"
| "f64_max a b = (if f64_lt a b then b else a)"

fun f64_ceil :: "f64 \<Rightarrow> f64" where
  "f64_ceil (Fin x) = Fin (of_int \<lceil>x\<rceil>)"
| "f64_ceil a = a"

text \<open>\<open>as u64\<close> and \<open>as usize\<close> truncate towards zero and saturate; NaN becomes 0.\<close>

fun f64_to_u64 :: "f64 \<Rightarrow> nat" where
  "f64_to_u64 NaN = 0"
| "f64_to_u64 (Inf s) = (if s then 0 else 2 ^ 64 - 1)"
| "f64_to_u64 (Fin x) = (if x \<le> 0 then 0 else min (nat \<lfloor>x\<rfloor>) (2 ^ 64 - 1))"

definition f64_of_nat :: "nat \<Rightarrow> f64" where
  "f64_of_nat n = rnd (of_nat n)"

text \<open>Literals are the double nearest to the decimal written in the source.\<close>

abbreviation f64_lit :: "rat \<Rightarrow> f64" where
  "f64_lit x \<equiv> rnd x"

definition f64_sum :: "f64 list \<Rightarrow> f64" where
  "f64_sum xs = foldl f64_add (Fin 0) xs"

section \<open>Rounding to the nearest even integer\<close>

lemma round_even_of_int [simp]: "round_even (of_int n) = n"
  by (simp add: round_even_def)

lemma round_even_ge: "of_int n \<le> x \<Longrightarrow> n \<le> round_even x"
proof -
  assume "of_int n \<le> x"
  then have "n \<le> \<lfloor>x\<rfloor>" by (simp add: le_floor_iff)
  then show ?thesis by (auto simp: round_even_def Let_def)
qed

lemma round_even_le:
  assumes "x \<le> of_int n"
  shows "round_even x \<le> n"
proof (cases "x = of_int n")
  case False
  with assms have "\<lfloor>x\<rfloor> < n" by (simp add: floor_less_iff)
  then show ?thesis by (auto simp: round_even_def Let_def)
qed simp

lemma round_even_mono:
  assumes "x \<le> y"
  shows "round_even x \<le> round_even y"
proof (cases "\<lfloor>x\<rfloor> = \<lfloor>y\<rfloor>")
  case True
  with assms show ?thesis by (auto simp: round_even_def Let_def)
next
  case False
  with floor_mono [OF assms] have "\<lfloor>x\<rfloor> + 1 \<le> \<lfloor>y\<rfloor>" by simp
  moreover have "round_even x \<le> \<lfloor>x\<rfloor> + 1" by (auto simp: round_even_def Let_def)
  moreover have "\<lfloor>y\<rfloor> \<le> round_even y" by (auto simp: round_even_def Let_def)
  ultimately show ?thesis by simp
qed

section \<open>The exponent\<close>

lemma floorlog2_bounds:
  assumes "0 < n"
  shows "(2 :: rat) powi (int (floorlog 2 n) - 1) \<le> of_nat n"
    and "(of_nat n :: rat) < 2 powi (int (floorlog 2 n))"
proof -
  have pos: "0 < floorlog 2 n"
    using assms by (simp add: floorlog_def)
  have b: "2 ^ (floorlog 2 n - 1) \<le> n" "n < 2 ^ floorlog 2 n"
    using floorlog_bounds [of n 2] assms by auto
  have "(2 :: rat) powi (int (floorlog 2 n) - 1) = of_nat (2 ^ (floorlog 2 n - 1))"
    using pos by (simp add: power_int_def nat_diff_distrib)
  also have "\<dots> \<le> of_nat n"
    using b(1) by (simp only: of_nat_le_iff)
  finally show "(2 :: rat) powi (int (floorlog 2 n) - 1) \<le> of_nat n" .
  have "(of_nat n :: rat) < of_nat (2 ^ floorlog 2 n)"
    using b(2) by (simp only: of_nat_less_iff)
  then show "(of_nat n :: rat) < 2 powi (int (floorlog 2 n))"
    by (simp add: power_int_def)
qed

lemma ilog2_bounds_ge:
  assumes "1 \<le> x"
  shows "2 powi (ilog2 x) \<le> x \<and> x < 2 powi (ilog2 x + 1)"
proof -
  define n where "n = nat \<lfloor>x\<rfloor>"
  have n: "0 < n" "of_nat n \<le> x" "x < of_nat n + 1"
    using assms floor_correct [of x] by (auto simp: n_def le_floor_iff)
  let ?k = "int (floorlog 2 n)"
  have "x < 2 powi ?k"
  proof -
    have "(of_nat n :: rat) < of_nat (2 ^ floorlog 2 n)"
      using floorlog2_bounds(2) [OF n(1)] by (simp add: power_int_def)
    then have "n + 1 \<le> 2 ^ floorlog 2 n" by (simp only: of_nat_less_iff)
    then have "(of_nat (n + 1) :: rat) \<le> of_nat (2 ^ floorlog 2 n)" by (simp only: of_nat_le_iff)
    with n(3) show ?thesis by (simp add: power_int_def)
  qed
  moreover have "2 powi (?k - 1) \<le> x"
    using floorlog2_bounds(1) [OF n(1)] n(2) by simp
  ultimately show ?thesis
    using assms by (simp add: ilog2_def n_def)
qed

lemma ilog2_bounds_less:
  assumes "0 < x" and "x < 1"
  shows "2 powi (ilog2 x) \<le> x \<and> x < 2 powi (ilog2 x + 1)"
proof -
  define y where "y = 1 / x"
  define m where "m = nat (\<lceil>y\<rceil> - 1)"
  have y: "1 < y" using assms by (simp add: y_def)
  then have c: "2 \<le> \<lceil>y\<rceil>" by (simp add: le_ceiling_iff)
  then have m: "0 < m" "of_nat m < y" "y \<le> of_nat m + 1"
    by (auto simp: m_def) (linarith)+
  let ?k = "floorlog 2 m"
  have "m + 1 \<le> 2 ^ ?k" using floorlog_bounds [of m 2] m(1) by simp
  then have "(of_nat (m + 1) :: rat) \<le> of_nat (2 ^ ?k)" by (simp only: of_nat_le_iff)
  with m(3) have up: "y \<le> 2 ^ ?k" by simp
  have lo: "2 powi (int ?k - 1) < y"
    using floorlog2_bounds(1) [OF m(1)] m(2) by simp
  have x: "x = 1 / y" using assms by (simp add: y_def)
  have "2 powi (- int ?k) = 1 / (2 ^ ?k :: rat)"
    by (simp add: power_int_minus divide_inverse)
  also have "\<dots> \<le> x" using up y by (simp add: x frac_le)
  finally have 1: "2 powi (- int ?k) \<le> x" .
  have "x < 1 / (2 powi (int ?k - 1))"
    using lo y by (simp add: x frac_less2)
  also have "\<dots> = 2 powi (- int ?k + 1)"
    by (simp add: power_int_minus divide_inverse flip: power_int_minus)
  finally have 2: "x < 2 powi (- int ?k + 1)" .
  from 1 2 assms show ?thesis by (simp add: ilog2_def m_def y_def)
qed

lemma ilog2_bounds:
  assumes "0 < x"
  shows "2 powi (ilog2 x) \<le> x" and "x < 2 powi (ilog2 x + 1)"
proof -
  have "2 powi (ilog2 x) \<le> x \<and> x < 2 powi (ilog2 x + 1)"
    using ilog2_bounds_ge [of x] ilog2_bounds_less [of x] assms by (cases "1 \<le> x") simp_all
  then show "2 powi (ilog2 x) \<le> x" and "x < 2 powi (ilog2 x + 1)" by simp_all
qed

lemma ilog2_eqI:
  assumes "2 powi e \<le> x" and "x < 2 powi (e + 1)"
  shows "ilog2 x = e"
proof -
  have pos: "0 < x" using assms(1) by (rule less_le_trans [rotated]) simp
  have "(2 :: rat) powi (ilog2 x) < 2 powi (e + 1)" "(2 :: rat) powi e < 2 powi (ilog2 x + 1)"
    using ilog2_bounds [OF pos] assms by auto
  then have "ilog2 x < e + 1" "e < ilog2 x + 1"
    by (meson not_less one_le_numeral power_int_increasing)+
  then show ?thesis by simp
qed

lemma ilog2_mono:
  assumes "0 < x" and "x \<le> y"
  shows "ilog2 x \<le> ilog2 y"
proof -
  have "(2 :: rat) powi (ilog2 x) < 2 powi (ilog2 y + 1)"
    using ilog2_bounds(1) [OF assms(1)] ilog2_bounds(2) [of y] assms by simp
  then have "ilog2 x < ilog2 y + 1"
    by (meson not_less one_le_numeral power_int_increasing)
  then show ?thesis by simp
qed

section \<open>Rounding is monotone\<close>

lemma quantum_pos [simp]: "0 < quantum x"
  by (simp add: quantum_def)

lemma round_mag_nonneg: "0 \<le> x \<Longrightarrow> 0 \<le> round_mag x"
  using round_even_ge [of 0 "x / quantum x"] quantum_pos [of x]
  by (simp add: round_mag_def divide_nonneg_pos less_imp_le)

text \<open>A magnitude below a power of two does not round above it, and conversely.\<close>

lemma round_mag_le_pow2:
  assumes "0 < x" and "x < 2 powi (e + 1)" and "max (ilog2 x) (-1022) = e"
  shows "round_mag x \<le> 2 powi (e + 1)"
proof -
  have q: "quantum x = 2 powi (e - 52)" using assms(3) by (simp add: quantum_def)
  have "2 powi (e + 1) = (2 :: rat) powi (e - 52) * 2 powi 53"
    using power_int_add [of "2 :: rat" "e - 52" 53] by (simp add: add.commute)
  with assms(2) have "x / quantum x \<le> of_int (2 ^ 53)"
    by (simp add: q field_simps)
  then have "round_even (x / quantum x) \<le> 2 ^ 53" by (rule round_even_le)
  then have "(of_int (round_even (x / quantum x)) :: rat) \<le> of_int (2 ^ 53)"
    by (simp only: of_int_le_iff)
  then have "round_mag x \<le> of_int (2 ^ 53) * quantum x"
    unfolding round_mag_def by (rule mult_right_mono) (simp add: less_imp_le)
  also have "\<dots> = 2 powi (e + 1)"
    using \<open>2 powi (e + 1) = 2 powi (e - 52) * 2 powi 53\<close> by (simp add: q mult.commute)
  finally show ?thesis .
qed

lemma round_mag_ge_pow2:
  assumes "2 powi e \<le> y" and "max (ilog2 y) (-1022) = e"
  shows "2 powi e \<le> round_mag y"
proof -
  have q: "quantum y = 2 powi (e - 52)" using assms(2) by (simp add: quantum_def)
  have eq: "2 powi e = (2 :: rat) powi (e - 52) * 2 powi 52"
    using power_int_add [of "2 :: rat" "e - 52" 52] by simp
  with assms(1) have "of_int (2 ^ 52) \<le> y / quantum y"
    by (simp add: q field_simps)
  then have "2 ^ 52 \<le> round_even (y / quantum y)" by (rule round_even_ge)
  then have "(of_int (2 ^ 52) :: rat) \<le> of_int (round_even (y / quantum y))"
    by (simp only: of_int_le_iff)
  then have "of_int (2 ^ 52) * quantum y \<le> round_mag y"
    unfolding round_mag_def by (rule mult_right_mono) (simp add: less_imp_le)
  with eq show ?thesis by (simp add: q mult.commute)
qed

lemma round_mag_mono:
  assumes "0 < x" and "x \<le> y"
  shows "round_mag x \<le> round_mag y"
proof -
  define ex where "ex = max (ilog2 x) (-1022)"
  define ey where "ey = max (ilog2 y) (-1022)"
  have le: "ex \<le> ey" using ilog2_mono [OF assms] by (auto simp: ex_def ey_def)
  show ?thesis
  proof (cases "ex = ey")
    case True
    then have q: "quantum x = quantum y" by (simp add: quantum_def ex_def ey_def)
    have "x / quantum x \<le> y / quantum x"
      using assms(2) by (simp add: divide_right_mono less_imp_le)
    then show ?thesis
      by (simp add: round_mag_def q round_even_mono mult_right_mono less_imp_le)
  next
    case False
    with le have lt: "ex + 1 \<le> ey" by simp
    then have ey: "ey = ilog2 y" by (auto simp: ex_def ey_def)
    have "2 powi (ilog2 x + 1) \<le> (2 :: rat) powi (ex + 1)"
      by (rule power_int_increasing) (simp_all add: ex_def)
    with ilog2_bounds(2) [OF assms(1)] have "x < 2 powi (ex + 1)" by simp
    then have "round_mag x \<le> 2 powi (ex + 1)"
      using assms(1) by (intro round_mag_le_pow2) (simp_all add: ex_def)
    also have "\<dots> \<le> 2 powi ey" using lt by (intro power_int_increasing) simp_all
    also have "\<dots> \<le> round_mag y"
      using ilog2_bounds(1) [of y] assms ey by (intro round_mag_ge_pow2) (simp_all add: ey_def)
    finally show ?thesis .
  qed
qed

lemma round_rat_mono:
  assumes "x \<le> y"
  shows "round_rat x \<le> round_rat y"
proof -
  consider "0 < x" | "y < 0" | "x \<le> 0" "0 \<le> y" using assms by linarith
  then show ?thesis
  proof cases
    case 1
    with assms show ?thesis by (simp add: round_rat_def round_mag_mono)
  next
    case 2
    with assms show ?thesis by (simp add: round_rat_def round_mag_mono)
  next
    case 3
    then have "round_rat x \<le> 0" "0 \<le> round_rat y"
      using round_mag_nonneg [of "- x"] round_mag_nonneg [of y] by (auto simp: round_rat_def)
    then show ?thesis by simp
  qed
qed

text \<open>The order on doubles without NaN.\<close>

lemma rnd_mono: "x \<le> y \<Longrightarrow> f64_le (rnd x) (rnd y)"
  using round_rat_mono [of x y] by (auto simp: rnd_def Let_def f64_le_def)

section \<open>Exact values\<close>

definition representable :: "rat \<Rightarrow> bool" where
  "representable x \<longleftrightarrow> rnd x = Fin x"

lemma rnd_0 [simp]: "rnd 0 = Fin 0"
  by (simp add: rnd_def round_rat_def)

lemma ilog2_nat_range:
  assumes "0 < n" and "n \<le> 2 ^ 53"
  shows "0 \<le> ilog2 (of_nat n :: rat)" and "ilog2 (of_nat n :: rat) \<le> 53"
proof -
  let ?e = "ilog2 (of_nat n :: rat)"
  have pos: "0 < (of_nat n :: rat)" using assms(1) by simp
  have "1 \<le> n" using assms(1) by simp
  then show "0 \<le> ?e" using ilog2_mono [of 1 "of_nat n"] ilog2_eqI [of 0 1] by simp
  have "(of_nat n :: rat) \<le> of_nat (2 ^ 53)" using assms(2) by (simp only: of_nat_le_iff)
  with ilog2_bounds(1) [OF pos] have "(2 :: rat) powi ?e \<le> 2 powi 53" by simp
  show "?e \<le> 53"
  proof (rule ccontr)
    assume "\<not> ?e \<le> 53"
    then have "(2 :: rat) powi 54 \<le> 2 powi ?e" by (intro power_int_increasing) simp_all
    from this \<open>2 powi ?e \<le> 2 powi 53\<close> have "(2 :: rat) powi 54 \<le> 2 powi 53" by (rule order_trans)
    then show False by simp
  qed
qed

lemma round_mag_nat:
  assumes "0 < n" and "n \<le> 2 ^ 53"
  shows "round_mag (of_nat n) = of_nat n"
proof -
  let ?e = "ilog2 (of_nat n :: rat)"
  have pos: "0 < (of_nat n :: rat)" using assms(1) by simp
  note e0 = ilog2_nat_range(1) [OF assms] and e53 = ilog2_nat_range(2) [OF assms]
  show ?thesis
  proof (cases "?e \<le> 52")
    case True
    have q: "quantum (of_nat n) = 1 / 2 ^ nat (52 - ?e)"
    proof -
      have "max ?e (-1022) - 52 = - int (nat (52 - ?e))" using e0 True by simp
      then have "quantum (of_nat n) = 2 powi (- int (nat (52 - ?e)))" by (simp only: quantum_def)
      then show ?thesis by (simp only: power_int_minus power_int_of_nat inverse_eq_divide)
    qed
    have "of_nat n / quantum (of_nat n) = (of_int (int n * 2 ^ nat (52 - ?e)) :: rat)"
      by (simp add: q)
    then show ?thesis
      by (simp only: round_mag_def round_even_of_int) (simp add: q)
  next
    case False
    with e53 have e: "?e = 53" by simp
    have "(of_nat n :: rat) \<ge> 2 ^ 53" using ilog2_bounds(1) [OF pos] e by simp
    then have "(of_nat (2 ^ 53) :: rat) \<le> of_nat n" by simp
    then have "2 ^ 53 \<le> n" by (simp only: of_nat_le_iff)
    with assms(2) have n: "n = 2 ^ 53" by simp
    have "quantum (of_nat n) = 2" using e by (simp add: quantum_def)
    moreover have "(of_nat n :: rat) / 2 = of_int (2 ^ 52)" by (simp add: n)
    ultimately show ?thesis
      by (simp only: round_mag_def round_even_of_int)
  qed
qed

lemma rnd_nat: "n \<le> 2 ^ 53 \<Longrightarrow> rnd (of_nat n) = Fin (of_nat n)"
proof (cases "n = 0")
  case False
  assume n: "n \<le> 2 ^ 53"
  have "(of_nat n :: rat) \<le> of_nat (2 ^ 53)" using n by (simp only: of_nat_le_iff)
  then have "(of_nat n :: rat) < 2 ^ 1024"
    by (rule le_less_trans) simp
  moreover have "\<not> (of_nat n :: rat) \<le> - (2 ^ 1024)"
  proof -
    have "- (2 ^ 1024) < (0 :: rat)" by simp
    moreover have "(0 :: rat) \<le> of_nat n" by simp
    ultimately show ?thesis by linarith
  qed
  ultimately show ?thesis
    using False n by (simp only: rnd_def round_rat_def Let_def round_mag_nat) (simp add: round_mag_nat)
qed simp

lemma rnd_numeral:
  assumes "(numeral k :: nat) \<le> 2 ^ 53"
  shows "rnd (numeral k) = Fin (numeral k)"
  using rnd_nat [OF assms] by simp

lemma rnd_1 [simp]: "rnd 1 = Fin 1"
  using rnd_nat [of 1] by simp

lemma f64_of_nat_exact: "n \<le> 2 ^ 53 \<Longrightarrow> f64_of_nat n = Fin (of_nat n)"
  by (simp add: f64_of_nat_def rnd_nat)

lemma rnd_ge: "representable x \<Longrightarrow> x \<le> y \<Longrightarrow> f64_le (Fin x) (rnd y)"
  using rnd_mono [of x y] by (simp add: representable_def)

lemma rnd_le: "representable y \<Longrightarrow> x \<le> y \<Longrightarrow> f64_le (rnd x) (Fin y)"
  using rnd_mono [of x y] by (simp add: representable_def)

lemma representable_nat: "n \<le> 2 ^ 53 \<Longrightarrow> representable (of_nat n)"
  by (simp add: representable_def rnd_nat)

lemma representable_01 [simp]: "representable 0" "representable 1"
  by (simp_all add: representable_def)

section \<open>Evaluation\<close>

text \<open>
  Floating-point terms over numerals are evaluated by the simplifier with the facts
  \<open>f64_eval\<close>: the exponent by repeated halving of a numeral, floors by integer division.
\<close>

lemma floorlog2_numeral:
  "floorlog 2 (numeral num.One) = 1" "floorlog 2 (Suc 0) = 1"
  "floorlog 2 (numeral (num.Bit0 k)) = floorlog 2 (numeral k) + 1"
  "floorlog 2 (numeral (num.Bit1 k)) = floorlog 2 (numeral k) + 1"
  by (subst compute_floorlog, simp add: floorlog_def)+

lemma floor_rat_numeral:
  "\<lfloor>numeral a / numeral b :: rat\<rfloor> = numeral a div numeral b"
  "\<lfloor>1 / numeral b :: rat\<rfloor> = 1 div numeral b"
  "\<lfloor>- numeral a / numeral b :: rat\<rfloor> = - numeral a div numeral b"
  "\<lfloor>- (numeral a / numeral b) :: rat\<rfloor> = - numeral a div numeral b"
  "\<lfloor>- (1 / numeral b) :: rat\<rfloor> = - 1 div numeral b"
  using floor_divide_of_int_eq [of "numeral a" "numeral b", where ?'a = rat]
    floor_divide_of_int_eq [of 1 "numeral b", where ?'a = rat]
    floor_divide_of_int_eq [of "- numeral a" "numeral b", where ?'a = rat]
    floor_divide_of_int_eq [of "- 1" "numeral b", where ?'a = rat]
  by simp_all

lemmas f64_eval = rnd_def round_rat_def round_mag_def round_even_def quantum_def ilog2_def Let_def
  ceiling_def floorlog2_numeral floor_rat_numeral f64_sub_def f64_le_def f64_of_nat_def f64_sum_def

section \<open>Comparisons and conversions\<close>

lemma f64_le_Fin [simp]: "f64_le (Fin x) (Fin y) \<longleftrightarrow> x \<le> y"
  by (auto simp: f64_le_def)

lemma f64_le_trans: "f64_le a b \<Longrightarrow> f64_le b c \<Longrightarrow> f64_le a c"
  by (cases a; cases b; cases c) (auto simp: f64_le_def)

lemma f64_to_u64_mono: "f64_le a b \<Longrightarrow> f64_to_u64 a \<le> f64_to_u64 b"
proof (cases a; cases b)
  fix x y
  assume "f64_le a b" "a = Fin x" "b = Fin y"
  then show ?thesis
    using floor_mono [of x y] by (auto simp: nat_mono intro: min.coboundedI1)
qed (auto simp: f64_le_def split: if_splits)

lemma f64_to_u64_nat: "n < 2 ^ 64 \<Longrightarrow> f64_to_u64 (Fin (of_nat n)) = n"
  by simp

end
