(* ===== verification/Config.thy ===== *)
theory Config
  imports Crypto F64
begin

text \<open>
  The protocol configuration (\<open>crates/consensus/src/config.rs\<close> and
  \<open>crates/node/src/config.rs\<close>): the static constants, the hot-reloadable dynamic
  parameters with their defaults, and the default registry of CAIP-2 namespaces. The
  defaults are the values that every component below runs with when no file is loaded.
\<close>

section \<open>Static configuration\<close>

record page_rank_config =
  damping_factor :: f64
  max_iterations :: nat
  temporal_decay_gamma :: f64
  temporal_decay_delta_r :: f64

record epoch_config =
  epoch_length :: u64
  publishing_window :: u64
  block_time_ms :: u64

record das_config =
  required_samples :: nat
  max_attempts :: nat

record static_config =
  pagerank :: page_rank_config
  epoch :: epoch_config
  das :: das_config

definition page_rank_config_default :: page_rank_config where
  "page_rank_config_default = \<lparr>damping_factor = f64_lit (85 / 100), max_iterations = 50,
     temporal_decay_gamma = f64_lit (5 / 100), temporal_decay_delta_r = f64_lit (5 / 100)\<rparr>"

definition epoch_config_default :: epoch_config where
  "epoch_config_default =
     \<lparr>epoch_length = 1296000, publishing_window = 300, block_time_ms = 2000\<rparr>"

definition das_config_default :: das_config where
  "das_config_default = \<lparr>required_samples = 16, max_attempts = 1000\<rparr>"

definition static_config_default :: static_config where
  "static_config_default = \<lparr>pagerank = page_rank_config_default, epoch = epoch_config_default,
     das = das_config_default\<rparr>"

section \<open>Dynamic configuration\<close>

type_synonym caip_registry = "string \<rightharpoonup> signature_scheme \<times> hash_scheme"

record dynamic_config =
  sgx_reputation_threshold :: f64
  manifold_quorum_threshold :: nat
  social_promotion_threshold :: f64
  zero_latency_quantum_trigger :: bool
  default_pq_scheme :: string
  default_crypto_profile :: string
  profile_switch_block_height :: "u64 option"
  next_crypto_profile :: "string option"
  saga_intent_timeout_seconds :: u64
  committee_threshold :: f64
  connectivity_decay_penalty :: f64
  parallel_execution_engine :: string
  cfg_caip_registry :: caip_registry

definition default_parallel_engine :: string where
  "default_parallel_engine = ''wave''"

definition default_pq_scheme_name :: string where
  "default_pq_scheme_name = ''mldsa''"

definition default_caip_registry :: caip_registry where
  "default_caip_registry =
     [''eip155'' \<mapsto> (Secp256k1, Keccak256),
      ''solana'' \<mapsto> (Ed25519, Blake3),
      ''cosmos'' \<mapsto> (Secp256k1, Sha256),
      ''bip122'' \<mapsto> (Secp256k1, Sha256),
      ''polkadot'' \<mapsto> (Ed25519, Blake3),
      ''tezos'' \<mapsto> (Secp256r1, Keccak256)]"

definition dynamic_config_default :: dynamic_config where
  "dynamic_config_default =
     \<lparr>sgx_reputation_threshold = Fin 0,
      manifold_quorum_threshold = 500,
      social_promotion_threshold = f64_lit (5 / 100),
      zero_latency_quantum_trigger = False,
      default_pq_scheme = default_pq_scheme_name,
      default_crypto_profile = ''ethereum'',
      profile_switch_block_height = None,
      next_crypto_profile = None,
      saga_intent_timeout_seconds = 86400,
      committee_threshold = f64_lit (67 / 100),
      connectivity_decay_penalty = f64_lit (10 / 100),
      parallel_execution_engine = ''wave'',
      cfg_caip_registry = default_caip_registry\<rparr>"

record node_config =
  static_cfg :: static_config
  dynamic_cfg :: dynamic_config

text \<open>
  \<open>NodeConfig::load_from_file\<close>: reading the file and parsing TOML are library calls, passed
  as functions that return nothing on failure.
\<close>

definition load_from_file ::
  "(string \<rightharpoonup> string) \<Rightarrow> (string \<rightharpoonup> node_config) \<Rightarrow> string \<Rightarrow> node_config option" where
  "load_from_file read_to_string toml_from_str path =
     Option.bind (read_to_string path) toml_from_str"

end
