(* ===== verification/Registry.thy ===== *)
theory Registry
  imports Did Config
begin

text \<open>
  The validator directory (\<open>crates/consensus/src/registry.rs\<close>). The hash maps are maps; where
  the code iterates over one, the iteration order is an argument (\<open>iteration\<close>), a list of
  the keys in the order they come up. The process-wide registry behind its lock is the
  explicit state that every operation takes and returns.
  Lemmas: a registered long-form peer DID is found under its names and its address cannot be
  claimed again; a wrapped foreign key registers but is not found, and can be claimed again.
\<close>

section \<open>State\<close>

datatype validator_type = HardwareTEE | VanillaSocial

record registered_identity =
  ri_did :: string
  ri_doc :: sovereign_did_document
  ri_registered_at :: u64

record validator_registry =
  validators :: "string \<rightharpoonup> validator_type"
  peer_keys :: "string \<rightharpoonup> b256"
  address_to_did :: "address \<rightharpoonup> string"
  vr_seeds :: "string set"
  endorsements :: "string \<rightharpoonup> (string \<rightharpoonup> f64)"
  reputation :: "string \<rightharpoonup> f64"
  supported_manifolds :: "string \<rightharpoonup> u64 set"
  current_block :: u64
  commitments :: "string \<rightharpoonup> bytes"
  vr_static_cfg :: static_config
  vr_dynamic_cfg :: dynamic_config
  identities :: "string \<rightharpoonup> registered_identity"
  vr_chain_id :: u64

definition validator_registry_new :: "static_config \<Rightarrow> dynamic_config \<Rightarrow> validator_registry" where
  "validator_registry_new static dyn =
     \<lparr>validators = Map.empty, peer_keys = Map.empty, address_to_did = Map.empty, vr_seeds = {},
      endorsements = Map.empty, reputation = Map.empty, supported_manifolds = Map.empty,
      current_block = 0, commitments = Map.empty, vr_static_cfg = static, vr_dynamic_cfg = dyn,
      identities = Map.empty, vr_chain_id = 1337\<rparr>"

definition validator_registry_default :: validator_registry where
  "validator_registry_default = validator_registry_new static_config_default dynamic_config_default"

record iteration =
  it_identities :: "string list"
  it_addresses :: "address list"
  it_peer_keys :: "string list"

definition iterates :: "iteration \<Rightarrow> validator_registry \<Rightarrow> bool" where
  "iterates it r \<longleftrightarrow>
     set (it_identities it) = dom (identities r) \<and> distinct (it_identities it) \<and>
     set (it_addresses it) = dom (address_to_did r) \<and> distinct (it_addresses it) \<and>
     set (it_peer_keys it) = dom (peer_keys r) \<and> distinct (it_peer_keys it)"

section \<open>Queries\<close>

definition get_did_by_address :: "validator_registry \<Rightarrow> address \<Rightarrow> string option" where
  "get_did_by_address r a = address_to_did r a"

definition normalize_query_did :: "string \<Rightarrow> string" where
  "normalize_query_did did =
     (let trimmed = trim did;
          plain = (if starts_with trimmed ''did:'' then trimmed
                   else if \<not> starts_with trimmed ''0x'' then ''did:peer:'' @ trimmed
                   else trimmed)
      in if starts_with trimmed ''did:sovereign:'' then
           (case split_on (CHR '':'') trimmed of
              [_, _, _, key] \<Rightarrow> if \<not> starts_with key ''0x'' then ''did:peer:'' @ key else plain
            | _ \<Rightarrow> plain)
         else plain)"

text \<open>
  \<open>parse_address\<close> is the address parser of the primitives crate. A hexadecimal text of 40
  digits decodes to 20 bytes, so \<open>from_slice\<close> on it does not fail.
\<close>

type_synonym address_parser = "string \<Rightarrow> address option"

definition extract_address_from_did :: "did_lib \<Rightarrow> address_parser \<Rightarrow> string \<Rightarrow> address option" where
  "extract_address_from_did dl parse_address did =
     (let norm = normalize_query_did did;
          by_position = (case find_sub norm ''0x'' of
              None \<Rightarrow> None
            | Some pos \<Rightarrow>
                if pos + 42 \<le> length norm then parse_address (take 42 (drop pos norm)) else None)
      in if starts_with norm ''did:sovereign:'' then
           (case split_on (CHR '':'') norm of
              [_, _, _, key] \<Rightarrow>
                (let clean = trim_start_matches ''0x'' key in
                 if length clean = 40 then
                   (case hex_decode dl clean of
                      Some addr \<Rightarrow> Some (address_of_bytes addr)
                    | None \<Rightarrow> by_position)
                 else by_position)
            | _ \<Rightarrow> by_position)
         else by_position)"

text \<open>One key of a document matches the decoded query, with or without its multicodec prefix.\<close>

definition key_matches :: "bytes \<Rightarrow> bytes \<Rightarrow> bool" where
  "key_matches decoded key \<longleftrightarrow> key = decoded \<or> (2 < length decoded \<and> drop 2 decoded = key)"

definition doc_matches :: "bytes \<Rightarrow> sovereign_did_document \<Rightarrow> bool" where
  "doc_matches decoded doc \<longleftrightarrow>
     key_matches decoded (secp256k1_pubkey doc) \<or> key_matches decoded (ed25519_pubkey doc) \<or>
     key_matches decoded (bls_pubkey doc) \<or> key_matches decoded (ml_dsa_pubkey doc) \<or>
     key_matches decoded (slh_dsa_pubkey doc) \<or> key_matches decoded (falcon_pubkey doc) \<or>
     key_matches decoded (xmss_pubkey doc)"

definition primary_identity :: "validator_registry \<Rightarrow> registered_identity \<Rightarrow> registered_identity" where
  "primary_identity r ident =
     (case address_to_did r (evm_address (ri_doc ident)) of
        None \<Rightarrow> ident
      | Some primary \<Rightarrow> (case identities r primary of None \<Rightarrow> ident | Some i \<Rightarrow> i))"

fun first_match :: "validator_registry \<Rightarrow> bytes \<Rightarrow> string list \<Rightarrow> registered_identity option" where
  "first_match r decoded [] = None"
| "first_match r decoded (k # ks) =
     (case identities r k of
        None \<Rightarrow> first_match r decoded ks
      | Some ident \<Rightarrow>
          if doc_matches decoded (ri_doc ident) then Some (primary_identity r ident)
          else first_match r decoded ks)"

definition find_identity_by_any_key ::
  "did_lib \<Rightarrow> iteration \<Rightarrow> validator_registry \<Rightarrow> string \<Rightarrow> registered_identity option" where
  "find_identity_by_any_key dl it r query =
     (let norm = normalize_query_did query;
          clean = (case strip_prefix norm ''did:peer:'' of Some c \<Rightarrow> c | None \<Rightarrow> norm)
      in if starts_with clean ''z'' then
           (case bs58_decode dl (drop 1 clean) of
              None \<Rightarrow> None
            | Some decoded \<Rightarrow> first_match r decoded (it_identities it))
         else None)"

definition get_address_by_did ::
  "did_lib \<Rightarrow> address_parser \<Rightarrow> iteration \<Rightarrow> validator_registry \<Rightarrow> string \<Rightarrow> address option" where
  "get_address_by_did dl pa it r did =
     (let norm = normalize_query_did did;
          by_value = find (\<lambda>a. address_to_did r a = Some norm) (it_addresses it)
      in case identities r norm of
           Some ident \<Rightarrow> Some (evm_address (ri_doc ident))
         | None \<Rightarrow>
             (case find_identity_by_any_key dl it r norm of
                Some ident \<Rightarrow> Some (evm_address (ri_doc ident))
              | None \<Rightarrow>
                  (case extract_address_from_did dl pa norm of
                     Some a \<Rightarrow> if a \<in> dom (address_to_did r) then Some a else by_value
                   | None \<Rightarrow> by_value)))"

definition get_type_by_address :: "validator_registry \<Rightarrow> address \<Rightarrow> validator_type option" where
  "get_type_by_address r a = Option.bind (address_to_did r a) (validators r)"

definition is_did_registered ::
  "did_lib \<Rightarrow> address_parser \<Rightarrow> iteration \<Rightarrow> validator_registry \<Rightarrow> string \<Rightarrow> bool" where
  "is_did_registered dl pa it r did =
     (let norm = normalize_query_did did in
      if norm \<in> dom (peer_keys r) then True
      else if find_identity_by_any_key dl it r norm \<noteq> None then True
      else case Option.bind (extract_address_from_did dl pa norm) (address_to_did r) of
             Some mapped \<Rightarrow> mapped \<in> dom (peer_keys r)
           | None \<Rightarrow> False)"

definition is_did_fully_registered ::
  "did_lib \<Rightarrow> address_parser \<Rightarrow> iteration \<Rightarrow> validator_registry \<Rightarrow> string \<Rightarrow> bool" where
  "is_did_fully_registered dl pa it r did =
     (let norm = normalize_query_did did in
      case peer_keys r norm of
        Some key \<Rightarrow> key \<noteq> 0
      | None \<Rightarrow>
          if find_identity_by_any_key dl it r norm \<noteq> None then True
          else case Option.bind (Option.bind (extract_address_from_did dl pa norm) (address_to_did r))
                      (peer_keys r) of
                 Some key \<Rightarrow> key \<noteq> 0
               | None \<Rightarrow> False)"

definition get_reputation_by_address :: "validator_registry \<Rightarrow> address \<Rightarrow> f64" where
  "get_reputation_by_address r a =
     (case address_to_did r a of
        None \<Rightarrow> Fin 0
      | Some did \<Rightarrow> (case reputation r did of None \<Rightarrow> Fin 0 | Some x \<Rightarrow> x))"

text \<open>
  \<open>active_peers\<close>: the loop over the peer keys inserts into a map, so of two validators with
  the same key the later one in the iteration stays.
\<close>

definition below_sgx_threshold :: "validator_registry \<Rightarrow> string \<Rightarrow> validator_type \<Rightarrow> bool" where
  "below_sgx_threshold r did t \<longleftrightarrow>
     (let threshold = sgx_reputation_threshold (vr_dynamic_cfg r) in
      t = HardwareTEE \<and> f64_lt (Fin 0) threshold \<and>
      f64_lt (case reputation r did of None \<Rightarrow> Fin 0 | Some x \<Rightarrow> x) threshold)"

definition active_peer_step ::
  "iteration \<Rightarrow> validator_registry \<Rightarrow> (b256 \<rightharpoonup> address) \<Rightarrow> string \<Rightarrow> (b256 \<rightharpoonup> address)" where
  "active_peer_step it r active did =
     (case (peer_keys r did, validators r did) of
        (Some key, Some t) \<Rightarrow>
          (if below_sgx_threshold r did t then active
           else case find (\<lambda>a. address_to_did r a = Some did) (it_addresses it) of
                  Some a \<Rightarrow> active(key \<mapsto> a)
                | None \<Rightarrow> active)
      | _ \<Rightarrow> active)"

definition active_peers :: "iteration \<Rightarrow> validator_registry \<Rightarrow> (b256 \<rightharpoonup> address)" where
  "active_peers it r = foldl (active_peer_step it r) Map.empty (it_peer_keys it)"

definition get_routable_validators ::
  "iteration \<Rightarrow> validator_registry \<Rightarrow> u64 \<Rightarrow> address set" where
  "get_routable_validators it r manifold =
     (let routable = {a \<in> ran (active_peers it r).
             case Option.bind (get_did_by_address r a) (supported_manifolds r) of
               Some ms \<Rightarrow> manifold \<in> ms
             | None \<Rightarrow> False}
      in if card routable < manifold_quorum_threshold (vr_dynamic_cfg r) then {} else routable)"

definition get_eligible_orchestrators ::
  "iteration \<Rightarrow> validator_registry \<Rightarrow> u64 \<Rightarrow> f64 \<Rightarrow> address set" where
  "get_eligible_orchestrators it r manifold min_merit =
     {a \<in> get_routable_validators it r manifold. f64_le min_merit (get_reputation_by_address r a)}"

section \<open>Registration\<close>

datatype registry_error =
    PeerTwoDeprecated | UnresolvableDid | MissingKeys | AddressAlreadyRegistered

definition full_key :: b256 where
  "full_key = b256_of_bytes (replicate 32 1)"

definition has_all_keys :: "sovereign_did_document \<Rightarrow> bool" where
  "has_all_keys doc \<longleftrightarrow>
     evm_address doc \<noteq> 0 \<and> ed25519_pubkey doc \<noteq> [] \<and> bls_pubkey doc \<noteq> [] \<and>
     ml_dsa_pubkey doc \<noteq> [] \<and> slh_dsa_pubkey doc \<noteq> [] \<and> falcon_pubkey doc \<noteq> [] \<and>
     xmss_pubkey doc \<noteq> []"

text \<open>The derived names of a DID: short peer form, sovereign hash form, sovereign address form.\<close>

definition peer_hash_component :: "string \<Rightarrow> string option" where
  "peer_hash_component did =
     (case strip_prefix did ''did:peer:4'' of
        None \<Rightarrow> None
      | Some rest \<Rightarrow> Some (hd (split_on (CHR '':'') rest)))"

definition derived_names :: "u64 \<Rightarrow> string \<Rightarrow> address \<Rightarrow> string list" where
  "derived_names chain did a =
     (case peer_hash_component did of
        None \<Rightarrow> []
      | Some h \<Rightarrow> [''did:peer:4'' @ h, ''did:sovereign:'' @ decimal (unat chain) @ '':'' @ h]) @
     [''did:sovereign:'' @ decimal (unat chain) @ '':0x'' @ hex_string (address_bytes a)]"

definition insert_identity ::
  "sovereign_did_document \<Rightarrow> u64 \<Rightarrow> string \<Rightarrow> validator_registry \<Rightarrow> validator_registry" where
  "insert_identity doc now did r =
     r\<lparr>peer_keys := (peer_keys r)(did \<mapsto> full_key),
       identities := (identities r)(did \<mapsto>
         \<lparr>ri_did = did, ri_doc = doc, ri_registered_at = now\<rparr>)\<rparr>"

definition register_user_did ::
  "did_lib \<Rightarrow> address_parser \<Rightarrow> iteration \<Rightarrow> u64 \<Rightarrow> validator_registry \<Rightarrow> string
    \<Rightarrow> (address \<times> validator_registry, registry_error) outcome" where
  "register_user_did dl pa it now r candidate =
     (if starts_with candidate ''did:peer:2'' then Err PeerTwoDeprecated
      else case from_did_string dl candidate of
        None \<Rightarrow> Err UnresolvableDid
      | Some doc \<Rightarrow>
          (if starts_with candidate ''did:peer:4'' \<and> \<not> has_all_keys doc then Err MissingKeys
           else
             (let addr = evm_address doc in
              if (case address_to_did r addr of
                    None \<Rightarrow> False
                  | Some existing \<Rightarrow> is_did_fully_registered dl pa it r existing)
              then Err AddressAlreadyRegistered
              else Ok (addr, fold (insert_identity doc now)
                              (candidate # derived_names (vr_chain_id r) candidate addr)
                              (r\<lparr>address_to_did := (address_to_did r)(addr \<mapsto> candidate)\<rparr>)))))"

text \<open>The helper for tests; nothing else adds a validator.\<close>

definition add_mock_validator ::
  "string \<Rightarrow> address \<Rightarrow> b256 \<Rightarrow> validator_registry \<Rightarrow> validator_registry" where
  "add_mock_validator did a peer_key r =
     r\<lparr>peer_keys := (peer_keys r)(did \<mapsto> peer_key),
       address_to_did := (address_to_did r)(a \<mapsto> did),
       validators := (validators r)(did \<mapsto> HardwareTEE),
       reputation := (reputation r)(did \<mapsto> f64_lit 1)\<rparr>"

text \<open>\<open>init_registry\<close> sets the process-wide cell once.\<close>

definition init_registry ::
  "validator_registry option \<Rightarrow> static_config \<Rightarrow> dynamic_config
    \<Rightarrow> (validator_registry, string) outcome" where
  "init_registry cell static dyn =
     (case cell of
        None \<Rightarrow> Ok (validator_registry_new static dyn)
      | Some _ \<Rightarrow> Err ''Global registry has already been initialized'')"

definition get_registry :: "validator_registry option \<Rightarrow> validator_registry" where
  "get_registry cell = (case cell of None \<Rightarrow> validator_registry_default | Some r \<Rightarrow> r)"

section \<open>What a registration leaves behind\<close>

lemma full_key_nonzero [simp]: "full_key \<noteq> 0"
proof -
  have p: "(256 :: nat) ^ 32 = 2 ^ LENGTH(256)" by simp
  have "be_nat (replicate 32 (1 :: u8)) < 2 ^ LENGTH(256)"
    using be_nat_less [of "replicate 32 (1 :: u8)"] by (simp only: length_replicate p)
  then have "unat full_key = be_nat (replicate 32 1)"
    by (simp only: full_key_def b256_of_bytes_def unat_of_nat mod_less)
  then have "b256_bytes full_key = replicate 32 1"
    using be_bytes_be_nat [of "replicate 32 (1 :: u8)"] by (simp only: b256_bytes_def length_replicate)
  moreover have "b256_bytes 0 = replicate 32 0"
    by (simp add: b256_bytes_def be_bytes_def map_replicate_const)
  moreover have "replicate 32 (1 :: u8) \<noteq> replicate 32 0" by simp
  ultimately show ?thesis by metis
qed

lemma peer_keys_fold:
  "peer_keys (fold (insert_identity doc now) ns r) n =
     (if n \<in> set ns then Some full_key else peer_keys r n)"
  by (induction ns arbitrary: r) (auto simp: insert_identity_def)

lemma identities_fold:
  "identities (fold (insert_identity doc now) ns r) n =
     (if n \<in> set ns then Some \<lparr>ri_did = n, ri_doc = doc, ri_registered_at = now\<rparr>
      else identities r n)"
  by (induction ns arbitrary: r) (auto simp: insert_identity_def)

lemma insert_identity_others:
  "address_to_did (fold (insert_identity doc now) ns r) = address_to_did r"
  "validators (fold (insert_identity doc now) ns r) = validators r"
  "vr_chain_id (fold (insert_identity doc now) ns r) = vr_chain_id r"
  by (induction ns arbitrary: r) (auto simp: insert_identity_def)

lemma register_user_did_Ok:
  assumes "register_user_did dl pa it now r did = Ok (a, r')"
  obtains doc where "from_did_string dl did = Some doc" and "a = evm_address doc"
    and "r' = fold (insert_identity doc now) (did # derived_names (vr_chain_id r) did a)
                (r\<lparr>address_to_did := (address_to_did r)(a \<mapsto> did)\<rparr>)"
  using assms
  by (auto simp: register_user_did_def Let_def split: if_splits option.splits)

lemma registered_state:
  assumes "register_user_did dl pa it now r did = Ok (a, r')"
  shows "address_to_did r' = (address_to_did r)(a \<mapsto> did)"
    and "n \<in> set (did # derived_names (vr_chain_id r) did a) \<Longrightarrow> peer_keys r' n = Some full_key"
    and "n \<in> set (did # derived_names (vr_chain_id r) did a) \<Longrightarrow>
      \<exists>doc. identities r' n = Some doc \<and> evm_address (ri_doc doc) = a"
    and "n \<notin> set (did # derived_names (vr_chain_id r) did a) \<Longrightarrow>
      peer_keys r' n = peer_keys r n \<and> identities r' n = identities r n"
    and "validators r' = validators r"
proof -
  from assms obtain doc where a: "a = evm_address doc"
    and r': "r' = fold (insert_identity doc now) (did # derived_names (vr_chain_id r) did a)
      (r\<lparr>address_to_did := (address_to_did r)(a \<mapsto> did)\<rparr>)"
    by (rule register_user_did_Ok)
  show "address_to_did r' = (address_to_did r)(a \<mapsto> did)" "validators r' = validators r"
    unfolding r' insert_identity_others by simp_all
  show "n \<in> set (did # derived_names (vr_chain_id r) did a) \<Longrightarrow> peer_keys r' n = Some full_key"
    unfolding r' peer_keys_fold by simp
  show "n \<in> set (did # derived_names (vr_chain_id r) did a) \<Longrightarrow>
      \<exists>doc. identities r' n = Some doc \<and> evm_address (ri_doc doc) = a"
    unfolding r' identities_fold by (simp add: a)
  show "n \<notin> set (did # derived_names (vr_chain_id r) did a) \<Longrightarrow>
      peer_keys r' n = peer_keys r n \<and> identities r' n = identities r n"
    unfolding r' peer_keys_fold identities_fold by simp
qed

section \<open>Normalisation\<close>

lemma trim_id: "s = [] \<or> \<not> is_space (hd s) \<and> \<not> is_space (last s) \<Longrightarrow> trim s = s"
proof (cases s rule: rev_cases)
  case (snoc t c)
  assume "s = [] \<or> \<not> is_space (hd s) \<and> \<not> is_space (last s)"
  with snoc have "\<not> is_space (hd s)" "\<not> is_space c" by auto
  moreover from this(1) have "dropWhile is_space s = s"
    by (cases s) auto
  ultimately show ?thesis using snoc by (simp add: trim_def)
qed (simp add: trim_def)

lemma normalize_peer4:
  "trim did = did \<Longrightarrow> starts_with did ''did:peer:4'' \<Longrightarrow> normalize_query_did did = did"
proof -
  assume t: "trim did = did" and "starts_with did ''did:peer:4''"
  then obtain rest where did: "did = ''did:peer:4'' @ rest"
    unfolding starts_with_def by (metis append_take_drop_id)
  show ?thesis
    unfolding normalize_query_did_def Let_def t by (simp add: did starts_with_def)
qed

lemma is_did_fully_registered_peer4:
  assumes "register_user_did dl pa it now r did = Ok (a, r')"
    and "trim did = did" and "starts_with did ''did:peer:4''"
  shows "is_did_fully_registered dl pa it' r' did"
  using registered_state(2) [OF assms(1), of did]
  by (simp add: is_did_fully_registered_def Let_def normalize_peer4 [OF assms(2,3)])

lemma register_again_refused:
  assumes "register_user_did dl pa it now r did = Ok (a, r')"
    and "trim did = did" and "starts_with did ''did:peer:4''"
    and "from_did_string dl did2 = Some doc" and "evm_address doc = a"
  shows "is_err (register_user_did dl pa it2 now2 r' did2)"
  using registered_state(1) [OF assms(1)] is_did_fully_registered_peer4 [OF assms(1-3)] assms(4,5)
  by (simp add: register_user_did_def Let_def)

section \<open>Wrapped foreign keys\<close>

lemma find_sub_Some_subset: "find_sub s p = Some n \<Longrightarrow> set p \<subseteq> set s"
proof (induction s p arbitrary: n rule: find_sub.induct)
  case (2 c s p)
  have "set p \<subseteq> set (c # s)" if "starts_with (c # s) p"
    using that set_take_subset [of "length p" "c # s"] by (simp only: starts_with_def)
  with 2 show ?case by (auto split: if_splits)
qed (simp split: if_splits)

lemma hex_string_chars [simp]:
  "CHR ''x'' \<notin> set (hex_string bs)" "CHR '':'' \<notin> set (hex_string bs)"
  "CHR ''z'' \<notin> set (hex_string bs)"
  by (simp_all add: notin_hex_string)

lemma hex_string_no_space: "c \<in> set (hex_string bs) \<Longrightarrow> \<not> is_space c"
  using notin_hex_string [of c bs] by (auto simp: is_space_def)

definition hex_peer_did :: "bytes \<Rightarrow> string" where
  "hex_peer_did raw = ''did:peer:'' @ hex_string raw"

definition foreign_did :: "u64 \<Rightarrow> bytes \<Rightarrow> string" where
  "foreign_did chain raw = ''did:sovereign:'' @ decimal (unat chain) @ '':'' @ hex_string raw"

lemma did_uri_wrap: "did_lib_ok dl \<Longrightarrow> did_uri (wrap_foreign_key dl chain raw) = foreign_did chain raw"
  by (simp add: foreign_did_def wrap_foreign_key_def Let_def did_lib_okD)

lemma split_foreign:
  "split_on (CHR '':'') (foreign_did chain raw) =
     [''did'', ''sovereign'', decimal (unat chain), hex_string raw]"
  using split_on_append [of "CHR '':''" "decimal (unat chain)" "hex_string raw"]
  by (simp add: foreign_did_def notin_decimal)

lemma normalize_foreign:
  assumes "raw \<noteq> []"
  shows "normalize_query_did (foreign_did chain raw) = hex_peer_did raw"
proof -
  have ne: "hex_string raw \<noteq> []" using assms length_hex_string [of raw] by (metis length_0_conv mult_eq_0_iff zero_neq_numeral)
  then have "last (foreign_did chain raw) = last (hex_string raw)" by (simp add: foreign_did_def)
  then have "\<not> is_space (last (foreign_did chain raw))"
    using hex_string_no_space last_in_set [OF ne] by metis
  moreover have "\<not> is_space (hd (foreign_did chain raw))" by (simp add: foreign_did_def is_space_def)
  ultimately have t: "trim (foreign_did chain raw) = foreign_did chain raw" by (intro trim_id) simp
  have "starts_with (foreign_did chain raw) ''did:sovereign:''"
    unfolding foreign_did_def by (rule starts_with_append)
  moreover have "\<not> starts_with (hex_string raw) ''0x''" by simp
  ultimately show ?thesis
    unfolding normalize_query_did_def Let_def t split_foreign hex_peer_did_def by simp
qed

lemma normalize_hex_peer:
  assumes "raw \<noteq> []"
  shows "normalize_query_did (hex_peer_did raw) = hex_peer_did raw"
proof -
  have ne: "hex_string raw \<noteq> []" using assms length_hex_string [of raw] by (metis length_0_conv mult_eq_0_iff zero_neq_numeral)
  then have "last (hex_peer_did raw) = last (hex_string raw)" by (simp add: hex_peer_did_def)
  then have "\<not> is_space (last (hex_peer_did raw))"
    using hex_string_no_space last_in_set [OF ne] by metis
  moreover have "\<not> is_space (hd (hex_peer_did raw))" by (simp add: is_space_def hex_peer_did_def)
  ultimately have t: "trim (hex_peer_did raw) = hex_peer_did raw"
    by (intro trim_id disjI2 conjI)
  show ?thesis
    unfolding normalize_query_did_def Let_def t by (simp add: starts_with_def hex_peer_did_def)
qed

lemma hex_peer_not_found:
  assumes "raw \<noteq> []"
  shows "find_identity_by_any_key dl it r (hex_peer_did raw) = None"
    and "extract_address_from_did dl pa (hex_peer_did raw) = None"
proof -
  have "\<not> starts_with (hex_string raw) ''z''"
  proof
    assume "starts_with (hex_string raw) ''z''"
    then have "take 1 (hex_string raw) = ''z''" by (simp add: starts_with_def)
    then have "CHR ''z'' \<in> set (take 1 (hex_string raw))" by simp
    then show False using in_set_takeD hex_string_chars(3) by metis
  qed
  moreover have "strip_prefix (hex_peer_did raw) ''did:peer:'' = Some (hex_string raw)"
    unfolding hex_peer_did_def by (rule strip_prefix_append)
  ultimately show "find_identity_by_any_key dl it r (hex_peer_did raw) = None"
    unfolding find_identity_by_any_key_def Let_def normalize_hex_peer [OF assms] by simp
  have "find_sub (hex_peer_did raw) ''0x'' = None"
  proof (rule ccontr)
    assume "find_sub (hex_peer_did raw) ''0x'' \<noteq> None"
    then have "set ''0x'' \<subseteq> set (hex_peer_did raw)"
      using find_sub_Some_subset by blast
    then show False by (simp add: hex_peer_did_def)
  qed
  moreover have "\<not> starts_with (hex_peer_did raw) ''did:sovereign:''"
    by (simp add: starts_with_def hex_peer_did_def)
  ultimately show "extract_address_from_did dl pa (hex_peer_did raw) = None"
    unfolding extract_address_from_did_def Let_def normalize_hex_peer [OF assms] by simp
qed

lemma foreign_did_lookup:
  assumes "raw \<noteq> []"
  shows "is_did_registered dl pa it r (foreign_did chain raw) \<longleftrightarrow> hex_peer_did raw \<in> dom (peer_keys r)"
    and "is_did_fully_registered dl pa it r (foreign_did chain raw) \<longleftrightarrow>
      (\<exists>k. peer_keys r (hex_peer_did raw) = Some k \<and> k \<noteq> 0)"
  by (auto simp: is_did_registered_def is_did_fully_registered_def Let_def
      normalize_foreign [OF assms] hex_peer_not_found [OF assms] split: option.splits)

lemma derived_names_foreign:
  "set (foreign_did chain raw # derived_names c (foreign_did chain raw) a) \<subseteq>
     {s. starts_with s ''did:sovereign:''}"
  by (auto simp: derived_names_def peer_hash_component_def foreign_did_def strip_prefix_def
      starts_with_def)

section \<open>Properties\<close>

lemma resolve_foreign_did:
  assumes "did_lib_ok dl" and "length raw = 20"
  shows "from_did_string dl (foreign_did chain raw) = Some (wrap_foreign_key dl chain raw)"
  using resolve_wrap_foreign_key [OF assms(1), of chain raw] assms(2)
  by (simp only: did_uri_wrap [OF assms(1)]) simp

lemma register_foreign_fresh:
  assumes "did_lib_ok dl" and "length raw = 20" and "address_to_did r = Map.empty"
  shows "\<exists>r'. register_user_did dl pa it now r (foreign_did chain raw) = Ok (address_of_bytes raw, r')"
proof -
  have "evm_address (wrap_foreign_key dl chain raw) = address_of_bytes raw"
    using assms(2) by (simp add: wrap_foreign_key_def Let_def)
  moreover have "\<not> starts_with (foreign_did chain raw) ''did:peer:2''"
    "\<not> starts_with (foreign_did chain raw) ''did:peer:4''"
    by (simp_all add: foreign_did_def starts_with_def)
  ultimately show ?thesis
    by (simp add: register_user_did_def resolve_foreign_did [OF assms(1,2)] assms(3) Let_def)
qed

text \<open>An identity registered for a foreign key does not hold its address. After the DID of a
  20-byte key is registered, the registry does not report it as registered, unless the peer DID
  that its lookup is rewritten to is, and registers it, or any other DID of the address, again.\<close>

theorem foreign_registration_unprotected:
  assumes "did_lib_ok dl" and "length raw = 20"
    and "register_user_did dl pa it now r (foreign_did chain raw) = Ok (a, r')"
    and "hex_peer_did raw \<notin> dom (peer_keys r)"
  shows "\<not> is_did_registered dl pa it' r' (foreign_did chain raw) \<and>
    (\<exists>r''. register_user_did dl pa it' now' r' (foreign_did chain raw) = Ok (a, r''))"
proof -
  let ?d = "foreign_did chain raw"
  have ne: "raw \<noteq> []" using assms(2) by auto
  obtain doc where doc: "from_did_string dl ?d = Some doc" "evm_address doc = a"
    using register_user_did_Ok [OF assms(3)] by metis
  have "hex_peer_did raw \<notin> set (?d # derived_names (vr_chain_id r) ?d a)"
  proof
    assume "hex_peer_did raw \<in> set (?d # derived_names (vr_chain_id r) ?d a)"
    then have "starts_with (hex_peer_did raw) ''did:sovereign:''" using derived_names_foreign by blast
    then show False by (simp add: hex_peer_did_def starts_with_def)
  qed
  then have "peer_keys r' (hex_peer_did raw) = None"
    using registered_state(4) [OF assms(3)] assms(4) by (simp add: domIff)
  then have unreg: "\<not> is_did_registered dl pa it' r' ?d" "\<not> is_did_fully_registered dl pa it' r' ?d"
    by (simp_all add: foreign_did_lookup [OF ne] domIff)
  have "address_to_did r' a = Some ?d" using registered_state(1) [OF assms(3)] by simp
  moreover have "\<not> starts_with ?d ''did:peer:2''" "\<not> starts_with ?d ''did:peer:4''"
    by (simp_all add: foreign_did_def starts_with_def)
  ultimately have "\<exists>r''. register_user_did dl pa it' now' r' ?d = Ok (a, r'')"
    using doc unreg(2) by (simp add: register_user_did_def Let_def)
  with unreg(1) show ?thesis by blast
qed

definition empty_iteration :: iteration where
  "empty_iteration = \<lparr>it_identities = [], it_addresses = [], it_peer_keys = []\<rparr>"

lemma foreign_registration_unprotected_witness:
  "\<exists>r'. \<not> is_did_registered sample_did_lib (\<lambda>_. None) empty_iteration r' (foreign_did 1 (replicate 20 7))"
proof -
  have l: "length (replicate 20 (7 :: u8)) = 20" by simp
  have "address_to_did validator_registry_default = Map.empty" "peer_keys validator_registry_default = Map.empty"
    by (simp_all add: validator_registry_default_def validator_registry_new_def)
  note d = this
  obtain r' where "register_user_did sample_did_lib (\<lambda>_. None) empty_iteration 0 validator_registry_default
      (foreign_did 1 (replicate 20 7)) = Ok (address_of_bytes (replicate 20 7), r')"
    using register_foreign_fresh [OF sample_did_lib_ok l d(1)] by blast
  from foreign_registration_unprotected [OF sample_did_lib_ok l this] show ?thesis
    by (simp only: d dom_empty empty_iff not_False_eq_True) blast
qed

end
