(* ===== verification/Velocity.thy ===== *)
theory Velocity
  imports F64
begin

text \<open>
  Velocity telemetry and the circuit breaker (\<open>crates/consensus/src/velocity.rs\<close>). The
  operations are the code's double-precision expressions; \<open>powf\<close> and \<open>exp\<close> are library
  functions without a specified rounding and are parameters. Lemma: the gas escalation
  scalar is at least one unless it is not a number.
\<close>

record velocity_engine =
  v_productive :: f64
  v_speculative :: f64
  ve_alpha :: f64
  ve_delta :: f64
  min_efficiency :: f64

definition velocity_engine_default :: velocity_engine where
  "velocity_engine_default =
     \<lparr>v_productive = f64_lit 1, v_speculative = f64_lit (1 / 10), ve_alpha = f64_lit (7 / 10),
      ve_delta = f64_lit (15 / 100), min_efficiency = f64_lit (20 / 100)\<rparr>"

definition total_velocity :: "velocity_engine \<Rightarrow> f64" where
  "total_velocity ve = f64_add (v_productive ve) (v_speculative ve)"

definition compute_output ::
  "(f64 \<Rightarrow> f64 \<Rightarrow> f64) \<Rightarrow> (f64 \<Rightarrow> f64) \<Rightarrow> velocity_engine \<Rightarrow> f64 \<Rightarrow> f64" where
  "compute_output powf fexp ve k = (let v = total_velocity ve in
     f64_mul (f64_mul k (powf v (ve_alpha ve))) (fexp (f64_mul (f64_neg (ve_delta ve)) v)))"

definition optimal_velocity :: "velocity_engine \<Rightarrow> f64" where
  "optimal_velocity ve = f64_div (ve_alpha ve) (ve_delta ve)"

definition efficiency_ratio ::
  "(f64 \<Rightarrow> f64 \<Rightarrow> f64) \<Rightarrow> (f64 \<Rightarrow> f64) \<Rightarrow> velocity_engine \<Rightarrow> f64 \<Rightarrow> f64" where
  "efficiency_ratio powf fexp ve k = (let v = total_velocity ve in
     if f64_eq v (Fin 0) then Fin 0 else f64_div (compute_output powf fexp ve k) v)"

definition is_circuit_breaker_triggered ::
  "(f64 \<Rightarrow> f64 \<Rightarrow> f64) \<Rightarrow> (f64 \<Rightarrow> f64) \<Rightarrow> velocity_engine \<Rightarrow> f64 \<Rightarrow> bool" where
  "is_circuit_breaker_triggered powf fexp ve k \<longleftrightarrow>
     f64_lt (efficiency_ratio powf fexp ve k) (min_efficiency ve) \<or>
     f64_lt (f64_mul (f64_lit 5) (v_productive ve)) (v_speculative ve)"

definition gas_escalation_scalar :: "velocity_engine \<Rightarrow> f64" where
  "gas_escalation_scalar ve =
     (let ratio = f64_div (v_speculative ve) (f64_add (v_productive ve) (f64_lit (1 / 1000)))
      in f64_add (f64_lit 1) (f64_mul ratio ratio))"

lemma f64_square_ge_0: "f64_mul a a = NaN \<or> f64_le (Fin 0) (f64_mul a a)"
proof (cases a)
  case (Fin x)
  have "f64_le (Fin 0) (rnd (x * x))"
    by (rule rnd_ge) simp_all
  with Fin show ?thesis by simp
qed (simp_all add: f64_le_def)

lemma f64_one_plus_ge: "f64_le (Fin 0) a \<Longrightarrow> f64_le (Fin 1) (f64_add (Fin 1) a)"
proof (cases a)
  case (Fin x)
  assume "f64_le (Fin 0) a"
  with Fin have "f64_le (Fin 1) (rnd (1 + x))" by (intro rnd_ge) simp_all
  with Fin show ?thesis by simp
qed (auto simp: f64_le_def split: if_splits)

lemma gas_escalation_ge_1:
  "gas_escalation_scalar ve = NaN \<or> f64_le (Fin 1) (gas_escalation_scalar ve)"
proof -
  let ?r = "f64_div (v_speculative ve) (f64_add (v_productive ve) (f64_lit (1 / 1000)))"
  have eq: "gas_escalation_scalar ve = f64_add (Fin 1) (f64_mul ?r ?r)"
    by (simp add: gas_escalation_scalar_def Let_def)
  show ?thesis
  proof (cases "f64_mul ?r ?r = NaN")
    case True
    show ?thesis by (simp only: eq True) simp
  next
    case False
    with f64_square_ge_0 [of ?r] have "f64_le (Fin 0) (f64_mul ?r ?r)" by blast
    then show ?thesis unfolding eq using f64_one_plus_ge by blast
  qed
qed

end
