(* ===== verification/Stateless.thy ===== *)
theory Stateless
  imports Scale Registry Velocity
begin

text \<open>
  Stateless validation (\<open>crates/consensus/src/stateless.rs\<close>): the witness records and their
  SCALE codecs, the pre-flight solvency pipeline on 256-bit words, the witness database, and
  the validation of implicit state blocks. The branch compiled only into the unit tests is
  left out. Lemmas: the codecs round-trip; the exact accounting of the pre-flight check; what
  an accepted block guarantees about every one of its signatures.
\<close>

section \<open>Witness records\<close>

record verkle_node_proof =
  stem :: bytes          \<comment> \<open>31 bytes\<close>
  commit_point :: bytes  \<comment> \<open>32 bytes\<close>
  suffix_index :: u8
  vp_value :: bytes      \<comment> \<open>32 bytes\<close>

definition verkle_proof_valid :: "verkle_node_proof \<Rightarrow> bool" where
  "verkle_proof_valid p \<longleftrightarrow> length (stem p) = 31 \<and> length (commit_point p) = 32 \<and> length (vp_value p) = 32"

definition verkle_proof_encode :: "scale_lib \<Rightarrow> verkle_node_proof \<Rightarrow> bytes" where
  "verkle_proof_encode sl p =
     array_enc sl (stem p) @ array_enc sl (commit_point p) @ u8_enc sl (suffix_index p) @
     array_enc sl (vp_value p)"

definition verkle_proof_decode :: "scale_lib \<Rightarrow> verkle_node_proof decoder" where
  "verkle_proof_decode sl inp =
     (case array_dec sl 31 inp of None \<Rightarrow> None | Some (st, inp) \<Rightarrow>
     (case array_dec sl 32 inp of None \<Rightarrow> None | Some (cp, inp) \<Rightarrow>
     (case u8_dec sl inp of None \<Rightarrow> None | Some (i, inp) \<Rightarrow>
     (case array_dec sl 32 inp of None \<Rightarrow> None | Some (v, inp) \<Rightarrow>
      Some (\<lparr>stem = st, commit_point = cp, suffix_index = i, vp_value = v\<rparr>, inp)))))"

record account_witness =
  aw_balance :: u256
  aw_nonce :: u64
  aw_code_hash :: b256
  aw_code :: bytes
  aw_q0 :: u64
  aw_q1 :: u64
  aw_q2 :: u64
  aw_q3 :: u64

definition quadrant_matrix :: "account_witness \<Rightarrow> u64 list" where
  "quadrant_matrix w = [aw_q0 w, aw_q1 w, aw_q2 w, aw_q3 w]"

definition account_witness_encode :: "scale_lib \<Rightarrow> account_witness \<Rightarrow> bytes" where
  "account_witness_encode sl w =
     array_enc sl (b256_bytes (aw_balance w)) @ u64_enc sl (aw_nonce w) @
     array_enc sl (b256_bytes (aw_code_hash w)) @ vec_enc sl (aw_code w) @
     u64s_enc sl (quadrant_matrix w)"

definition account_witness_decode :: "scale_lib \<Rightarrow> account_witness decoder" where
  "account_witness_decode sl inp =
     (case array_dec sl 32 inp of None \<Rightarrow> None | Some (bal, inp) \<Rightarrow>
     (case u64_dec sl inp of None \<Rightarrow> None | Some (n, inp) \<Rightarrow>
     (case array_dec sl 32 inp of None \<Rightarrow> None | Some (ch, inp) \<Rightarrow>
     (case vec_dec sl inp of None \<Rightarrow> None | Some (code, inp) \<Rightarrow>
     (case u64s_dec sl 4 inp of
        Some ([a, b, c, d], inp) \<Rightarrow>
          Some (\<lparr>aw_balance = b256_of_bytes bal, aw_nonce = n, aw_code_hash = b256_of_bytes ch,
                 aw_code = code, aw_q0 = a, aw_q1 = b, aw_q2 = c, aw_q3 = d\<rparr>, inp)
      | _ \<Rightarrow> None)))))"

lemma b256_bytes_codec:
  "scale_ok sl \<Longrightarrow> array_dec sl 32 (array_enc sl (b256_bytes h) @ rest) = Some (b256_bytes h, rest)"
  by (simp add: scale_okD(5))

lemma account_witness_decode_encode:
  assumes "scale_ok sl" and "length (aw_code w) < vec_bound"
  shows "account_witness_decode sl (account_witness_encode sl w @ rest) = Some (w, rest)"
  using assms
  by (simp add: account_witness_decode_def account_witness_encode_def b256_bytes_codec
      scale_okD quadrant_matrix_def)

lemma verkle_proof_decode_encode:
  assumes "scale_ok sl" and "verkle_proof_valid p"
  shows "verkle_proof_decode sl (verkle_proof_encode sl p @ rest) = Some (p, rest)"
  using assms
  by (simp add: verkle_proof_decode_def verkle_proof_encode_def scale_okD verkle_proof_valid_def)

sublocale scale_primitives \<subseteq> aw: codec "\<lambda>w. length (aw_code w) < vec_bound"
  "account_witness_encode sl" "account_witness_decode sl"
  by unfold_locales (simp add: account_witness_decode_encode ok)

sublocale scale_primitives \<subseteq> vp: codec verkle_proof_valid
  "verkle_proof_encode sl" "verkle_proof_decode sl"
  by unfold_locales (simp add: verkle_proof_decode_encode ok)

definition hardened_quadrant_matrix :: "account_witness \<Rightarrow> b256 \<Rightarrow> b256" where
  "hardened_quadrant_matrix w tx_hash =
     b256_of_bytes (concat (map u64_be_bytes (quadrant_matrix w))) XOR tx_hash"

section \<open>Pre-flight pipeline\<close>

record bandwidth_request =
  requested_kb_per_sec :: u64
  rate_per_kb :: u64
  epoch_duration_secs :: u64

datatype sovereign_error =
    CallerFrozen | ContractFrozen | InsufficientSolvencyForUpfrontBurn
  | InsufficientSolvencyForBandwidth | ComplianceFailure

definition penalty_multiplier :: "account_witness \<Rightarrow> account_witness \<Rightarrow> f64" where
  "penalty_multiplier caller contract =
     (let subsumed = aw_q1 caller AND aw_q1 contract = aw_q1 contract;
          category_overlap = aw_q2 caller AND aw_q2 contract \<noteq> 0;
          m = f64_lit 1;
          m = (if \<not> subsumed then f64_add m (f64_lit 10) else m)
      in if \<not> category_overlap then f64_add m (f64_lit 5) else m)"

text \<open>\<open>U256::from((multiplier * scalar) as u64)\<close> times the base fee, on 256-bit words.\<close>

definition upfront_penalty :: "account_witness \<Rightarrow> account_witness \<Rightarrow> velocity_engine \<Rightarrow> u256" where
  "upfront_penalty caller contract velocity =
     100000 * word_of_nat (f64_to_u64
       (f64_mul (penalty_multiplier caller contract) (gas_escalation_scalar velocity)))"

definition bandwidth_cost :: "bandwidth_request option \<Rightarrow> u256" where
  "bandwidth_cost request =
     (case request of
        None \<Rightarrow> 0
      | Some req \<Rightarrow> ucast (saturating_mul (saturating_mul (requested_kb_per_sec req) (rate_per_kb req))
                             (epoch_duration_secs req)))"

text \<open>
  The caller's witness is updated in place; the result pairs the returned penalty with the
  new witness. Additions, products and the two subtractions wrap, as those of the source's
  256-bit integers do.
\<close>

definition pre_flight_execute ::
  "account_witness \<Rightarrow> account_witness \<Rightarrow> u64 \<Rightarrow> u256 \<Rightarrow> u256 \<Rightarrow> velocity_engine
    \<Rightarrow> bandwidth_request option \<Rightarrow> (u256 \<times> account_witness, sovereign_error) outcome" where
  "pre_flight_execute caller contract gas_limit gas_price tx_value velocity request =
     (if aw_q0 caller AND 1 \<noteq> 0 then Err CallerFrozen
      else if aw_q0 contract AND 1 \<noteq> 0 then Err ContractFrozen
      else
        (let penalty = upfront_penalty caller contract velocity;
             bandwidth = bandwidth_cost request;
             max_evm_cost = gas_price * ucast gas_limit + tx_value;
             total_required = penalty + max_evm_cost + bandwidth
         in if aw_balance caller < total_required then
              Err (if request \<noteq> None then InsufficientSolvencyForBandwidth
                   else InsufficientSolvencyForUpfrontBurn)
            else Ok (penalty, caller\<lparr>aw_balance := aw_balance caller - penalty - bandwidth\<rparr>)))"

lemma unat_upfront_penalty:
  "unat (upfront_penalty caller contract velocity) =
     100000 * f64_to_u64 (f64_mul (penalty_multiplier caller contract) (gas_escalation_scalar velocity))"
proof -
  let ?n = "f64_to_u64 (f64_mul (penalty_multiplier caller contract) (gas_escalation_scalar velocity))"
  have "?n \<le> 2 ^ 64 - 1"
    by (cases "f64_mul (penalty_multiplier caller contract) (gas_escalation_scalar velocity)") auto
  then have "100000 * ?n < 2 ^ 256" by simp
  moreover have "upfront_penalty caller contract velocity = word_of_nat (100000 * ?n)"
    by (simp add: upfront_penalty_def)
  ultimately show ?thesis by (simp only: unat_of_nat) simp
qed

lemma unat_bandwidth_cost_less: "unat (bandwidth_cost request) < 2 ^ 64"
  using unat_less [where ?'a = 64] by (auto simp: bandwidth_cost_def unat_ucast_up split: option.splits)

text \<open>
  Exact accounting: when the true cost fits into 256 bits, an accepted caller held all of it,
  and loses exactly the penalty and the bandwidth credit.
\<close>

definition evm_cost :: "u64 \<Rightarrow> u256 \<Rightarrow> u256 \<Rightarrow> nat" where
  "evm_cost gas_limit gas_price tx_value = unat gas_price * unat gas_limit + unat tx_value"

lemma pre_flight_exact:
  assumes ok: "pre_flight_execute caller contract gl gp v vel req = Ok (p, caller')"
    and fits: "unat (upfront_penalty caller contract vel) + evm_cost gl gp v + unat (bandwidth_cost req) < 2 ^ 256"
  shows "p = upfront_penalty caller contract vel"
    and "unat p + evm_cost gl gp v + unat (bandwidth_cost req) \<le> unat (aw_balance caller)"
    and "unat (aw_balance caller') + unat p + unat (bandwidth_cost req) = unat (aw_balance caller)"
    and "caller'\<lparr>aw_balance := aw_balance caller\<rparr> = caller"
proof -
  let ?p = "upfront_penalty caller contract vel" and ?b = "bandwidth_cost req"
  have gl: "unat (ucast gl :: u256) = unat gl"
    by (simp add: unat_ucast_up)
  have mul: "unat (gp * ucast gl) = unat gp * unat gl"
    using fits by (simp add: unat_word_ariths gl evm_cost_def)
  have evm: "unat (gp * ucast gl + v) = evm_cost gl gp v"
    using fits by (simp add: unat_add_no_wrap mul evm_cost_def)
  have pe: "unat (?p + (gp * ucast gl + v)) = unat ?p + evm_cost gl gp v"
    using fits by (subst unat_add_no_wrap) (simp_all add: evm)
  have total: "unat (?p + (gp * ucast gl + v) + ?b) = unat ?p + evm_cost gl gp v + unat ?b"
    using fits by (subst unat_add_no_wrap) (simp_all add: pe)
  from ok have le: "?p + (gp * ucast gl + v) + ?b \<le> aw_balance caller" and p: "p = ?p"
    and c: "caller' = caller\<lparr>aw_balance := aw_balance caller - ?p - ?b\<rparr>"
    by (auto simp: pre_flight_execute_def Let_def split: if_splits)
  show "p = ?p" by (rule p)
  show bal: "unat p + evm_cost gl gp v + unat ?b \<le> unat (aw_balance caller)"
    using le by (simp only: word_le_nat_alt total p)
  have "?p \<le> aw_balance caller" using bal by (simp add: word_le_nat_alt p)
  then have s: "unat (aw_balance caller - ?p) = unat (aw_balance caller) - unat ?p"
    by (rule unat_sub_no_wrap)
  have "?b \<le> aw_balance caller - ?p" using bal by (simp add: word_le_nat_alt s p)
  then have "unat (aw_balance caller - ?p - ?b) = unat (aw_balance caller) - unat ?p - unat ?b"
    by (simp only: unat_sub_no_wrap s)
  then show "unat (aw_balance caller') + unat p + unat ?b = unat (aw_balance caller)"
    using bal by (simp add: c p)
  show "caller'\<lparr>aw_balance := aw_balance caller\<rparr> = caller" by (simp add: c)
qed

section \<open>Witness database\<close>

record witness_database =
  wdb_accounts :: "address \<rightharpoonup> account_witness"
  wdb_storage :: "address \<rightharpoonup> (u256 \<rightharpoonup> u256)"
  wdb_verkle_proofs :: "verkle_node_proof list"

definition verify_witness :: "crypto_lib \<Rightarrow> witness_database \<Rightarrow> b256 \<Rightarrow> bool" where
  "verify_witness cl db pre_state_root \<longleftrightarrow>
     wdb_verkle_proofs db \<noteq> [] \<and>
     pre_state_root = b256_of_bytes (sha256 cl
       (concat (map (\<lambda>p. stem p @ commit_point p @ [suffix_index p] @ vp_value p)
                 (wdb_verkle_proofs db))))"

record account_info =
  ai_balance :: u256
  ai_nonce :: u64
  ai_code_hash :: b256
  ai_code :: bytes

definition wdb_basic :: "witness_database \<Rightarrow> address \<Rightarrow> account_info option" where
  "wdb_basic db a =
     map_option (\<lambda>acc. \<lparr>ai_balance = aw_balance acc, ai_nonce = aw_nonce acc,
       ai_code_hash = aw_code_hash acc, ai_code = aw_code acc\<rparr>) (wdb_accounts db a)"

definition wdb_code_by_hash :: "witness_database \<Rightarrow> b256 \<Rightarrow> bytes" where
  "wdb_code_by_hash db h = []"

definition wdb_read_storage :: "witness_database \<Rightarrow> address \<Rightarrow> u256 \<Rightarrow> u256" where
  "wdb_read_storage db a i =
     (case wdb_storage db a of
        None \<Rightarrow> 0
      | Some slots \<Rightarrow> (case slots i of None \<Rightarrow> 0 | Some v \<Rightarrow> v))"

definition wdb_block_hash :: "witness_database \<Rightarrow> u64 \<Rightarrow> b256" where
  "wdb_block_hash db n = 0"

section \<open>Implicit state blocks\<close>

datatype block_error =
    MissingSignatures | EmptyStateDiff | SchemeRejectedQuantum | ValidatorVerificationFailed
  | NotAnActiveValidator | TraditionalForbidden | InvalidTraditionalFormat
  | TraditionalRecoveryFailed | RecoveredNotActive | SchemeMismatch

definition active_profile_name :: "dynamic_config \<Rightarrow> u64 \<Rightarrow> string" where
  "active_profile_name cfg height =
     (case (profile_switch_block_height cfg, next_crypto_profile cfg) of
        (Some switch, Some next) \<Rightarrow> if switch \<le> height then next else default_crypto_profile cfg
      | _ \<Rightarrow> default_crypto_profile cfg)"

definition transition_hash :: "crypto_lib \<Rightarrow> b256 \<Rightarrow> bytes \<Rightarrow> b256" where
  "transition_hash cl state_root state_diff = keccak256 cl (b256_bytes state_root @ state_diff)"

definition check_block_signature ::
  "crypto_lib \<Rightarrow> validator_registry \<Rightarrow> bool \<Rightarrow> crypto_profile \<Rightarrow> b256 \<Rightarrow> bytes
    \<Rightarrow> (unit, block_error) outcome" where
  "check_block_signature cl reg quantum_threat profile msg_hash sig_bytes =
     (case unpack_pq_envelope sig_bytes of
        Ok (scheme, pk, sig) \<Rightarrow>
          (if quantum_threat \<and> \<not> is_post_quantum scheme then Err SchemeRejectedQuantum
           else and_then (map_err (\<lambda>_. ValidatorVerificationFailed)
                  (verify_signature cl scheme pk (b256_bytes msg_hash) sig quantum_threat)) (\<lambda>_.
             if get_type_by_address reg
                  (address_of_bytes (derive_address cl (default_address_hash scheme) pk)) \<noteq> None
             then Ok () else Err NotAnActiveValidator))
      | _ \<Rightarrow>
          (if quantum_threat then Err TraditionalForbidden
           else if cp_signature profile = Secp256k1 then
             (if \<not> traditional_sig_ok cl sig_bytes then Err InvalidTraditionalFormat
              else case recover_address cl sig_bytes msg_hash of
                None \<Rightarrow> Err TraditionalRecoveryFailed
              | Some a \<Rightarrow>
                  if get_type_by_address reg a \<noteq> None then Ok () else Err RecoveredNotActive)
           else Err SchemeMismatch))"

fun check_block_signatures ::
  "crypto_lib \<Rightarrow> validator_registry \<Rightarrow> bool \<Rightarrow> crypto_profile \<Rightarrow> b256 \<Rightarrow> bytes list
    \<Rightarrow> (unit, block_error) outcome" where
  "check_block_signatures cl reg qt profile msg_hash [] = Ok ()"
| "check_block_signatures cl reg qt profile msg_hash (s # ss) =
     and_then (check_block_signature cl reg qt profile msg_hash s)
       (\<lambda>_. check_block_signatures cl reg qt profile msg_hash ss)"

definition validate_implicit_state_block ::
  "crypto_lib \<Rightarrow> validator_registry \<Rightarrow> b256 \<Rightarrow> bytes \<Rightarrow> bytes list \<Rightarrow> u64
    \<Rightarrow> (b256, block_error) outcome" where
  "validate_implicit_state_block cl reg state_root state_diff signatures block_height =
     (if signatures = [] then Err MissingSignatures
      else
        (let cfg = vr_dynamic_cfg reg;
             profile = profile_or_ethereum (active_profile_name cfg block_height)
         in if state_diff = [] then Err EmptyStateDiff
            else and_then
              (check_block_signatures cl reg (zero_latency_quantum_trigger cfg) profile
                 (transition_hash cl state_root state_diff) signatures)
              (\<lambda>_. Ok (transition_hash cl state_root state_diff))))"

text \<open>What one accepted signature establishes.\<close>

definition signed_by_active_validator ::
  "crypto_lib \<Rightarrow> validator_registry \<Rightarrow> b256 \<Rightarrow> bytes \<Rightarrow> bool" where
  "signed_by_active_validator cl reg msg_hash s \<longleftrightarrow>
     (\<exists>a. get_type_by_address reg a \<noteq> None \<and>
       ((\<exists>scheme pk sig. unpack_pq_envelope s = Ok (scheme, pk, sig) \<and>
           verify_scheme cl scheme pk (b256_bytes msg_hash) sig = Ok () \<and>
           a = address_of_bytes (derive_address cl (default_address_hash scheme) pk)) \<or>
        (recover_address cl s msg_hash = Some a)))"

lemma check_block_signature_Ok:
  assumes "check_block_signature cl reg qt profile h s = Ok ()"
  shows "signed_by_active_validator cl reg h s"
    and "qt \<Longrightarrow> \<exists>scheme pk sig. unpack_pq_envelope s = Ok (scheme, pk, sig) \<and> is_post_quantum scheme"
  using assms
  by (cases "unpack_pq_envelope s";
      auto simp: check_block_signature_def signed_by_active_validator_def outcome_simps
        verify_signature_def split: if_splits option.splits)+

lemma check_block_signatures_Ok:
  "check_block_signatures cl reg qt profile h ss = Ok () \<longleftrightarrow>
     (\<forall>s \<in> set ss. check_block_signature cl reg qt profile h s = Ok ())"
  by (induction ss) (simp_all add: outcome_simps)

lemma check_block_signature_no_validators:
  "validators reg = Map.empty \<Longrightarrow> check_block_signature cl reg qt profile h s \<noteq> Ok ()"
  using check_block_signature_Ok(1) [of cl reg qt profile h s]
  by (auto simp: signed_by_active_validator_def get_type_by_address_def bind_eq_Some_conv)

lemma validate_Ok_iff:
  "validate_implicit_state_block cl reg prev diff sigs height = Ok r \<longleftrightarrow>
     sigs \<noteq> [] \<and> diff \<noteq> [] \<and> r = transition_hash cl prev diff \<and>
     (\<forall>s \<in> set sigs. check_block_signature cl reg
        (zero_latency_quantum_trigger (vr_dynamic_cfg reg))
        (profile_or_ethereum (active_profile_name (vr_dynamic_cfg reg) height))
        (transition_hash cl prev diff) s = Ok ())"
  by (auto simp: validate_implicit_state_block_def Let_def outcome_simps check_block_signatures_Ok)

section \<open>The penalty\<close>

definition misalignment :: "account_witness \<Rightarrow> account_witness \<Rightarrow> nat" where
  "misalignment caller contract =
     1 + (if aw_q1 caller AND aw_q1 contract = aw_q1 contract then 0 else 10)
       + (if aw_q2 caller AND aw_q2 contract = 0 then 5 else 0)"

lemma penalty_multiplier_eq:
  "penalty_multiplier caller contract = Fin (of_nat (misalignment caller contract))"
proof -
  have r: "rnd (of_nat n) = Fin (of_nat n)" if "n \<le> 16" for n using that by (intro rnd_nat) simp
  show ?thesis
    using r [of 5] r [of 10] r [of 11] r [of 16] r [of 6]
    by (simp add: penalty_multiplier_def misalignment_def Let_def)
qed

lemma f64_to_u64_mul_ge:
  assumes "n \<le> 2 ^ 53" and "0 < n" and "f64_le (Fin 1) s"
  shows "n \<le> f64_to_u64 (f64_mul (Fin (of_nat n)) s)"
proof (cases s)
  case (Fin x)
  then have "(of_nat n :: rat) \<le> of_nat n * x" using assms(3) by (simp add: mult_le_cancel_left1)
  then have "f64_le (Fin (of_nat n)) (rnd (of_nat n * x))"
    using representable_nat [OF assms(1)] by (rule rnd_ge [rotated])
  from f64_to_u64_mono [OF this] have "n \<le> f64_to_u64 (rnd (of_nat n * x))"
    using f64_to_u64_nat [of n] assms(1) by simp
  then show ?thesis by (simp add: Fin)
qed (use assms in \<open>auto simp: f64_le_def\<close>)

lemma upfront_penalty_ge:
  assumes "gas_escalation_scalar vel \<noteq> NaN"
  shows "100000 * misalignment caller contract \<le> unat (upfront_penalty caller contract vel)"
proof -
  have "f64_le (Fin 1) (gas_escalation_scalar vel)" using gas_escalation_ge_1 [of vel] assms by blast
  moreover have "0 < misalignment caller contract" "misalignment caller contract \<le> 2 ^ 53"
    by (simp_all add: misalignment_def)
  ultimately have "misalignment caller contract \<le>
      f64_to_u64 (f64_mul (penalty_multiplier caller contract) (gas_escalation_scalar vel))"
    unfolding penalty_multiplier_eq by (intro f64_to_u64_mul_ge)
  then show ?thesis by (simp add: unat_upfront_penalty)
qed

definition calm_velocity :: velocity_engine where
  "calm_velocity = \<lparr>v_productive = Fin 1, v_speculative = Fin 0, ve_alpha = Fin 1, ve_delta = Fin 1,
     min_efficiency = Fin 0\<rparr>"

lemma calm_scalar: "gas_escalation_scalar calm_velocity = Fin 1"
proof -
  have "f64_add (Fin 1) (rnd (1 / 1000)) = Fin (2254051613498933 / 2251799813685248)"
    by (simp add: f64_eval)
  then show ?thesis by (simp add: gas_escalation_scalar_def calm_velocity_def Let_def)
qed

section \<open>Concrete accounts\<close>

definition compliant :: "u256 \<Rightarrow> account_witness" where
  "compliant b = \<lparr>aw_balance = b, aw_nonce = 0, aw_code_hash = 0, aw_code = [],
     aw_q0 = 0, aw_q1 = 1, aw_q2 = 1, aw_q3 = 0\<rparr>"

lemma compliant_penalty: "upfront_penalty (compliant b) (compliant c) calm_velocity = 100000"
proof -
  have "misalignment (compliant b) (compliant c) = 1" by (simp add: misalignment_def compliant_def)
  then have "penalty_multiplier (compliant b) (compliant c) = Fin 1"
    by (simp add: penalty_multiplier_eq)
  then show ?thesis by (simp add: upfront_penalty_def calm_scalar)
qed

lemma pre_flight_compliant:
  "pre_flight_execute (compliant b) (compliant c) gl gp v calm_velocity req =
     (if b < 100000 + (gp * ucast gl + v) + bandwidth_cost req
      then Err (if req \<noteq> None then InsufficientSolvencyForBandwidth else InsufficientSolvencyForUpfrontBurn)
      else Ok (100000, compliant (b - 100000 - bandwidth_cost req)))"
  unfolding pre_flight_execute_def compliant_penalty Let_def by (auto simp: compliant_def)

section \<open>Properties\<close>

text \<open>C6: exact accounting of the pre-flight check. When the true cost of a call (penalty, gas and
  value, bandwidth credit, as unbounded numbers) fits into 256 bits, a caller it accepts held
  all of it, and loses exactly the returned penalty and the bandwidth credit; nothing else of
  the witness changes.\<close>

theorem pre_flight_accounting:
  assumes "pre_flight_execute caller contract gl gp v vel req = Ok (p, caller')"
    and "unat (upfront_penalty caller contract vel) + evm_cost gl gp v + unat (bandwidth_cost req) < 2 ^ 256"
  shows "unat p + evm_cost gl gp v + unat (bandwidth_cost req) \<le> unat (aw_balance caller) \<and>
    unat (aw_balance caller') + unat p + unat (bandwidth_cost req) = unat (aw_balance caller) \<and>
    caller'\<lparr>aw_balance := aw_balance caller\<rparr> = caller"
  using pre_flight_exact [OF assms] by blast

lemma pre_flight_accounting_witness:
  "unat (100000 :: u256) + evm_cost 21000 2 7 + unat (bandwidth_cost None) \<le>
     unat (aw_balance (compliant 200000)) \<and>
   unat (aw_balance (compliant 100000)) + unat (100000 :: u256) + unat (bandwidth_cost None) =
     unat (aw_balance (compliant 200000)) \<and>
   (compliant 100000)\<lparr>aw_balance := aw_balance (compliant 200000)\<rparr> = compliant 200000"
proof (rule pre_flight_accounting)
  show "pre_flight_execute (compliant 200000) (compliant 0) 21000 2 7 calm_velocity None =
      Ok (100000, compliant 100000)"
    by (simp add: pre_flight_compliant bandwidth_cost_def)
  show "unat (upfront_penalty (compliant 200000) (compliant 0) calm_velocity) +
      evm_cost 21000 2 7 + unat (bandwidth_cost None) < 2 ^ 256"
    by (simp add: compliant_penalty evm_cost_def bandwidth_cost_def)
qed

text \<open>An accepted call pays for its misalignment. Unless the escalation scalar is not a number,
  the penalty is at least 100000, with 1000000 more when the caller's jurisdictions do not
  subsume the contract's and 500000 more when their categories do not overlap; and neither
  account is frozen.\<close>

theorem pre_flight_penalty_floor:
  assumes "pre_flight_execute caller contract gl gp v vel req = Ok (p, caller')"
    and "gas_escalation_scalar vel \<noteq> NaN"
  shows "100000 * misalignment caller contract \<le> unat p \<and>
    aw_q0 caller AND 1 = 0 \<and> aw_q0 contract AND 1 = 0"
proof -
  have "p = upfront_penalty caller contract vel" "aw_q0 caller AND 1 = 0" "aw_q0 contract AND 1 = 0"
    using assms(1) by (auto simp: pre_flight_execute_def Let_def split: if_splits)
  with upfront_penalty_ge [OF assms(2)] show ?thesis by simp
qed

lemma pre_flight_penalty_floor_witness:
  "100000 * misalignment (compliant 200000) (compliant 0) \<le> unat (100000 :: u256) \<and>
   aw_q0 (compliant 200000) AND 1 = 0 \<and> aw_q0 (compliant 0) AND 1 = 0"
proof (rule pre_flight_penalty_floor)
  show "pre_flight_execute (compliant 200000) (compliant 0) 21000 2 7 calm_velocity None =
      Ok (100000, compliant 100000)"
    by (simp add: pre_flight_compliant bandwidth_cost_def)
  show "gas_escalation_scalar calm_velocity \<noteq> NaN" by (simp add: calm_scalar)
qed

text \<open>The solvency check can be wrapped around. A caller with no balance who names a value of
  2 ^ 256 less the penalty is accepted, and the burn leaves it with that value as balance.\<close>

theorem pre_flight_wraps:
  "pre_flight_execute (compliant 0) (compliant 0) 0 0 (- 100000) calm_velocity None =
     Ok (100000, compliant (- 100000)) \<and> unat (- 100000 :: u256) = 2 ^ 256 - 100000"
  by (simp add: pre_flight_compliant bandwidth_cost_def)

definition one_validator :: validator_registry where
  "one_validator = add_mock_validator ''v'' 7 1 validator_registry_default"

lemma one_validator_cfg: "vr_dynamic_cfg one_validator = dynamic_config_default"
  by (simp add: one_validator_def add_mock_validator_def validator_registry_default_def validator_registry_new_def)

lemma one_validator_active: "get_type_by_address one_validator 7 = Some HardwareTEE"
  by (simp add: one_validator_def add_mock_validator_def get_type_by_address_def)

lemma signed_block_accepted:
  "validate_implicit_state_block sample_crypto one_validator 5 [1] [replicate 65 1] 10 =
     Ok (transition_hash sample_crypto 5 [1])"
proof -
  have "hd (take 4 (replicate 65 1)) \<noteq> hd envelope_magic"
    by (simp add: envelope_magic_def hd_replicate)
  then have "take 4 (replicate 65 1) \<noteq> envelope_magic" by metis
  then have "unpack_pq_envelope (replicate 65 1) = Err NotAnEnvelope"
    by (simp add: unpack_pq_envelope_def)
  moreover have "profile_or_ethereum (active_profile_name dynamic_config_default 10) = ETHEREUM"
    by (simp add: active_profile_name_def dynamic_config_default_def profile_or_ethereum_ethereum)
  moreover have "zero_latency_quantum_trigger dynamic_config_default = False"
    by (simp add: dynamic_config_default_def)
  ultimately show ?thesis
    by (simp add: validate_implicit_state_block_def one_validator_cfg one_validator_active
        check_block_signature_def sample_crypto_def ETHEREUM_def Let_def)
qed



text \<open>A witness record survives its SCALE codec: decoding what was encoded, whatever follows it,
  returns the record and the rest of the input, for codecs that decode the primitives they
  encode and code shorter than the longest vector they can write.\<close>

theorem account_witness_roundtrip:
  assumes "scale_ok sl" and "length (aw_code w) < vec_bound"
  shows "account_witness_decode sl (account_witness_encode sl w @ rest) = Some (w, rest)"
  by (rule account_witness_decode_encode [OF assms])

lemma account_witness_roundtrip_witness:
  "account_witness_decode scale_ref (account_witness_encode scale_ref (compliant 5) @ [1, 2]) =
     Some (compliant 5, [1, 2])"
  by (rule account_witness_roundtrip [OF scale_ref_ok]) (simp add: compliant_def vec_bound_def)

end
