(* ===== verification/Parallel.thy ===== *)
theory Parallel
  imports Stateless
begin

text \<open>
  The parallel execution engines (\<open>crates/consensus/src/parallel.rs\<close>): the conflict wave
  partitioner, the wave executor and its tracing variant Grevm, and the optimistic executor
  Pevm with its multi-version store. Sets and maps of an access list are their entries in
  iteration order. Threads only read a snapshot or take the lock once, so an interleaving is
  fixed by how many commits a thread sees; for Pevm this is the schedule argument.
  The partitioner's loop has no bound in the source and is a partial function.
\<close>

section \<open>Transactions\<close>

record tx_access_list =
  tx_index :: nat
  tx_sender :: address
  tx_recipient :: address
  tx_value :: u256
  tx_nonce :: u64
  read_addresses :: "address list"
  write_addresses :: "address list"
  read_slots :: "(address \<times> u256 list) list"
  write_slots :: "(address \<times> u256 list) list"

definition slot_keys :: "(address \<times> u256 list) list \<Rightarrow> (address \<times> u256) list" where
  "slot_keys entries = concat (map (\<lambda>(a, ss). map (Pair a) ss) entries)"

section \<open>The partitioner\<close>

text \<open>The accumulators of one pass of the \<open>while\<close> loop.\<close>

record wave_acc =
  cur_wave :: "tx_access_list list"
  processed :: "nat list"
  wave_writes :: "address list"
  wave_reads :: "address list"
  wave_write_slots :: "(address \<times> u256) list"
  wave_read_slots :: "(address \<times> u256) list"

definition address_conflict :: "wave_acc \<Rightarrow> tx_access_list \<Rightarrow> bool" where
  "address_conflict acc tx \<longleftrightarrow>
     (\<exists>a \<in> set (write_addresses tx). a \<in> set (wave_reads acc) \<or> a \<in> set (wave_writes acc)) \<or>
     (\<exists>a \<in> set (read_addresses tx). a \<in> set (wave_writes acc))"

definition slot_conflict :: "wave_acc \<Rightarrow> tx_access_list \<Rightarrow> bool" where
  "slot_conflict acc tx \<longleftrightarrow>
     (\<exists>k \<in> set (slot_keys (write_slots tx)).
        k \<in> set (wave_read_slots acc) \<or> k \<in> set (wave_write_slots acc)) \<or>
     (\<exists>k \<in> set (slot_keys (read_slots tx)). k \<in> set (wave_write_slots acc))"

definition add_to_wave :: "wave_acc \<Rightarrow> tx_access_list \<Rightarrow> wave_acc" where
  "add_to_wave acc tx =
     (if tx_index tx \<in> set (processed acc) then acc
      else if \<not> address_conflict acc tx \<and> \<not> slot_conflict acc tx then
        \<lparr>cur_wave = cur_wave acc @ [tx],
         processed = tx_index tx # processed acc,
         wave_writes = wave_writes acc @ write_addresses tx,
         wave_reads = wave_reads acc @ read_addresses tx,
         wave_write_slots = wave_write_slots acc @ slot_keys (write_slots tx),
         wave_read_slots = wave_read_slots acc @ slot_keys (read_slots tx)\<rparr>
      else acc)"

definition build_wave :: "tx_access_list list \<Rightarrow> nat list \<Rightarrow> wave_acc" where
  "build_wave access_lists finished =
     foldl add_to_wave
       \<lparr>cur_wave = [], processed = finished, wave_writes = [], wave_reads = [],
        wave_write_slots = [], wave_read_slots = []\<rparr> access_lists"

partial_function (option) waves_loop ::
  "tx_access_list list \<Rightarrow> nat list \<Rightarrow> tx_access_list list list \<Rightarrow> tx_access_list list list option" where
  "waves_loop access_lists finished waves =
     (if length finished < length access_lists then
        waves_loop access_lists (processed (build_wave access_lists finished))
          (waves @ [cur_wave (build_wave access_lists finished)])
      else Some waves)"

definition partition_waves :: "tx_access_list list \<Rightarrow> tx_access_list list list option" where
  "partition_waves access_lists = waves_loop access_lists [] []"

section \<open>One transaction on a snapshot\<close>

datatype exec_error =
    NonceMismatch address u64 u64
  | InsufficientBalance address
  | NoConvergence

definition account_default :: account_witness where
  "account_default = \<lparr>aw_balance = 0, aw_nonce = 0, aw_code_hash = 0, aw_code = [],
     aw_q0 = 0, aw_q1 = 0, aw_q2 = 0, aw_q3 = 0\<rparr>"

definition get_account :: "witness_database \<Rightarrow> address \<Rightarrow> account_witness" where
  "get_account db a = (case wdb_accounts db a of None \<Rightarrow> account_default | Some acc \<Rightarrow> acc)"

record wave_tx_result =
  res_sender :: address
  res_sender_acc :: account_witness
  res_recipient :: address
  res_recipient_acc :: account_witness
  res_write_slots :: "((address \<times> u256) \<times> u256) list"

definition slot_value :: "tx_access_list \<Rightarrow> u256 \<Rightarrow> u256" where
  "slot_value tx slot = slot + ucast (word_of_nat (tx_index tx) + 1 :: u64)"

definition slot_writes :: "tx_access_list \<Rightarrow> ((address \<times> u256) \<times> u256) list" where
  "slot_writes tx = map (\<lambda>(a, s). ((a, s), slot_value tx s)) (slot_keys (write_slots tx))"

text \<open>
  The transition all three engines share: the checks on the sender read, the debit with the
  nonce increment, the credit of the recipient as it was read.
\<close>

definition transfer ::
  "tx_access_list \<Rightarrow> account_witness \<Rightarrow> account_witness
    \<Rightarrow> (account_witness \<times> account_witness, exec_error) outcome" where
  "transfer tx sender_acc recipient_acc =
     (if aw_nonce sender_acc \<noteq> tx_nonce tx then
        Err (NonceMismatch (tx_sender tx) (tx_nonce tx) (aw_nonce sender_acc))
      else if aw_balance sender_acc < tx_value tx then Err (InsufficientBalance (tx_sender tx))
      else Ok (sender_acc\<lparr>aw_balance := aw_balance sender_acc - tx_value tx,
                         aw_nonce := aw_nonce sender_acc + 1\<rparr>,
               recipient_acc\<lparr>aw_balance := aw_balance recipient_acc + tx_value tx\<rparr>))"

definition wave_tx :: "witness_database \<Rightarrow> tx_access_list \<Rightarrow> (wave_tx_result, exec_error) outcome" where
  "wave_tx snapshot tx =
     and_then (transfer tx (get_account snapshot (tx_sender tx)) (get_account snapshot (tx_recipient tx)))
       (\<lambda>(s, r). Ok \<lparr>res_sender = tx_sender tx, res_sender_acc = s,
                     res_recipient = tx_recipient tx, res_recipient_acc = r,
                     res_write_slots = slot_writes tx\<rparr>)"

definition write_slot ::
  "witness_database \<Rightarrow> (address \<times> u256) \<times> u256 \<Rightarrow> witness_database" where
  "write_slot db w =
     (case w of ((a, slot), val) \<Rightarrow>
        db\<lparr>wdb_storage := (wdb_storage db)(a \<mapsto>
          ((case wdb_storage db a of None \<Rightarrow> Map.empty | Some slots \<Rightarrow> slots)(slot \<mapsto> val)))\<rparr>)"

definition apply_result :: "witness_database \<Rightarrow> wave_tx_result \<Rightarrow> witness_database" where
  "apply_result db res =
     foldl write_slot
       (db\<lparr>wdb_accounts := (wdb_accounts db)(res_sender res \<mapsto> res_sender_acc res,
                                              res_recipient res \<mapsto> res_recipient_acc res)\<rparr>)
       (res_write_slots res)"

section \<open>The wave executor\<close>

fun join_threads ::
  "witness_database \<Rightarrow> tx_access_list list \<Rightarrow> (wave_tx_result list, exec_error) outcome" where
  "join_threads snapshot [] = Ok []"
| "join_threads snapshot (tx # txs) =
     and_then (wave_tx snapshot tx) (\<lambda>r. and_then (join_threads snapshot txs) (\<lambda>rs. Ok (r # rs)))"

definition exec_wave ::
  "witness_database \<Rightarrow> tx_access_list list \<Rightarrow> (witness_database, exec_error) outcome" where
  "exec_wave db wave = and_then (join_threads db wave) (\<lambda>rs. Ok (foldl apply_result db rs))"

text \<open>The database is updated in place, so an error leaves the earlier waves applied.\<close>

fun exec_waves ::
  "witness_database \<Rightarrow> tx_access_list list list
    \<Rightarrow> witness_database \<times> (unit, exec_error) outcome" where
  "exec_waves db [] = (db, Ok ())"
| "exec_waves db (w # ws) =
     (case exec_wave db w of
        Ok db' \<Rightarrow> exec_waves db' ws
      | Err e \<Rightarrow> (db, Err e)
      | Panic \<Rightarrow> (db, Panic))"

definition wave_execute ::
  "tx_access_list list \<Rightarrow> witness_database
    \<Rightarrow> (witness_database \<times> (unit, exec_error) outcome) option" where
  "wave_execute access_lists db = map_option (exec_waves db) (partition_waves access_lists)"

section \<open>The tracing executor\<close>

datatype trace_entry =
    ReadAccount address u256 u64
  | WriteSender address u256 u64
  | WriteRecipient address u256
  | WriteStorage address u256 u256

definition grevm_tx ::
  "witness_database \<Rightarrow> tx_access_list
    \<Rightarrow> (trace_entry list \<times> wave_tx_result, exec_error) outcome" where
  "grevm_tx snapshot tx =
     (let s0 = get_account snapshot (tx_sender tx) in
      if aw_nonce s0 \<noteq> tx_nonce tx then
        Err (NonceMismatch (tx_sender tx) (tx_nonce tx) (aw_nonce s0))
      else if aw_balance s0 < tx_value tx then Err (InsufficientBalance (tx_sender tx))
      else
        (let s = s0\<lparr>aw_balance := aw_balance s0 - tx_value tx, aw_nonce := aw_nonce s0 + 1\<rparr>;
             r0 = get_account snapshot (tx_recipient tx);
             r = r0\<lparr>aw_balance := aw_balance r0 + tx_value tx\<rparr>
         in Ok ([ReadAccount (tx_sender tx) (aw_balance s0) (aw_nonce s0),
                 WriteSender (tx_sender tx) (aw_balance s) (aw_nonce s),
                 WriteRecipient (tx_recipient tx) (aw_balance r)] @
                map (\<lambda>((a, slot), v). WriteStorage a slot v) (slot_writes tx),
                \<lparr>res_sender = tx_sender tx, res_sender_acc = s,
                 res_recipient = tx_recipient tx, res_recipient_acc = r,
                 res_write_slots = slot_writes tx\<rparr>)))"

fun grevm_join ::
  "witness_database \<Rightarrow> tx_access_list list
    \<Rightarrow> ((trace_entry list \<times> wave_tx_result) list, exec_error) outcome" where
  "grevm_join snapshot [] = Ok []"
| "grevm_join snapshot (tx # txs) =
     and_then (grevm_tx snapshot tx) (\<lambda>r. and_then (grevm_join snapshot txs) (\<lambda>rs. Ok (r # rs)))"

fun grevm_waves ::
  "witness_database \<Rightarrow> trace_entry list \<Rightarrow> tx_access_list list list
    \<Rightarrow> witness_database \<times> (trace_entry list, exec_error) outcome" where
  "grevm_waves db trace [] = (db, Ok trace)"
| "grevm_waves db trace (w # ws) =
     (case grevm_join db w of
        Ok rs \<Rightarrow> grevm_waves (foldl apply_result db (map snd rs)) (trace @ concat (map fst rs)) ws
      | Err e \<Rightarrow> (db, Err e)
      | Panic \<Rightarrow> (db, Panic))"

definition grevm_execute ::
  "tx_access_list list \<Rightarrow> witness_database
    \<Rightarrow> (witness_database \<times> (trace_entry list, exec_error) outcome) option" where
  "grevm_execute access_lists db = map_option (grevm_waves db []) (partition_waves access_lists)"

section \<open>The multi-version store\<close>

text \<open>\<open>usize::MAX\<close>, the version of the backing database, is \<open>None\<close>.\<close>

record mvcc_state =
  mv_accounts :: "address \<Rightarrow> (nat \<times> account_witness) list"
  mv_storage :: "address \<times> u256 \<Rightarrow> (nat \<times> u256) list"

definition mvcc_default :: mvcc_state where
  "mvcc_default = \<lparr>mv_accounts = \<lambda>_. [], mv_storage = \<lambda>_. []\<rparr>"

text \<open>The newest version by a writer below the index, searched from the end.\<close>

definition latest_below :: "nat \<Rightarrow> (nat \<times> 'a) list \<Rightarrow> (nat \<times> 'a) option" where
  "latest_below i versions = find (\<lambda>(w, _). w < i) (rev versions)"

definition read_account ::
  "mvcc_state \<Rightarrow> nat \<Rightarrow> address \<Rightarrow> witness_database \<Rightarrow> nat option \<times> account_witness" where
  "read_account mv i a backing =
     (case latest_below i (mv_accounts mv a) of
        Some (w, acc) \<Rightarrow> (Some w, acc)
      | None \<Rightarrow> (None, get_account backing a))"

definition read_storage ::
  "mvcc_state \<Rightarrow> nat \<Rightarrow> address \<Rightarrow> u256 \<Rightarrow> witness_database \<Rightarrow> nat option \<times> u256" where
  "read_storage mv i a slot backing =
     (case latest_below i (mv_storage mv (a, slot)) of
        Some (w, v) \<Rightarrow> (Some w, v)
      | None \<Rightarrow> (None, wdb_read_storage backing a slot))"

text \<open>\<open>versions[pos] = ..\<close> when the writer has a version, otherwise push and stable sort.\<close>

fun replace_version :: "nat \<Rightarrow> 'a \<Rightarrow> (nat \<times> 'a) list \<Rightarrow> (nat \<times> 'a) list option" where
  "replace_version i x [] = None"
| "replace_version i x ((w, y) # vs) =
     (if w = i then Some ((i, x) # vs) else map_option (Cons (w, y)) (replace_version i x vs))"

definition put_version :: "nat \<Rightarrow> 'a \<Rightarrow> (nat \<times> 'a) list \<Rightarrow> (nat \<times> 'a) list" where
  "put_version i x versions =
     (case replace_version i x versions of
        Some versions' \<Rightarrow> versions'
      | None \<Rightarrow> sort_key fst (versions @ [(i, x)]))"

definition write_account :: "nat \<Rightarrow> address \<Rightarrow> account_witness \<Rightarrow> mvcc_state \<Rightarrow> mvcc_state" where
  "write_account i a acc mv =
     mv\<lparr>mv_accounts := (mv_accounts mv)(a := put_version i acc (mv_accounts mv a))\<rparr>"

definition write_storage :: "nat \<Rightarrow> address \<times> u256 \<Rightarrow> u256 \<Rightarrow> mvcc_state \<Rightarrow> mvcc_state" where
  "write_storage i k v mv =
     mv\<lparr>mv_storage := (mv_storage mv)(k := put_version i v (mv_storage mv k))\<rparr>"

definition clear_writes :: "nat \<Rightarrow> mvcc_state \<Rightarrow> mvcc_state" where
  "clear_writes i mv =
     \<lparr>mv_accounts = (\<lambda>a. [v\<leftarrow>mv_accounts mv a. fst v \<noteq> i]),
      mv_storage = (\<lambda>k. [v\<leftarrow>mv_storage mv k. fst v \<noteq> i])\<rparr>"

section \<open>The optimistic executor\<close>

record pevm_result =
  pr_read_accounts :: "(address \<times> nat option) list"
  pr_read_storage :: "((address \<times> u256) \<times> nat option) list"
  pr_sender_acc :: account_witness
  pr_recipient_acc :: account_witness

text \<open>A thread: all its reads happen under one lock, on the store \<open>mv\<close>.\<close>

definition pevm_thread ::
  "witness_database \<Rightarrow> mvcc_state \<Rightarrow> tx_access_list \<Rightarrow> (pevm_result, exec_error) outcome" where
  "pevm_thread backing mv tx =
     (let i = tx_index tx;
          (sender_v, sender_acc) = read_account mv i (tx_sender tx) backing;
          (recipient_v, recipient_acc) = read_account mv i (tx_recipient tx) backing;
          read_accounts =
            (tx_sender tx, sender_v) # (tx_recipient tx, recipient_v) #
            map (\<lambda>a. (a, fst (read_account mv i a backing)))
              [a\<leftarrow>read_addresses tx. a \<noteq> tx_sender tx \<and> a \<noteq> tx_recipient tx];
          read_storage =
            map (\<lambda>(a, s). ((a, s), fst (read_storage mv i a s backing))) (slot_keys (read_slots tx))
      in and_then (transfer tx sender_acc recipient_acc)
           (\<lambda>(s, r). Ok \<lparr>pr_read_accounts = read_accounts, pr_read_storage = read_storage,
                         pr_sender_acc = s, pr_recipient_acc = r\<rparr>))"

definition pevm_conflict ::
  "witness_database \<Rightarrow> mvcc_state \<Rightarrow> nat \<Rightarrow> pevm_result \<Rightarrow> bool" where
  "pevm_conflict backing mv i res \<longleftrightarrow>
     (\<exists>(a, v) \<in> set (pr_read_accounts res). fst (read_account mv i a backing) \<noteq> v) \<or>
     (\<exists>((a, s), v) \<in> set (pr_read_storage res). fst (read_storage mv i a s backing) \<noteq> v)"

definition pevm_commit :: "tx_access_list \<Rightarrow> pevm_result \<Rightarrow> mvcc_state \<Rightarrow> mvcc_state" where
  "pevm_commit tx res mv =
     foldl (\<lambda>mv (k, v). write_storage (tx_index tx) k v mv)
       (write_account (tx_index tx) (tx_recipient tx) (pr_recipient_acc res)
         (write_account (tx_index tx) (tx_sender tx) (pr_sender_acc res) mv))
       (slot_writes tx)"

text \<open>
  One round over the transactions not yet executed. The results are joined in order; when
  the \<open>n\<close>-th is joined, \<open>hist\<close> holds the stores after each of the \<open>n\<close> joins before it, and
  its thread has read one of them. The schedule says which: \<open>sched n\<close>, at most \<open>n\<close>.
  The result: the store and the transactions to execute again.
\<close>

fun pevm_round ::
  "(nat \<Rightarrow> nat) \<Rightarrow> witness_database \<Rightarrow> mvcc_state list \<Rightarrow> tx_access_list list
    \<Rightarrow> (mvcc_state \<times> tx_access_list list, exec_error) outcome" where
  "pevm_round sched backing hist [] = Ok (last hist, [])"
| "pevm_round sched backing hist (tx # txs) =
     (let n = length hist - 1; mv = last hist in
      and_then (pevm_thread backing (hist ! min (sched n) n) tx) (\<lambda>res.
        if pevm_conflict backing mv (tx_index tx) res then
          and_then (pevm_round sched backing (hist @ [clear_writes (tx_index tx) mv]) txs)
            (\<lambda>(mv', again). Ok (mv', tx # again))
        else pevm_round sched backing (hist @ [pevm_commit tx res mv]) txs))"

text \<open>The retry loop, counting the rounds left.\<close>

fun pevm_rounds ::
  "(nat \<Rightarrow> nat \<Rightarrow> nat) \<Rightarrow> witness_database \<Rightarrow> nat \<Rightarrow> mvcc_state \<Rightarrow> tx_access_list list
    \<Rightarrow> (mvcc_state, exec_error) outcome" where
  "pevm_rounds sched backing 0 mv pending = Ok mv"
| "pevm_rounds sched backing (Suc left) mv pending =
     and_then (pevm_round (sched left) backing [mv] pending) (\<lambda>(mv', again).
       if again = [] then Ok mv'
       else if left = 0 then Err NoConvergence
       else pevm_rounds sched backing left mv' again)"

definition max_retries :: nat where
  "max_retries = 20"

definition finalize_mvcc :: "mvcc_state \<Rightarrow> witness_database \<Rightarrow> witness_database" where
  "finalize_mvcc mv db =
     db\<lparr>wdb_accounts := (\<lambda>a. if mv_accounts mv a = [] then wdb_accounts db a
                             else Some (snd (last (mv_accounts mv a)))),
       wdb_storage := (\<lambda>a.
         let written = (\<lambda>s. if mv_storage mv (a, s) = [] then None
                            else Some (snd (last (mv_storage mv (a, s)))))
         in if written = Map.empty then wdb_storage db a
            else Some ((case wdb_storage db a of None \<Rightarrow> Map.empty | Some slots \<Rightarrow> slots) ++ written))\<rparr>"

definition pevm_execute ::
  "(nat \<Rightarrow> nat \<Rightarrow> nat) \<Rightarrow> tx_access_list list \<Rightarrow> witness_database
    \<Rightarrow> (witness_database, exec_error) outcome" where
  "pevm_execute sched access_lists db =
     and_then (pevm_rounds sched db max_retries mvcc_default access_lists)
       (\<lambda>mv. Ok (finalize_mvcc mv db))"

section \<open>Selection\<close>

datatype engine = WaveEngine | PevmEngine | GrevmEngine

definition get_executor :: "string \<Rightarrow> engine" where
  "get_executor engine_name =
     (let n = to_lowercase engine_name in
      if n \<in> {''pevm'', ''block_stm''} then PevmEngine
      else if n \<in> {''grevm'', ''zk_parallel''} then GrevmEngine
      else WaveEngine)"

fun engine_name :: "engine \<Rightarrow> string" where
  "engine_name WaveEngine = ''wave-static''"
| "engine_name PevmEngine = ''pevm-mvcc''"
| "engine_name GrevmEngine = ''grevm-zk''"

definition enforce_access_list_stub :: "bool \<Rightarrow> (unit, string) outcome" where
  "enforce_access_list_stub has_access_list =
     (if has_access_list then Ok ()
      else Err ''Transaction must declare an EIP-2930 access list for parallel execution'')"

section \<open>The sequential specification\<close>

fun seq_run ::
  "tx_access_list list \<Rightarrow> witness_database \<Rightarrow> (witness_database, exec_error) outcome" where
  "seq_run [] db = Ok db"
| "seq_run (tx # txs) db = and_then (wave_tx db tx) (\<lambda>r. seq_run txs (apply_result db r))"

end
