(* ===== verification/Parallel_Wave.thy ===== *)
theory Parallel_Wave
  imports Parallel "HOL-Library.Multiset"
begin

text \<open>
  The wave partitioner and the wave executors. The partitioner returns exactly when the
  transaction indices are distinct; then every transaction is in one wave and no two of a
  wave conflict. When the access lists declare what a transfer writes, a wave run in
  parallel is the sequential run of the wave, so the whole execution is the sequential run
  of the concatenated waves. Grevm computes the same database. Transfers conserve the total
  balance unless sender and recipient are the same account.
\<close>

section \<open>Conflicts\<close>

definition address_conflicts :: "tx_access_list \<Rightarrow> tx_access_list \<Rightarrow> bool" where
  "address_conflicts t u \<longleftrightarrow>
     set (write_addresses u) \<inter> (set (read_addresses t) \<union> set (write_addresses t)) \<noteq> {} \<or>
     set (read_addresses u) \<inter> set (write_addresses t) \<noteq> {}"

definition slot_conflicts :: "tx_access_list \<Rightarrow> tx_access_list \<Rightarrow> bool" where
  "slot_conflicts t u \<longleftrightarrow>
     set (slot_keys (write_slots u)) \<inter>
       (set (slot_keys (read_slots t)) \<union> set (slot_keys (write_slots t))) \<noteq> {} \<or>
     set (slot_keys (read_slots u)) \<inter> set (slot_keys (write_slots t)) \<noteq> {}"

definition conflicts :: "tx_access_list \<Rightarrow> tx_access_list \<Rightarrow> bool" where
  "conflicts t u \<longleftrightarrow> address_conflicts t u \<or> slot_conflicts t u"

lemma conflicts_sym: "conflicts t u \<longleftrightarrow> conflicts u t"
  unfolding conflicts_def address_conflicts_def slot_conflicts_def by blast

definition conflict_free :: "tx_access_list list \<Rightarrow> bool" where
  "conflict_free w \<longleftrightarrow> sorted_wrt (\<lambda>t u. \<not> conflicts t u) w"

text \<open>The accumulators of a pass describe the wave collected so far.\<close>

definition acc_ok :: "nat list \<Rightarrow> wave_acc \<Rightarrow> bool" where
  "acc_ok finished acc \<longleftrightarrow>
     processed acc = rev (map tx_index (cur_wave acc)) @ finished \<and>
     wave_writes acc = concat (map write_addresses (cur_wave acc)) \<and>
     wave_reads acc = concat (map read_addresses (cur_wave acc)) \<and>
     wave_write_slots acc = concat (map (slot_keys \<circ> write_slots) (cur_wave acc)) \<and>
     wave_read_slots acc = concat (map (slot_keys \<circ> read_slots) (cur_wave acc)) \<and>
     distinct (map tx_index (cur_wave acc) @ finished) \<and> conflict_free (cur_wave acc)"

lemma acc_conflict_iff:
  "acc_ok finished acc \<Longrightarrow>
     address_conflict acc tx \<or> slot_conflict acc tx \<longleftrightarrow> (\<exists>t \<in> set (cur_wave acc). conflicts t tx)"
proof -
  assume "acc_ok finished acc"
  then have sets: "set (wave_writes acc) = (\<Union>t \<in> set (cur_wave acc). set (write_addresses t))"
    "set (wave_reads acc) = (\<Union>t \<in> set (cur_wave acc). set (read_addresses t))"
    "set (wave_write_slots acc) = (\<Union>t \<in> set (cur_wave acc). set (slot_keys (write_slots t)))"
    "set (wave_read_slots acc) = (\<Union>t \<in> set (cur_wave acc). set (slot_keys (read_slots t)))"
    by (simp_all add: acc_ok_def)
  have "address_conflict acc tx \<longleftrightarrow> (\<exists>t \<in> set (cur_wave acc). address_conflicts t tx)"
    unfolding address_conflict_def sets address_conflicts_def by blast
  moreover have "slot_conflict acc tx \<longleftrightarrow> (\<exists>t \<in> set (cur_wave acc). slot_conflicts t tx)"
    unfolding slot_conflict_def sets slot_conflicts_def by blast
  ultimately show ?thesis unfolding conflicts_def by blast
qed

lemma acc_ok_add: "acc_ok finished acc \<Longrightarrow> acc_ok finished (add_to_wave acc tx)"
proof (cases "tx_index tx \<in> set (processed acc) \<or> address_conflict acc tx \<or> slot_conflict acc tx")
  case False
  assume ok: "acc_ok finished acc"
  with False have "\<forall>t \<in> set (cur_wave acc). \<not> conflicts t tx" using acc_conflict_iff by blast
  with ok False show ?thesis
    by (simp add: acc_ok_def add_to_wave_def conflict_free_def sorted_wrt_append)
qed (auto simp: add_to_wave_def)

lemma acc_ok_fold: "acc_ok finished acc \<Longrightarrow> acc_ok finished (foldl add_to_wave acc txs)"
  by (induction txs arbitrary: acc) (simp_all add: acc_ok_add)

lemma set_cur_wave_fold:
  "set (cur_wave (foldl add_to_wave acc txs)) \<subseteq> set (cur_wave acc) \<union> set txs"
proof (induction txs arbitrary: acc)
  case (Cons t txs)
  have "set (cur_wave (add_to_wave acc t)) \<subseteq> set (cur_wave acc) \<union> {t}"
    by (auto simp: add_to_wave_def)
  with Cons.IH [of "add_to_wave acc t"] show ?case by auto
qed simp

lemma cur_wave_fold_mono:
  "cur_wave acc \<noteq> [] \<Longrightarrow> cur_wave (foldl add_to_wave acc txs) \<noteq> []"
  by (induction txs arbitrary: acc) (simp_all add: add_to_wave_def)

lemma cur_wave_progress:
  assumes "acc_ok finished acc" and "cur_wave acc = []"
    and "tx \<in> set txs" and "tx_index tx \<notin> set finished"
  shows "cur_wave (foldl add_to_wave acc txs) \<noteq> []"
  using assms
proof (induction txs)
  case (Cons t txs)
  show ?case
  proof (cases "tx_index t \<in> set (processed acc)")
    case True
    with Cons.prems have "tx \<noteq> t" by (auto simp: acc_ok_def)
    with True Cons show ?thesis by (simp add: add_to_wave_def)
  next
    case False
    with Cons.prems(1,2) have "cur_wave (add_to_wave acc t) \<noteq> []"
      using acc_conflict_iff [of finished acc t] by (simp add: add_to_wave_def)
    then show ?thesis by (simp add: cur_wave_fold_mono)
  qed
qed simp

section \<open>The loop\<close>

lemma build_wave_ok: "distinct finished \<Longrightarrow> acc_ok finished (build_wave txs finished)"
  unfolding build_wave_def by (rule acc_ok_fold) (simp add: acc_ok_def conflict_free_def)

lemma build_wave_subset: "set (cur_wave (build_wave txs finished)) \<subseteq> set txs"
  unfolding build_wave_def using set_cur_wave_fold by fastforce

lemma build_wave_progress:
  "distinct finished \<Longrightarrow> tx \<in> set txs \<Longrightarrow> tx_index tx \<notin> set finished
    \<Longrightarrow> cur_wave (build_wave txs finished) \<noteq> []"
  unfolding build_wave_def
  by (rule cur_wave_progress) (simp_all add: acc_ok_def conflict_free_def)

lemma processed_build_wave:
  "distinct finished \<Longrightarrow> processed (build_wave txs finished) =
     rev (map tx_index (cur_wave (build_wave txs finished))) @ finished"
  using build_wave_ok by (simp add: acc_ok_def)

text \<open>One wave that is not the last: it holds unprocessed transactions and processes exactly them.\<close>

lemma next_wave:
  assumes "distinct (map tx_index txs)" and "distinct finished" and "set finished \<subseteq> tx_index ` set txs"
    and "length finished < length txs"
  shows "cur_wave (build_wave txs finished) \<noteq> []" "conflict_free (cur_wave (build_wave txs finished))"
    "set (cur_wave (build_wave txs finished)) \<subseteq> set txs"
    "processed (build_wave txs finished) = rev (map tx_index (cur_wave (build_wave txs finished))) @ finished"
    "distinct (processed (build_wave txs finished))"
    "set (processed (build_wave txs finished)) \<subseteq> tx_index ` set txs"
    "length finished < length (processed (build_wave txs finished))"
proof -
  let ?b = "build_wave txs finished"
  have "set finished \<noteq> tx_index ` set txs"
    using assms(4) distinct_card [OF assms(1)] distinct_card [OF assms(2)] by auto
  with assms(3) obtain tx where "tx \<in> set txs" "tx_index tx \<notin> set finished" by auto
  with assms(2) show ne: "cur_wave ?b \<noteq> []" by (rule build_wave_progress)
  have ok: "acc_ok finished ?b" by (rule build_wave_ok [OF assms(2)])
  then show "conflict_free (cur_wave ?b)" "distinct (processed ?b)"
    by (simp_all add: acc_ok_def Int_commute)
  show "set (cur_wave ?b) \<subseteq> set txs" by (rule build_wave_subset)
  show p: "processed ?b = rev (map tx_index (cur_wave ?b)) @ finished"
    by (rule processed_build_wave [OF assms(2)])
  show "set (processed ?b) \<subseteq> tx_index ` set txs"
    using build_wave_subset [of txs finished] assms(3) by (auto simp: p)
  show "length finished < length (processed ?b)" using ne by (simp add: p)
qed

lemma waves_loop_returns:
  assumes "distinct (map tx_index txs)" and "distinct finished"
    and "set finished \<subseteq> tx_index ` set txs"
  shows "\<exists>ws'. waves_loop txs finished ws = Some (ws @ ws') \<and>
    (\<forall>w \<in> set ws'. w \<noteq> [] \<and> conflict_free w \<and> set w \<subseteq> set txs) \<and>
    distinct (map tx_index (concat ws')) \<and>
    tx_index ` set (concat ws') = tx_index ` set txs - set finished"
  using assms(2,3)
proof (induction "length txs - length finished" arbitrary: finished ws rule: less_induct)
  case less
  let ?b = "build_wave txs finished"
  show ?case
  proof (cases "length finished < length txs")
    case False
    have "card (set finished) \<le> card (tx_index ` set txs)"
      using less.prems(2) by (simp add: card_mono)
    then have "set finished = tx_index ` set txs"
      using less.prems(2) False distinct_card [OF less.prems(1)] distinct_card [OF assms(1)]
      by (intro card_subset_eq) simp_all
    with False show ?thesis by (subst waves_loop.simps) simp
  next
    case True
    note w = next_wave [OF assms(1) less.prems True]
    from True w(7) have "length txs - length (processed ?b) < length txs - length finished" by simp
    from less.hyps [OF this w(5,6), of "ws @ [cur_wave ?b]"] obtain ws' where ws':
      "waves_loop txs (processed ?b) (ws @ [cur_wave ?b]) = Some ((ws @ [cur_wave ?b]) @ ws')"
      "\<forall>w \<in> set ws'. w \<noteq> [] \<and> conflict_free w \<and> set w \<subseteq> set txs" "distinct (map tx_index (concat ws'))"
      "tx_index ` set (concat ws') = tx_index ` set txs - set (processed ?b)" by blast
    have "waves_loop txs finished ws = Some (ws @ (cur_wave ?b # ws'))"
      using True ws'(1) by (subst waves_loop.simps) simp
    moreover have "\<forall>w \<in> set (cur_wave ?b # ws'). w \<noteq> [] \<and> conflict_free w \<and> set w \<subseteq> set txs"
      using ws'(2) w(1-3) by simp
    moreover have cur: "distinct (map tx_index (cur_wave ?b))" "tx_index ` set (cur_wave ?b) \<inter> set finished = {}"
      using w(5) by (auto simp: w(4))
    have "tx_index ` set (cur_wave ?b) \<inter> tx_index ` set (concat ws') = {}"
      unfolding ws'(4) by (auto simp: w(4))
    then have "distinct (map tx_index (concat (cur_wave ?b # ws')))"
      using ws'(3) cur(1) by (simp only: concat.simps map_append distinct_append set_map simp_thms)
    moreover have "tx_index ` set (concat (cur_wave ?b # ws')) = tx_index ` set txs - set finished"
      using cur(2) image_mono [OF w(3), of tx_index]
      by (simp only: concat.simps set_append image_Un ws'(4) w(4) set_rev set_map) blast
    ultimately show ?thesis by blast
  qed
qed

lemma partition_waves_returns:
  assumes "distinct (map tx_index txs)"
  obtains ws where "partition_waves txs = Some ws" and "mset (concat ws) = mset txs"
    and "\<forall>w \<in> set ws. w \<noteq> [] \<and> conflict_free w"
proof -
  from waves_loop_returns [OF assms, of "[]" "[]"] obtain ws where
    ws: "waves_loop txs [] [] = Some ws" "\<forall>w \<in> set ws. w \<noteq> [] \<and> conflict_free w \<and> set w \<subseteq> set txs"
      "distinct (map tx_index (concat ws))" "tx_index ` set (concat ws) = tx_index ` set txs" by auto
  have inj: "inj_on tx_index (set txs)" using assms by (simp add: distinct_map)
  have sub: "set (concat ws) \<subseteq> set txs" using ws(2) by auto
  have "set (concat ws) = set txs"
    using inj_on_image_eq_iff [OF inj sub] ws(4) by blast
  then have "mset (concat ws) = mset txs"
    using assms ws(3) by (metis distinct_map set_eq_iff_mset_eq_distinct)
  with ws that show ?thesis by (auto simp: partition_waves_def)
qed

text \<open>With a repeated index the loop condition stays true for ever.\<close>

lemma waves_loop_diverges:
  assumes "waves_loop txs finished ws = Some r" and "distinct finished"
    and "set finished \<subseteq> tx_index ` set txs"
  shows "distinct (map tx_index txs)"
proof -
  from assms(1) have "distinct finished \<longrightarrow> set finished \<subseteq> tx_index ` set txs \<longrightarrow>
    distinct (map tx_index txs)"
  proof (rule waves_loop.raw_induct [rotated], intro impI)
    fix loop :: "tx_access_list list \<Rightarrow> nat list \<Rightarrow> tx_access_list list list \<Rightarrow> tx_access_list list list option"
      and txs finished ws r
    assume IH: "\<And>txs finished ws r. loop txs finished ws = Some r \<Longrightarrow>
        distinct finished \<longrightarrow> set finished \<subseteq> tx_index ` set txs \<longrightarrow> distinct (map tx_index txs)"
      and eq: "(if length finished < length txs then loop txs (processed (build_wave txs finished))
          (ws @ [cur_wave (build_wave txs finished)]) else Some ws) = Some r"
      and d: "distinct finished" and sub: "set finished \<subseteq> tx_index ` set txs"
    show "distinct (map tx_index txs)"
    proof (cases "length finished < length txs")
      case True
      have "acc_ok finished (build_wave txs finished)" by (rule build_wave_ok [OF d])
      then have "distinct (processed (build_wave txs finished))"
        by (simp add: acc_ok_def Int_commute)
      moreover have "set (processed (build_wave txs finished)) \<subseteq> tx_index ` set txs"
        using build_wave_subset [of txs finished] sub by (auto simp: processed_build_wave [OF d])
      moreover have "loop txs (processed (build_wave txs finished))
          (ws @ [cur_wave (build_wave txs finished)]) = Some r" using eq True by simp
      ultimately show ?thesis using IH by blast
    next
      case False
      have "length finished \<le> card (tx_index ` set txs)"
        using card_mono [OF _ sub] distinct_card [OF d] by simp
      moreover have "card (set (map tx_index txs)) \<le> length (map tx_index txs)" by (rule card_length)
      ultimately have "card (set (map tx_index txs)) = length (map tx_index txs)"
        using False by simp
      then show ?thesis by (rule card_distinct)
    qed
  qed
  with assms(2,3) show ?thesis by blast
qed

lemma partition_waves_Some: "partition_waves txs = Some ws \<Longrightarrow> distinct (map tx_index txs)"
  unfolding partition_waves_def using waves_loop_diverges [of txs "[]" "[]" ws] by simp

section \<open>Reading after writing\<close>

lemma wdb_accounts_write_slots [simp]:
  "wdb_accounts (foldl write_slot db ws) = wdb_accounts db"
  by (induction ws arbitrary: db) (auto simp: write_slot_def split: prod.splits)

lemma get_account_apply:
  "get_account (apply_result db res) a =
     (if a = res_recipient res then res_recipient_acc res
      else if a = res_sender res then res_sender_acc res else get_account db a)"
  by (simp add: apply_result_def get_account_def)

definition touched :: "tx_access_list \<Rightarrow> address set" where
  "touched tx = {tx_sender tx, tx_recipient tx}"

lemma wave_tx_cong:
  "(\<And>a. a \<in> touched tx \<Longrightarrow> get_account db a = get_account db' a) \<Longrightarrow> wave_tx db tx = wave_tx db' tx"
  by (simp add: wave_tx_def touched_def)

lemma wave_tx_res:
  "wave_tx db tx = Ok res \<Longrightarrow> res_sender res = tx_sender tx \<and> res_recipient res = tx_recipient tx"
  by (auto simp: wave_tx_def outcome_simps)

lemma wave_tx_not_Panic [simp]: "wave_tx db tx \<noteq> Panic"
  by (auto simp: wave_tx_def transfer_def outcome_simps)

lemma join_threads_after:
  assumes "wave_tx db tx = Ok res" and "\<And>u. u \<in> set txs \<Longrightarrow> touched tx \<inter> touched u = {}"
  shows "join_threads (apply_result db res) txs = join_threads db txs"
  using assms(2)
proof (induction txs)
  case (Cons u txs)
  have "touched tx \<inter> touched u = {}" using Cons.prems by simp
  then have "wave_tx (apply_result db res) u = wave_tx db u"
    using wave_tx_res [OF assms(1)] by (intro wave_tx_cong) (auto simp: get_account_apply touched_def)
  moreover have "join_threads (apply_result db res) txs = join_threads db txs"
    using Cons by simp
  ultimately show ?case by simp
qed simp

definition disjoint_wave :: "tx_access_list list \<Rightarrow> bool" where
  "disjoint_wave w \<longleftrightarrow> sorted_wrt (\<lambda>t u. touched t \<inter> touched u = {}) w"

lemma exec_wave_Cons:
  "exec_wave db (tx # txs) = and_then (wave_tx db tx) (\<lambda>res.
     and_then (join_threads db txs) (\<lambda>rs. Ok (foldl apply_result (apply_result db res) rs)))"
  by (cases "wave_tx db tx"; cases "join_threads db txs") (simp_all add: exec_wave_def)

text \<open>The wave run in parallel on one snapshot is the sequential run of the wave.\<close>

lemma exec_wave_seq: "disjoint_wave w \<Longrightarrow> exec_wave db w = seq_run w db"
proof (induction w arbitrary: db)
  case Nil
  then show ?case by (simp add: exec_wave_def)
next
  case (Cons tx txs)
  have IH: "exec_wave db' txs = seq_run txs db'" for db'
    using Cons by (simp add: disjoint_wave_def)
  show ?case
  proof (cases "wave_tx db tx")
    case (Ok res)
    have "join_threads (apply_result db res) txs = join_threads db txs"
      using Cons.prems by (intro join_threads_after [OF Ok]) (simp add: disjoint_wave_def)
    then have "exec_wave db (tx # txs) = exec_wave (apply_result db res) txs"
      by (simp add: Ok exec_wave_def and_then_assoc)
    then show ?thesis by (simp add: Ok IH)
  qed (simp_all add: exec_wave_Cons)
qed

lemma seq_run_append:
  "seq_run (xs @ ys) db = and_then (seq_run xs db) (seq_run ys)"
proof (induction xs arbitrary: db)
  case (Cons x xs)
  then show ?case by (cases "wave_tx db x") simp_all
qed simp

lemma seq_run_not_Panic [simp]: "seq_run txs db \<noteq> Panic"
  by (induction txs arbitrary: db) (auto simp: outcome_simps)

text \<open>The outcome of an engine that updates the database in place, as a result with the database.\<close>

fun seq_view :: "witness_database \<times> ('a, exec_error) outcome \<Rightarrow> (witness_database, exec_error) outcome" where
  "seq_view (db, Ok _) = Ok db"
| "seq_view (db, Err e) = Err e"
| "seq_view (db, Panic) = Panic"

lemma exec_waves_seq:
  "(\<And>w. w \<in> set ws \<Longrightarrow> disjoint_wave w) \<Longrightarrow> seq_view (exec_waves db ws) = seq_run (concat ws) db"
proof (induction ws arbitrary: db)
  case (Cons w ws)
  have "exec_wave db w = seq_run w db" using Cons.prems by (simp add: exec_wave_seq)
  with Cons show ?case by (cases "seq_run w db") (simp_all add: seq_run_append)
qed simp

text \<open>The lists declare what a transfer writes.\<close>

definition declares_transfer :: "tx_access_list \<Rightarrow> bool" where
  "declares_transfer tx \<longleftrightarrow> touched tx \<subseteq> set (write_addresses tx)"

lemma conflict_free_disjoint:
  "conflict_free w \<Longrightarrow> (\<And>t. t \<in> set w \<Longrightarrow> declares_transfer t) \<Longrightarrow> disjoint_wave w"
  unfolding conflict_free_def disjoint_wave_def
proof (induction w)
  case (Cons t w)
  have "touched t \<inter> touched u = {}" if "u \<in> set w" for u
  proof -
    have "\<not> address_conflicts t u" using Cons.prems(1) that by (simp add: conflicts_def)
    then have "set (write_addresses t) \<inter> set (write_addresses u) = {}"
      unfolding address_conflicts_def by blast
    moreover have "touched t \<subseteq> set (write_addresses t)" "touched u \<subseteq> set (write_addresses u)"
      using Cons.prems(2) that unfolding declares_transfer_def by simp_all
    ultimately show ?thesis by blast
  qed
  with Cons show ?case by simp
qed simp

section \<open>The tracing executor\<close>

lemma grevm_tx_wave_tx:
  "grevm_tx db tx = and_then (wave_tx db tx) (\<lambda>res. Ok (fst (ok_value (grevm_tx db tx)), res))"
  by (simp add: grevm_tx_def wave_tx_def transfer_def Let_def)

lemma grevm_join_join_threads:
  "join_threads db txs = and_then (grevm_join db txs) (\<lambda>rs. Ok (map snd rs))"
proof (induction txs)
  case (Cons tx txs)
  obtain tr where g: "grevm_tx db tx = and_then (wave_tx db tx) (\<lambda>res. Ok (tr, res))"
    using grevm_tx_wave_tx by blast
  show ?case
    by (simp add: g Cons and_then_assoc)
qed simp

lemma grevm_waves_exec_waves:
  "fst (grevm_waves db trace ws) = fst (exec_waves db ws) \<and>
     and_then (snd (grevm_waves db trace ws)) (\<lambda>_. Ok ()) = snd (exec_waves db ws)"
proof (induction ws arbitrary: db trace)
  case (Cons w ws)
  then show ?case
    by (cases "grevm_join db w") (simp_all add: exec_wave_def grevm_join_join_threads)
qed simp

section \<open>Balances\<close>

definition total_balance :: "witness_database \<Rightarrow> u256" where
  "total_balance db = (\<Sum>a \<in> UNIV. aw_balance (get_account db a))"

lemma sum_UNIV_upd:
  fixes f :: "address \<Rightarrow> u256"
  shows "(\<Sum>a \<in> UNIV. (f(x := v)) a) = (\<Sum>a \<in> UNIV. f a) - f x + v"
proof -
  have "(\<Sum>a \<in> UNIV. (f(x := v)) a) = v + (\<Sum>a \<in> UNIV - {x}. (f(x := v)) a)"
    by (subst sum.remove [of UNIV x]) simp_all
  moreover have "(\<Sum>a \<in> UNIV - {x}. (f(x := v)) a) = (\<Sum>a \<in> UNIV - {x}. f a)"
    by (rule sum.cong) simp_all
  moreover have "(\<Sum>a \<in> UNIV. f a) = f x + (\<Sum>a \<in> UNIV - {x}. f a)"
    by (subst sum.remove [of UNIV x]) simp_all
  ultimately show ?thesis by (simp add: algebra_simps)
qed

lemma total_apply:
  "total_balance (apply_result db res) =
     (if res_sender res = res_recipient res then
        total_balance db - aw_balance (get_account db (res_recipient res)) + aw_balance (res_recipient_acc res)
      else total_balance db - aw_balance (get_account db (res_sender res)) + aw_balance (res_sender_acc res)
        - aw_balance (get_account db (res_recipient res)) + aw_balance (res_recipient_acc res))"
proof -
  let ?f = "\<lambda>a. aw_balance (get_account db a)"
  have "(\<lambda>a. aw_balance (get_account (apply_result db res) a)) =
      (?f(res_sender res := aw_balance (res_sender_acc res)))
        (res_recipient res := aw_balance (res_recipient_acc res))"
    by (auto simp: get_account_apply)
  then show ?thesis
    unfolding total_balance_def by (simp only: sum_UNIV_upd) simp
qed

lemma total_wave_tx:
  assumes "wave_tx db tx = Ok res"
  shows "total_balance (apply_result db res) =
    (if tx_sender tx = tx_recipient tx then total_balance db + tx_value tx else total_balance db)"
proof -
  have "res_sender res = tx_sender tx" "res_recipient res = tx_recipient tx"
    "aw_balance (res_sender_acc res) = aw_balance (get_account db (tx_sender tx)) - tx_value tx"
    "aw_balance (res_recipient_acc res) = aw_balance (get_account db (tx_recipient tx)) + tx_value tx"
    using assms by (auto simp: wave_tx_def transfer_def outcome_simps split: if_splits)
  then show ?thesis by (simp add: total_apply)
qed

lemma total_seq_run:
  "(\<And>t. t \<in> set txs \<Longrightarrow> tx_sender t \<noteq> tx_recipient t) \<Longrightarrow> seq_run txs db = Ok db'
    \<Longrightarrow> total_balance db' = total_balance db"
proof (induction txs arbitrary: db)
  case (Cons t txs)
  then obtain res where res: "wave_tx db t = Ok res" "seq_run txs (apply_result db res) = Ok db'"
    by (auto simp: outcome_simps)
  with Cons have "total_balance db' = total_balance (apply_result db res)" by simp
  with total_wave_tx [OF res(1)] Cons.prems(1) show ?case by simp
qed simp

lemma total_exec_waves:
  "(\<And>w. w \<in> set ws \<Longrightarrow> disjoint_wave w) \<Longrightarrow>
    (\<And>w t. w \<in> set ws \<Longrightarrow> t \<in> set w \<Longrightarrow> tx_sender t \<noteq> tx_recipient t) \<Longrightarrow>
    total_balance (fst (exec_waves db ws)) = total_balance db"
proof (induction ws arbitrary: db)
  case (Cons w ws)
  have w: "exec_wave db w = seq_run w db" using Cons.prems(1) by (simp add: exec_wave_seq)
  show ?case
  proof (cases "seq_run w db")
    case (Ok db')
    have "total_balance db' = total_balance db"
      using Cons.prems(2) [of w] by (intro total_seq_run [OF _ Ok]) simp
    moreover have "total_balance (fst (exec_waves db' ws)) = total_balance db'"
      using Cons.prems by (intro Cons.IH) auto
    ultimately show ?thesis by (simp add: w Ok)
  qed (simp_all add: w)
qed simp

section \<open>Replaying a trace\<close>

definition replay_entry :: "witness_database \<Rightarrow> trace_entry \<Rightarrow> witness_database" where
  "replay_entry db e =
     (case e of
        ReadAccount a bal n \<Rightarrow> db
      | WriteSender a bal n \<Rightarrow>
          db\<lparr>wdb_accounts := (wdb_accounts db)(a \<mapsto> (get_account db a)\<lparr>aw_balance := bal, aw_nonce := n\<rparr>)\<rparr>
      | WriteRecipient a bal \<Rightarrow>
          db\<lparr>wdb_accounts := (wdb_accounts db)(a \<mapsto> (get_account db a)\<lparr>aw_balance := bal\<rparr>)\<rparr>
      | WriteStorage a slot v \<Rightarrow> write_slot db ((a, slot), v))"

definition replay :: "witness_database \<Rightarrow> trace_entry list \<Rightarrow> witness_database" where
  "replay db trace = foldl replay_entry db trace"

lemma replay_slots:
  "foldl replay_entry db (map (\<lambda>((a, slot), v). WriteStorage a slot v) ws) = foldl write_slot db ws"
  by (induction ws arbitrary: db) (auto simp: replay_entry_def)

lemma get_account_write_slot [simp]: "get_account (write_slot db w) = get_account db"
  by (auto simp: get_account_def write_slot_def fun_eq_iff split: prod.splits)

lemma replay_tx:
  assumes "grevm_tx snap tx = Ok (tr, res)" and "tx_sender tx \<noteq> tx_recipient tx"
    and "\<And>a. a \<in> touched tx \<Longrightarrow> get_account db a = get_account snap a"
  shows "replay db tr = apply_result db res"
  using assms
  by (auto simp: grevm_tx_def Let_def replay_def replay_entry_def replay_slots apply_result_def
      touched_def get_account_def split: if_splits)

lemma grevm_tx_res: "grevm_tx db tx = Ok (tr, res) \<Longrightarrow> wave_tx db tx = Ok res"
  by (auto simp: grevm_tx_def wave_tx_def transfer_def Let_def split: if_splits)

lemma replay_wave:
  assumes "grevm_join snap w = Ok rs" and "disjoint_wave w"
    and "\<And>t. t \<in> set w \<Longrightarrow> tx_sender t \<noteq> tx_recipient t"
    and "\<And>t a. t \<in> set w \<Longrightarrow> a \<in> touched t \<Longrightarrow> get_account db a = get_account snap a"
  shows "replay db (concat (map fst rs)) = foldl apply_result db (map snd rs)"
  using assms
proof (induction w arbitrary: rs db)
  case (Cons t w)
  from Cons.prems(1) obtain tr res rs' where
    r: "grevm_tx snap t = Ok (tr, res)" "grevm_join snap w = Ok rs'" "rs = (tr, res) # rs'"
    by (auto simp: outcome_simps)
  have tx: "replay db tr = apply_result db res"
    using Cons.prems(3,4) by (intro replay_tx [OF r(1)]) auto
  have rw: "res_sender res = tx_sender t \<and> res_recipient res = tx_recipient t"
    by (rule wave_tx_res [OF grevm_tx_res [OF r(1)]])
  have "get_account (apply_result db res) a = get_account snap a" if "u \<in> set w" "a \<in> touched u" for u a
  proof -
    have "touched t \<inter> touched u = {}" using Cons.prems(2) that(1) by (simp add: disjoint_wave_def)
    with that(2) rw have "a \<noteq> res_sender res" "a \<noteq> res_recipient res" by (auto simp: touched_def)
    with Cons.prems(4) [of u a] that show ?thesis by (simp add: get_account_apply)
  qed
  then have "replay (apply_result db res) (concat (map fst rs')) =
      foldl apply_result (apply_result db res) (map snd rs')"
    using Cons.prems by (intro Cons.IH [OF r(2)]) (simp_all add: disjoint_wave_def)
  with tx show ?case by (simp add: r(3) replay_def)
qed (simp add: replay_def)

lemma replay_waves:
  assumes "\<And>w. w \<in> set ws \<Longrightarrow> disjoint_wave w"
    and "\<And>w t. w \<in> set ws \<Longrightarrow> t \<in> set w \<Longrightarrow> tx_sender t \<noteq> tx_recipient t"
    and "grevm_waves db tr ws = (db', Ok trace)" and "replay db0 tr = db"
  shows "replay db0 trace = db'"
  using assms
proof (induction ws arbitrary: db tr)
  case (Cons w ws)
  from Cons.prems(3) obtain rs where rs: "grevm_join db w = Ok rs"
    "grevm_waves (foldl apply_result db (map snd rs)) (tr @ concat (map fst rs)) ws = (db', Ok trace)"
    by (auto split: outcome.splits)
  have "replay db (concat (map fst rs)) = foldl apply_result db (map snd rs)"
    by (rule replay_wave [OF rs(1)]) (use Cons.prems(1,2) in auto)
  then have "replay db0 (tr @ concat (map fst rs)) = foldl apply_result db (map snd rs)"
    using Cons.prems(4) by (simp add: replay_def)
  then show ?case using Cons.prems(1,2) by (intro Cons.IH [OF _ _ rs(2)]) auto
qed simp

section \<open>Concrete blocks\<close>

text \<open>A transfer that declares what it reads and writes, and a database with balances only.\<close>

definition transfer_list :: "nat \<Rightarrow> address \<Rightarrow> address \<Rightarrow> u256 \<Rightarrow> u64 \<Rightarrow> tx_access_list" where
  "transfer_list i from to v n =
     \<lparr>tx_index = i, tx_sender = from, tx_recipient = to, tx_value = v, tx_nonce = n,
      read_addresses = [from], write_addresses = [from, to], read_slots = [], write_slots = []\<rparr>"

definition funded_db :: "(address \<times> u256) list \<Rightarrow> witness_database" where
  "funded_db bals =
     \<lparr>wdb_accounts = map_of (map (\<lambda>(a, b). (a, account_default\<lparr>aw_balance := b\<rparr>)) bals),
      wdb_storage = Map.empty, wdb_verkle_proofs = []\<rparr>"

lemmas engine_eval =
  transfer_list_def funded_db_def account_default_def get_account_def wave_tx_def transfer_def
  apply_result_def slot_writes_def slot_keys_def

lemmas partition_eval =
  partition_waves_def waves_loop.simps build_wave_def add_to_wave_def address_conflict_def slot_conflict_def

text \<open>Account 1 pays 2 and then 3; account 3, empty before, pays 4 from what it received.\<close>

definition chained_block :: "tx_access_list list" where
  "chained_block = [transfer_list 0 1 2 10 0, transfer_list 1 1 3 10 1, transfer_list 2 3 4 5 0]"

definition two_payments :: "tx_access_list list" where
  "two_payments = [transfer_list 0 1 2 10 0, transfer_list 1 3 4 5 0]"

lemma chained_block_waves:
  "partition_waves chained_block =
     Some [[transfer_list 0 1 2 10 0, transfer_list 2 3 4 5 0], [transfer_list 1 1 3 10 1]]"
  by (simp add: chained_block_def partition_eval transfer_list_def slot_keys_def)

lemma grevm_two_payments:
  "grevm_execute two_payments (funded_db [(1, 20), (3, 5)]) =
     Some (fst (the (grevm_execute two_payments (funded_db [(1, 20), (3, 5)]))),
       Ok [ReadAccount 1 20 0, WriteSender 1 10 1, WriteRecipient 2 10,
           ReadAccount 3 5 0, WriteSender 3 0 1, WriteRecipient 4 5])"
  by (simp add: grevm_execute_def two_payments_def partition_eval engine_eval grevm_tx_def)

lemma wave_two_payments:
  "wave_execute two_payments (funded_db [(1, 20), (3, 5)]) =
     Some (fst (the (wave_execute two_payments (funded_db [(1, 20), (3, 5)]))), Ok ())"
  by (simp add: wave_execute_def two_payments_def partition_eval engine_eval exec_wave_def)

section \<open>Independent blocks\<close>

lemma build_wave_all_fold:
  assumes "acc_ok [] acc" and "conflict_free (cur_wave acc @ txs)"
    and "distinct (map tx_index (cur_wave acc @ txs))"
  shows "cur_wave (foldl add_to_wave acc txs) = cur_wave acc @ txs"
  using assms
proof (induction txs arbitrary: acc)
  case (Cons t txs)
  have "\<forall>u \<in> set (cur_wave acc). \<not> conflicts u t"
    using Cons.prems(2) by (simp add: conflict_free_def sorted_wrt_append)
  then have "\<not> address_conflict acc t \<and> \<not> slot_conflict acc t"
    using acc_conflict_iff [OF Cons.prems(1), of t] by blast
  moreover have "tx_index t \<notin> set (processed acc)"
    using Cons.prems(1,3) by (auto simp: acc_ok_def)
  ultimately have "cur_wave (add_to_wave acc t) = cur_wave acc @ [t]" by (simp add: add_to_wave_def)
  then show ?case using Cons.IH [OF acc_ok_add [OF Cons.prems(1)]] Cons.prems(2,3) by simp
qed simp

lemma partition_waves_independent:
  assumes "txs \<noteq> []" and "distinct (map tx_index txs)" and "conflict_free txs"
  shows "partition_waves txs = Some [txs]"
proof -
  have "cur_wave (build_wave txs []) = txs"
    unfolding build_wave_def using assms
    by (subst build_wave_all_fold) (simp_all add: acc_ok_def conflict_free_def)
  moreover have "length (processed (build_wave txs [])) = length txs"
    using processed_build_wave [of "[]" txs] calculation by simp
  ultimately show ?thesis
    using assms(1) by (simp add: partition_waves_def waves_loop.simps)
qed

lemma wave_execute_independent:
  assumes "distinct (map tx_index txs)" and "conflict_free txs" and "\<And>t. t \<in> set txs \<Longrightarrow> declares_transfer t"
  shows "map_option seq_view (wave_execute txs db) = Some (seq_run txs db)"
proof (cases "txs = []")
  case True
  then show ?thesis by (simp add: wave_execute_def partition_waves_def waves_loop.simps)
next
  case False
  have "disjoint_wave txs" by (rule conflict_free_disjoint [OF assms(2,3)])
  then show ?thesis
    using exec_waves_seq [of "[txs]" db]
    by (simp add: wave_execute_def partition_waves_independent [OF False assms(1,2)])
qed

section \<open>Properties\<close>

lemma length_waves_le: "(\<forall>w \<in> set ws. w \<noteq> []) \<Longrightarrow> length ws \<le> length (concat ws)"
proof (induction ws)
  case (Cons w ws)
  then show ?case by (cases w) auto
qed simp

lemma partition_waves_disjoint:
  assumes "partition_waves txs = Some ws" and "\<And>t. t \<in> set txs \<Longrightarrow> declares_transfer t"
  shows "mset (concat ws) = mset txs" and "w \<in> set ws \<Longrightarrow> disjoint_wave w"
proof -
  from partition_waves_returns [OF partition_waves_Some [OF assms(1)]] assms(1)
  have ws: "mset (concat ws) = mset txs" "\<forall>w \<in> set ws. w \<noteq> [] \<and> conflict_free w" by auto
  show "mset (concat ws) = mset txs" by (rule ws(1))
  have "set (concat ws) = set txs" using ws(1) by (rule mset_eq_setD)
  then show "disjoint_wave w" if "w \<in> set ws"
    using that ws(2) assms(2) by (intro conflict_free_disjoint) auto
qed

text \<open>C1: the wave executor is serializable. For access lists with distinct indices that declare
  the two accounts a transfer writes, partitioning and running each wave on a snapshot ends,
  and gives the database (or the error) of running the transactions one after the other in
  wave order, every transaction exactly once.\<close>

theorem wave_execute_serializable:
  assumes "distinct (map tx_index txs)" and "\<And>t. t \<in> set txs \<Longrightarrow> declares_transfer t"
  shows "\<exists>ws. partition_waves txs = Some ws \<and> mset (concat ws) = mset txs \<and>
    map_option seq_view (wave_execute txs db) = Some (seq_run (concat ws) db)"
proof -
  obtain ws where ws: "partition_waves txs = Some ws" "mset (concat ws) = mset txs"
    by (rule partition_waves_returns [OF assms(1)])
  with partition_waves_disjoint(2) [OF ws(1) assms(2)] show ?thesis
    by (auto simp: wave_execute_def exec_waves_seq)
qed

lemma wave_execute_serializable_witness:
  "\<exists>ws. partition_waves chained_block = Some ws \<and> mset (concat ws) = mset chained_block \<and>
    map_option seq_view (wave_execute chained_block (funded_db [(1, 20)])) =
      Some (seq_run (concat ws) (funded_db [(1, 20)]))"
  by (rule wave_execute_serializable)
    (auto simp: chained_block_def transfer_list_def declares_transfer_def touched_def)

text \<open>C19: the partitioner returns exactly when no two access lists carry the same index: with a
  repeated index its loop never ends.\<close>

theorem partition_waves_total_iff:
  "(\<exists>ws. partition_waves txs = Some ws) \<longleftrightarrow> distinct (map tx_index txs)"
  using partition_waves_returns partition_waves_Some by metis

text \<open>C10: what the partitioner returns: every transaction is in exactly one wave, no two of a wave
  conflict on an address or a slot, no wave is empty and there are at most as many waves as
  transactions.\<close>

theorem partition_waves_sound:
  assumes "partition_waves txs = Some ws"
  shows "mset (concat ws) = mset txs \<and> (\<forall>w \<in> set ws. w \<noteq> [] \<and> conflict_free w) \<and>
    length ws \<le> length txs"
proof -
  from partition_waves_returns [OF partition_waves_Some [OF assms]] assms
  have ws: "mset (concat ws) = mset txs" "\<forall>w \<in> set ws. w \<noteq> [] \<and> conflict_free w" by auto
  have "length ws \<le> length (concat ws)" using ws(2) by (intro length_waves_le) blast
  with ws show ?thesis by (metis size_mset)
qed

lemma partition_waves_sound_witness:
  "mset (concat [[transfer_list 0 1 2 10 0, transfer_list 2 3 4 5 0], [transfer_list 1 1 3 10 1]]) =
     mset chained_block \<and>
   conflict_free [transfer_list 0 1 2 10 0, transfer_list 2 3 4 5 0] \<and>
   conflict_free [transfer_list 1 1 3 10 1]"
  using partition_waves_sound [OF chained_block_waves] by simp

text \<open>The waves may run a transaction before one that is earlier in the block and pays its
  sender: this block runs in the order of the list but the wave executor rejects it.\<close>

theorem wave_execute_reorders:
  "is_ok (seq_run chained_block (funded_db [(1, 20)])) \<and>
   map_option seq_view (wave_execute chained_block (funded_db [(1, 20)])) =
     Some (Err (InsufficientBalance 3))"
  unfolding wave_execute_def chained_block_waves
  by (simp add: chained_block_def engine_eval exec_wave_def)

text \<open>The tracing executor computes what the wave executor computes: it ends on the same
  inputs, leaves the same database, and fails with the same error.\<close>

theorem grevm_execute_eq_wave:
  "map_option (\<lambda>(db', r). (db', and_then r (\<lambda>_. Ok ()))) (grevm_execute txs db) = wave_execute txs db"
proof (cases "partition_waves txs")
  case (Some ws)
  then show ?thesis
    using grevm_waves_exec_waves [of db "[]" ws]
    by (cases "grevm_waves db [] ws"; cases "exec_waves db ws")
      (simp add: grevm_execute_def wave_execute_def)
qed (simp add: grevm_execute_def wave_execute_def)





text \<open>A transfer to oneself mints its value and does not use up its nonce: the recipient's
  copy, read before the debit, overwrites the sender's.\<close>

theorem self_transfer_mints:
  assumes "wave_tx db tx = Ok res" and "tx_sender tx = tx_recipient tx"
  shows "total_balance (apply_result db res) = total_balance db + tx_value tx \<and>
    aw_nonce (get_account (apply_result db res) (tx_sender tx)) = tx_nonce tx"
proof -
  have "aw_nonce (res_recipient_acc res) = tx_nonce tx"
    using assms by (auto simp: wave_tx_def transfer_def outcome_simps split: if_splits)
  with assms wave_tx_res [OF assms(1)] show ?thesis
    by (simp add: total_wave_tx [OF assms(1)] get_account_apply)
qed

lemma self_transfer_mints_witness:
  "let db = funded_db [(1, 20)]; tx = transfer_list 0 1 1 20 0;
       res = \<lparr>res_sender = 1, res_sender_acc = account_default\<lparr>aw_nonce := 1\<rparr>,
              res_recipient = 1, res_recipient_acc = account_default\<lparr>aw_balance := 40\<rparr>,
              res_write_slots = []\<rparr>
   in total_balance (apply_result db res) = total_balance db + tx_value tx \<and>
      aw_nonce (get_account (apply_result db res) (tx_sender tx)) = tx_nonce tx"
  unfolding Let_def by (rule self_transfer_mints) (simp_all add: engine_eval)


end
