(* ===== verification/Parallel_Pevm.thy ===== *)
theory Parallel_Pevm
  imports Parallel_Wave
begin

text \<open>
  The optimistic executor. For ascending indices: when every thread of the first round
  passes validation, whatever commits it saw, the result is the sequential run; in
  particular the schedule in which every thread sees all earlier commits gives the
  sequential run, errors included.
\<close>

section \<open>Version lists\<close>

definition versions_below :: "nat \<Rightarrow> (nat \<times> 'a) list \<Rightarrow> bool" where
  "versions_below i vs \<longleftrightarrow> sorted_wrt (<) (map fst vs) \<and> (\<forall>v \<in> set vs. fst v < i)"

lemma versions_below_Nil [simp]: "versions_below i []"
  by (simp add: versions_below_def)

lemma versions_below_mono: "versions_below i vs \<Longrightarrow> i \<le> j \<Longrightarrow> versions_below j vs"
  by (auto simp: versions_below_def)

lemma versions_below_snoc: "versions_below i vs \<Longrightarrow> versions_below (Suc i) (vs @ [(i, x)])"
  by (auto simp: versions_below_def sorted_wrt_append)

lemma latest_below_all:
  "versions_below i vs \<Longrightarrow> latest_below i vs = (if vs = [] then None else Some (last vs))"
  by (cases vs rule: rev_cases) (auto simp: latest_below_def versions_below_def)

lemma replace_version_None: "i \<notin> fst ` set vs \<Longrightarrow> replace_version i x vs = None"
  by (induction i x vs rule: replace_version.induct) auto

lemma replace_version_last:
  "i \<notin> fst ` set vs \<Longrightarrow> replace_version i x (vs @ [(i, y)]) = Some (vs @ [(i, x)])"
  by (induction vs) auto

lemma put_version_new:
  assumes "versions_below i vs"
  shows "put_version i x vs = vs @ [(i, x)]"
proof -
  have "i \<notin> fst ` set vs" using assms by (auto simp: versions_below_def)
  moreover have "sorted (map fst (vs @ [(i, x)]))"
    using assms by (auto simp: versions_below_def sorted_wrt_append less_imp_le
        intro: sorted_wrt_mono_rel [of _ "(<)"])
  ultimately show ?thesis
    using sort_key_id_if_sorted [of fst "vs @ [(i, x)]"]
    by (simp add: put_version_def replace_version_None)
qed

lemma put_version_again:
  assumes "versions_below i vs"
  shows "put_version i x (vs @ [(i, y)]) = vs @ [(i, x)]"
proof -
  have "i \<notin> fst ` set vs" using assms by (auto simp: versions_below_def)
  then show ?thesis by (simp add: put_version_def replace_version_last)
qed

section \<open>Stores\<close>

definition store_below :: "nat \<Rightarrow> mvcc_state \<Rightarrow> bool" where
  "store_below i mv \<longleftrightarrow>
     (\<forall>a. versions_below i (mv_accounts mv a)) \<and> (\<forall>k. versions_below i (mv_storage mv k))"

definition store_prefix :: "mvcc_state \<Rightarrow> mvcc_state \<Rightarrow> bool" where
  "store_prefix h mv \<longleftrightarrow>
     (\<forall>a. prefix (mv_accounts h a) (mv_accounts mv a)) \<and> (\<forall>k. prefix (mv_storage h k) (mv_storage mv k))"

text \<open>\<open>mv'\<close> is \<open>mv\<close> with some writes of the transaction \<open>i\<close> at the end of the lists.\<close>

definition extended :: "nat \<Rightarrow> (nat \<times> 'a) list \<Rightarrow> (nat \<times> 'a) list \<Rightarrow> bool" where
  "extended i vs vs' \<longleftrightarrow> vs' = vs \<or> (\<exists>y. vs' = vs @ [(i, y)])"

definition store_extended :: "nat \<Rightarrow> mvcc_state \<Rightarrow> mvcc_state \<Rightarrow> bool" where
  "store_extended i mv mv' \<longleftrightarrow>
     (\<forall>a. extended i (mv_accounts mv a) (mv_accounts mv' a)) \<and>
     (\<forall>k. extended i (mv_storage mv k) (mv_storage mv' k))"

lemma put_version_extended:
  assumes "versions_below i vs" and "extended i vs vs'"
  shows "extended i vs (put_version i x vs') \<and> put_version i x vs' \<noteq> [] \<and>
    last (put_version i x vs') = (i, x)"
  using assms by (auto simp: extended_def put_version_new put_version_again)

lemma store_extended_refl: "store_extended i mv mv"
  by (simp add: store_extended_def extended_def)

lemma write_account_extended:
  "store_below i mv \<Longrightarrow> store_extended i mv mv' \<Longrightarrow> store_extended i mv (write_account i a acc mv')"
  by (simp add: store_extended_def write_account_def store_below_def put_version_extended)

lemma write_storage_extended:
  "store_below i mv \<Longrightarrow> store_extended i mv mv' \<Longrightarrow> store_extended i mv (write_storage i k v mv')"
  by (cases k) (simp add: store_extended_def write_storage_def store_below_def put_version_extended)

definition mvcc_written :: "mvcc_state \<Rightarrow> address \<Rightarrow> u256 \<rightharpoonup> u256" where
  "mvcc_written mv a s = (if mv_storage mv (a, s) = [] then None else Some (snd (last (mv_storage mv (a, s)))))"

lemma finalize_accounts:
  "wdb_accounts (finalize_mvcc mv db) a = (if mv_accounts mv a = [] then wdb_accounts db a
     else Some (snd (last (mv_accounts mv a))))"
  by (simp add: finalize_mvcc_def)

lemma finalize_proofs [simp]: "wdb_verkle_proofs (finalize_mvcc mv db) = wdb_verkle_proofs db"
  by (simp add: finalize_mvcc_def)

lemma finalize_storage:
  "wdb_storage (finalize_mvcc mv db) a = (if mvcc_written mv a = Map.empty then wdb_storage db a
     else Some ((case wdb_storage db a of None \<Rightarrow> Map.empty | Some slots \<Rightarrow> slots) ++ mvcc_written mv a))"
proof -
  have "mvcc_written mv a = (\<lambda>s. if mv_storage mv (a, s) = [] then None
      else Some (snd (last (mv_storage mv (a, s)))))"
    by (rule ext) (simp add: mvcc_written_def)
  then show ?thesis by (simp only: finalize_mvcc_def Let_def) simp
qed

lemma finalize_write_account:
  assumes "store_below i mv" and "store_extended i mv mv'"
  shows "finalize_mvcc (write_account i a acc mv') db =
    (finalize_mvcc mv' db)\<lparr>wdb_accounts := (wdb_accounts (finalize_mvcc mv' db))(a \<mapsto> acc)\<rparr>"
    (is "?l = ?r")
proof -
  have "put_version i acc (mv_accounts mv' a) \<noteq> [] \<and> last (put_version i acc (mv_accounts mv' a)) = (i, acc)"
    using put_version_extended [of i "mv_accounts mv a" "mv_accounts mv' a" acc] assms
    by (simp add: store_below_def store_extended_def)
  then have "wdb_accounts ?l = wdb_accounts ?r"
    by (intro ext) (simp add: finalize_accounts write_account_def)
  moreover have "wdb_storage ?l = wdb_storage ?r"
  proof (rule ext)
    fix b
    have "mvcc_written (write_account i a acc mv') b = mvcc_written mv' b"
      by (rule ext) (simp add: mvcc_written_def write_account_def)
    then show "wdb_storage ?l b = wdb_storage ?r b" by (simp add: finalize_storage)
  qed
  ultimately show ?thesis by simp
qed

lemma mvcc_written_write_storage:
  assumes "store_below i mv" and "store_extended i mv mv'"
  shows "mvcc_written (write_storage i (a, s) v mv') b =
    (if b = a then (mvcc_written mv' a)(s \<mapsto> v) else mvcc_written mv' b)"
  using put_version_extended [of i "mv_storage mv (a, s)" "mv_storage mv' (a, s)" v] assms
  by (auto simp: mvcc_written_def write_storage_def store_below_def store_extended_def fun_eq_iff)

lemma finalize_write_storage:
  assumes "store_below i mv" and "store_extended i mv mv'"
  shows "finalize_mvcc (write_storage i k v mv') db = write_slot (finalize_mvcc mv' db) (k, v)"
proof -
  obtain a s where k: "k = (a, s)" by fastforce
  let ?l = "finalize_mvcc (write_storage i k v mv') db"
  let ?r = "write_slot (finalize_mvcc mv' db) (k, v)"
  have "wdb_accounts ?l = wdb_accounts ?r"
    by (rule ext) (simp add: k write_slot_def finalize_accounts write_storage_def)
  moreover have "wdb_storage ?l = wdb_storage ?r"
    by (rule ext) (auto simp: finalize_storage k mvcc_written_write_storage [OF assms] write_slot_def
        split: option.splits)
  moreover have "wdb_verkle_proofs ?l = wdb_verkle_proofs ?r"
    by (simp add: k write_slot_def)
  ultimately show ?thesis by (intro witness_database.equality) simp_all
qed

lemma finalize_fold_storage:
  assumes "store_below i mv" and "store_extended i mv mv'"
  shows "store_extended i mv (foldl (\<lambda>mv (k, v). write_storage i k v mv) mv' ws) \<and>
    finalize_mvcc (foldl (\<lambda>mv (k, v). write_storage i k v mv) mv' ws) db =
      foldl write_slot (finalize_mvcc mv' db) ws"
  using assms(2)
proof (induction ws arbitrary: mv')
  case (Cons w ws)
  obtain k v where w: "w = (k, v)" by fastforce
  show ?case
    using Cons.IH [of "write_storage i k v mv'"] Cons.prems
    by (simp add: w write_storage_extended [OF assms(1)] finalize_write_storage [OF assms(1)])
qed simp

section \<open>A commit\<close>

lemma pevm_commit_extended:
  "store_below (tx_index tx) mv \<Longrightarrow> store_extended (tx_index tx) mv (pevm_commit tx res mv)"
  by (simp add: pevm_commit_def finalize_fold_storage write_account_extended store_extended_refl)

lemma store_extended_below:
  "store_below i mv \<Longrightarrow> store_extended i mv mv' \<Longrightarrow> store_below (Suc i) mv' \<and> store_prefix mv mv'"
  unfolding store_below_def store_extended_def store_prefix_def extended_def
  using versions_below_snoc versions_below_mono [of i _ "Suc i"]
  by (metis lessI less_imp_le prefixI prefix_order.refl)

definition wave_result :: "tx_access_list \<Rightarrow> pevm_result \<Rightarrow> wave_tx_result" where
  "wave_result tx res =
     \<lparr>res_sender = tx_sender tx, res_sender_acc = pr_sender_acc res,
      res_recipient = tx_recipient tx, res_recipient_acc = pr_recipient_acc res,
      res_write_slots = slot_writes tx\<rparr>"

lemma finalize_commit:
  assumes "store_below (tx_index tx) mv"
  shows "finalize_mvcc (pevm_commit tx res mv) db =
    apply_result (finalize_mvcc mv db) (wave_result tx res)"
proof -
  let ?i = "tx_index tx"
  let ?m1 = "write_account ?i (tx_sender tx) (pr_sender_acc res) mv"
  let ?m2 = "write_account ?i (tx_recipient tx) (pr_recipient_acc res) ?m1"
  have e1: "store_extended ?i mv ?m1"
    by (rule write_account_extended [OF assms store_extended_refl])
  have e2: "store_extended ?i mv ?m2" by (rule write_account_extended [OF assms e1])
  have f1: "finalize_mvcc ?m1 db = (finalize_mvcc mv db)\<lparr>wdb_accounts :=
      (wdb_accounts (finalize_mvcc mv db))(tx_sender tx \<mapsto> pr_sender_acc res)\<rparr>"
    by (rule finalize_write_account [OF assms store_extended_refl])
  have f2: "finalize_mvcc ?m2 db = (finalize_mvcc ?m1 db)\<lparr>wdb_accounts :=
      (wdb_accounts (finalize_mvcc ?m1 db))(tx_recipient tx \<mapsto> pr_recipient_acc res)\<rparr>"
    by (rule finalize_write_account [OF assms e1])
  show ?thesis
    unfolding pevm_commit_def finalize_fold_storage [OF assms e2, THEN conjunct2] f2 f1
    by (simp add: apply_result_def wave_result_def)
qed

section \<open>A thread\<close>

lemma read_account_view:
  "store_below i mv \<Longrightarrow> snd (read_account mv i a backing) = get_account (finalize_mvcc mv backing) a"
  by (auto simp: read_account_def store_below_def latest_below_all get_account_def finalize_mvcc_def
      split: option.splits prod.splits)

text \<open>The same version of an account is the same account.\<close>

lemma prefix_same_last:
  assumes "prefix vs vs'" and "versions_below i vs'"
    and "map_option fst (latest_below i vs) = map_option fst (latest_below i vs')"
  shows "latest_below i vs = latest_below i vs'"
proof -
  from assms(1) obtain ws where vs': "vs' = vs @ ws" by (auto simp: prefix_def)
  with assms(2) have below: "versions_below i vs" by (auto simp: versions_below_def sorted_wrt_append)
  have "ws = []"
  proof (rule ccontr)
    assume "ws \<noteq> []"
    then have "vs' \<noteq> []" "last vs' = last ws" "last ws \<in> set ws" by (simp_all add: vs')
    with assms(3) have "vs \<noteq> []" "fst (last vs) = fst (last ws)"
      by (auto simp: latest_below_all [OF below] latest_below_all [OF assms(2)] split: if_splits)
    moreover have "fst (last vs) < fst (last ws)"
      using assms(2) last_in_set [OF \<open>vs \<noteq> []\<close>] \<open>last ws \<in> set ws\<close>
      by (auto simp: versions_below_def vs' sorted_wrt_append)
    ultimately show False by simp
  qed
  then show ?thesis by (simp add: vs')
qed

lemma read_account_same:
  assumes "store_prefix h mv" and "store_below i mv"
    and "fst (read_account mv i a backing) = fst (read_account h i a backing)"
  shows "read_account h i a backing = read_account mv i a backing"
proof -
  have v: "map_option fst (latest_below i vs) = (case latest_below i vs of None \<Rightarrow> None | Some (w, x) \<Rightarrow> Some w)"
    for vs :: "(nat \<times> account_witness) list"
    by (simp split: option.splits)
  have "latest_below i (mv_accounts h a) = latest_below i (mv_accounts mv a)"
  proof (rule prefix_same_last)
    show "prefix (mv_accounts h a) (mv_accounts mv a)" "versions_below i (mv_accounts mv a)"
      using assms(1,2) by (simp_all add: store_prefix_def store_below_def)
    show "map_option fst (latest_below i (mv_accounts h a)) =
        map_option fst (latest_below i (mv_accounts mv a))"
      using assms(3) by (auto simp: read_account_def split: option.splits)
  qed
  then show ?thesis by (simp add: read_account_def)
qed

lemma pevm_thread_transfer:
  "pevm_thread backing mv tx = Ok res \<Longrightarrow>
     transfer tx (snd (read_account mv (tx_index tx) (tx_sender tx) backing))
       (snd (read_account mv (tx_index tx) (tx_recipient tx) backing)) =
       Ok (pr_sender_acc res, pr_recipient_acc res) \<and>
     (tx_sender tx, fst (read_account mv (tx_index tx) (tx_sender tx) backing)) \<in> set (pr_read_accounts res) \<and>
     (tx_recipient tx, fst (read_account mv (tx_index tx) (tx_recipient tx) backing)) \<in> set (pr_read_accounts res)"
  by (auto simp: pevm_thread_def Let_def outcome_simps split: prod.splits)

text \<open>A thread that read an older store and passes validation did what the sequential step does.\<close>

lemma validated_thread:
  assumes "store_prefix h mv" and "store_below (tx_index tx) mv"
    and "pevm_thread backing h tx = Ok res" and "\<not> pevm_conflict backing mv (tx_index tx) res"
  shows "wave_tx (finalize_mvcc mv backing) tx = Ok (wave_result tx res)"
proof -
  let ?i = "tx_index tx"
  note t = pevm_thread_transfer [OF assms(3)]
  have same: "read_account h ?i a backing = read_account mv ?i a backing"
    if "(a, fst (read_account h ?i a backing)) \<in> set (pr_read_accounts res)" for a
    using assms(4) that by (intro read_account_same [OF assms(1,2)]) (auto simp: pevm_conflict_def)
  have "transfer tx (get_account (finalize_mvcc mv backing) (tx_sender tx))
      (get_account (finalize_mvcc mv backing) (tx_recipient tx)) = Ok (pr_sender_acc res, pr_recipient_acc res)"
    using t same by (simp flip: read_account_view [OF assms(2)])
  then show ?thesis by (simp add: wave_tx_def wave_result_def)
qed

text \<open>A thread that read the current store.\<close>

lemma fresh_thread:
  assumes "store_below (tx_index tx) mv"
  shows "(\<exists>res. pevm_thread backing mv tx = Ok res \<and> \<not> pevm_conflict backing mv (tx_index tx) res \<and>
      wave_tx (finalize_mvcc mv backing) tx = Ok (wave_result tx res)) \<or>
    (\<exists>e. pevm_thread backing mv tx = Err e \<and> wave_tx (finalize_mvcc mv backing) tx = Err e)"
proof (cases "pevm_thread backing mv tx")
  case (Ok res)
  have "\<not> pevm_conflict backing mv (tx_index tx) res"
    using Ok by (auto simp: pevm_thread_def pevm_conflict_def Let_def outcome_simps split: prod.splits)
  moreover have "store_prefix mv mv" by (simp add: store_prefix_def)
  ultimately show ?thesis using validated_thread [OF _ assms Ok] Ok by blast
next
  case (Err e)
  then have "transfer tx (get_account (finalize_mvcc mv backing) (tx_sender tx))
      (get_account (finalize_mvcc mv backing) (tx_recipient tx)) = Err e"
    by (auto simp: pevm_thread_def Let_def outcome_simps split: prod.splits
        simp flip: read_account_view [OF assms])
  with Err show ?thesis by (simp add: wave_tx_def)
next
  case Panic
  then show ?thesis
    by (auto simp: pevm_thread_def Let_def outcome_simps transfer_def split: prod.splits if_splits)
qed

section \<open>A round\<close>

lemma store_prefix_trans: "store_prefix a b \<Longrightarrow> store_prefix b c \<Longrightarrow> store_prefix a c"
  by (simp add: store_prefix_def) (metis prefix_order.trans)

lemma store_below_mono: "store_below i mv \<Longrightarrow> i \<le> j \<Longrightarrow> store_below j mv"
  by (auto simp: store_below_def intro: versions_below_mono)

text \<open>What the joins so far have in common.\<close>

definition hist_ok :: "nat \<Rightarrow> mvcc_state list \<Rightarrow> bool" where
  "hist_ok b hist \<longleftrightarrow>
     hist \<noteq> [] \<and> (\<forall>h \<in> set hist. store_prefix h (last hist)) \<and> store_below b (last hist)"

definition ascending_from :: "nat \<Rightarrow> tx_access_list list \<Rightarrow> bool" where
  "ascending_from b txs \<longleftrightarrow> sorted_wrt (<) (map tx_index txs) \<and> (\<forall>t \<in> set txs. b \<le> tx_index t)"

lemma ascending_from_Cons:
  "ascending_from b (t # ts) \<longleftrightarrow> b \<le> tx_index t \<and> ascending_from (Suc (tx_index t)) ts"
  by (auto simp: ascending_from_def Suc_le_eq)

lemma hist_ok_commit:
  assumes "hist_ok b hist" and "b \<le> tx_index tx"
  shows "hist_ok (Suc (tx_index tx)) (hist @ [pevm_commit tx res (last hist)])"
proof -
  have below: "store_below (tx_index tx) (last hist)"
    using assms store_below_mono by (auto simp: hist_ok_def)
  have e: "store_below (Suc (tx_index tx)) (pevm_commit tx res (last hist)) \<and>
      store_prefix (last hist) (pevm_commit tx res (last hist))"
    by (rule store_extended_below [OF below pevm_commit_extended [OF below]])
  moreover have "store_prefix (pevm_commit tx res (last hist)) (pevm_commit tx res (last hist))"
    by (simp add: store_prefix_def)
  ultimately show ?thesis using assms(1) store_prefix_trans by (auto simp: hist_ok_def)
qed

lemma pevm_round_seq:
  assumes "hist_ok b hist" and "ascending_from b txs"
    and "pevm_round sched backing hist txs = Ok (mv', [])"
  shows "seq_run txs (finalize_mvcc (last hist) backing) = Ok (finalize_mvcc mv' backing)"
  using assms
proof (induction txs arbitrary: hist b)
  case (Cons tx txs)
  let ?n = "length hist - 1" and ?mv = "last hist"
  let ?h = "hist ! min (sched ?n) ?n"
  have "0 < length hist" using Cons.prems(1) by (simp add: hist_ok_def)
  then have "?h \<in> set hist" by (intro nth_mem) linarith
  with Cons.prems(1) have pre: "store_prefix ?h ?mv" by (simp add: hist_ok_def)
  have b: "b \<le> tx_index tx" using Cons.prems(2) by (simp add: ascending_from_Cons)
  with Cons.prems(1) have below: "store_below (tx_index tx) ?mv"
    using store_below_mono by (auto simp: hist_ok_def)
  from Cons.prems(3) obtain res where
    res: "pevm_thread backing ?h tx = Ok res" "\<not> pevm_conflict backing ?mv (tx_index tx) res"
      "pevm_round sched backing (hist @ [pevm_commit tx res ?mv]) txs = Ok (mv', [])"
    by (auto simp: Let_def outcome_simps split: if_splits)
  have "wave_tx (finalize_mvcc ?mv backing) tx = Ok (wave_result tx res)"
    by (rule validated_thread [OF pre below res(1,2)])
  moreover have "seq_run txs (finalize_mvcc (pevm_commit tx res ?mv) backing) = Ok (finalize_mvcc mv' backing)"
    using Cons.IH [OF hist_ok_commit [OF Cons.prems(1) b] _ res(3)] Cons.prems(2)
    by (simp add: ascending_from_Cons)
  ultimately show ?case by (simp add: finalize_commit [OF below])
qed simp

lemma pevm_round_fresh:
  assumes "hist_ok b hist" and "ascending_from b txs"
  shows "(\<exists>mv'. pevm_round (\<lambda>n. n) backing hist txs = Ok (mv', []) \<and>
      seq_run txs (finalize_mvcc (last hist) backing) = Ok (finalize_mvcc mv' backing)) \<or>
    (\<exists>e. pevm_round (\<lambda>n. n) backing hist txs = Err e \<and>
      seq_run txs (finalize_mvcc (last hist) backing) = Err e)"
  using assms
proof (induction txs arbitrary: hist b)
  case (Cons tx txs)
  let ?mv = "last hist"
  have h: "hist ! min (length hist - 1) (length hist - 1) = ?mv"
    using Cons.prems(1) by (simp add: hist_ok_def last_conv_nth)
  have b: "b \<le> tx_index tx" and asc: "ascending_from (Suc (tx_index tx)) txs"
    using Cons.prems(2) by (simp_all add: ascending_from_Cons)
  have below: "store_below (tx_index tx) ?mv"
    using Cons.prems(1) b store_below_mono by (auto simp: hist_ok_def)
  from fresh_thread [OF below, of backing] show ?case
  proof (elim disjE exE conjE)
    fix res
    assume res: "pevm_thread backing ?mv tx = Ok res" "\<not> pevm_conflict backing ?mv (tx_index tx) res"
      "wave_tx (finalize_mvcc ?mv backing) tx = Ok (wave_result tx res)"
    have "pevm_round (\<lambda>n. n) backing hist (tx # txs) =
        pevm_round (\<lambda>n. n) backing (hist @ [pevm_commit tx res ?mv]) txs"
      by (simp only: pevm_round.simps Let_def h res(1) and_then.simps res(2) if_False)
    then show ?thesis
      using Cons.IH [OF hist_ok_commit [OF Cons.prems(1) b] asc, of res] res(3)
      by (simp add: finalize_commit [OF below])
  next
    fix e
    assume e: "pevm_thread backing ?mv tx = Err e" "wave_tx (finalize_mvcc ?mv backing) tx = Err e"
    have "pevm_round (\<lambda>n. n) backing hist (tx # txs) = Err e"
      by (simp only: pevm_round.simps Let_def h e(1) and_then.simps)
    with e(2) show ?thesis by simp
  qed
qed simp

section \<open>The executor\<close>

lemma finalize_default [simp]: "finalize_mvcc mvcc_default db = db"
  by (intro witness_database.equality ext)
    (simp_all add: finalize_accounts finalize_storage mvcc_written_def mvcc_default_def fun_eq_iff)

lemma hist_ok_default: "hist_ok 0 [mvcc_default]"
  by (simp add: hist_ok_def store_below_def store_prefix_def mvcc_default_def)

lemma pevm_execute_unfold:
  "pevm_execute sched txs db = and_then (pevm_round (sched 19) db [mvcc_default] txs) (\<lambda>(mv, again).
     if again = [] then Ok (finalize_mvcc mv db)
     else and_then (pevm_rounds sched db 19 mv again) (\<lambda>mv. Ok (finalize_mvcc mv db)))"
proof -
  have m: "max_retries = Suc 19" by (simp add: max_retries_def)
  have "pevm_rounds sched db max_retries mvcc_default txs =
      and_then (pevm_round (sched 19) db [mvcc_default] txs) (\<lambda>(mv', again).
        if again = [] then Ok mv' else pevm_rounds sched db 19 mv' again)"
    unfolding m pevm_rounds.simps
    by (cases "pevm_round (sched 19) db [mvcc_default] txs") auto
  then show ?thesis
    by (cases "pevm_round (sched 19) db [mvcc_default] txs") (auto simp: pevm_execute_def)
qed

definition ascending :: "tx_access_list list \<Rightarrow> bool" where
  "ascending txs \<longleftrightarrow> sorted_wrt (<) (map tx_index txs)"

lemma pevm_execute_fresh: "ascending txs \<Longrightarrow> sched 19 = (\<lambda>n. n) \<Longrightarrow> pevm_execute sched txs db = seq_run txs db"
  using pevm_round_fresh [OF hist_ok_default, of txs db]
  by (auto simp: pevm_execute_unfold ascending_def ascending_from_def)

lemma pevm_execute_first_round:
  assumes "ascending txs" and "pevm_round (sched 19) db [mvcc_default] txs = Ok (mv, [])"
  shows "pevm_execute sched txs db = seq_run txs db"
  using pevm_round_seq [OF hist_ok_default _ assms(2)] assms
  by (simp add: pevm_execute_unfold ascending_def ascending_from_def)

section \<open>Independent transactions\<close>

definition agree_for :: "tx_access_list \<Rightarrow> mvcc_state \<Rightarrow> mvcc_state \<Rightarrow> bool" where
  "agree_for tx h mv \<longleftrightarrow>
     (\<forall>a \<in> touched tx \<union> set (read_addresses tx). mv_accounts h a = mv_accounts mv a) \<and>
     (\<forall>k \<in> set (slot_keys (read_slots tx)). mv_storage h k = mv_storage mv k)"

lemma pevm_thread_cong:
  assumes "agree_for tx h mv"
  shows "pevm_thread backing h tx = pevm_thread backing mv tx"
proof -
  have a: "read_account h i a backing = read_account mv i a backing"
    if "a \<in> touched tx \<union> set (read_addresses tx)" for i a
    using assms that by (simp add: agree_for_def read_account_def)
  have s: "read_storage h i a s backing = read_storage mv i a s backing"
    if "(a, s) \<in> set (slot_keys (read_slots tx))" for i a s
    using assms that by (simp add: agree_for_def read_storage_def)
  have "map (\<lambda>a. (a, fst (read_account h (tx_index tx) a backing)))
      [a\<leftarrow>read_addresses tx. a \<noteq> tx_sender tx \<and> a \<noteq> tx_recipient tx] =
    map (\<lambda>a. (a, fst (read_account mv (tx_index tx) a backing)))
      [a\<leftarrow>read_addresses tx. a \<noteq> tx_sender tx \<and> a \<noteq> tx_recipient tx]"
    by (rule map_cong) (auto simp: a)
  moreover have "map (\<lambda>(a, s). ((a, s), fst (read_storage h (tx_index tx) a s backing))) (slot_keys (read_slots tx)) =
    map (\<lambda>(a, s). ((a, s), fst (read_storage mv (tx_index tx) a s backing))) (slot_keys (read_slots tx))"
    by (rule map_cong) (auto simp: s)
  moreover have "read_account h i (tx_sender tx) backing = read_account mv i (tx_sender tx) backing"
    "read_account h i (tx_recipient tx) backing = read_account mv i (tx_recipient tx) backing" for i
    by (simp_all add: a touched_def)
  ultimately show ?thesis by (simp only: pevm_thread_def Let_def)
qed

lemma mv_accounts_fold_storage [simp]:
  "mv_accounts (foldl (\<lambda>mv (k, v). write_storage i k v mv) mv ws) = mv_accounts mv"
  by (induction ws arbitrary: mv) (auto simp: write_storage_def)

lemma mv_storage_fold_storage:
  "k \<notin> fst ` set ws \<Longrightarrow> mv_storage (foldl (\<lambda>mv (k, v). write_storage i k v mv) mv ws) k = mv_storage mv k"
  by (induction ws arbitrary: mv) (auto simp: write_storage_def)

lemma fst_slot_writes: "fst ` set (slot_writes tx) = set (slot_keys (write_slots tx))"
  by (force simp: slot_writes_def)

lemma agree_for_commit:
  assumes "\<not> conflicts t u" and "declares_transfer t" and "declares_transfer u"
  shows "agree_for u mv (pevm_commit t res mv)"
proof -
  have "\<not> address_conflicts t u" "\<not> slot_conflicts t u" using assms(1) by (simp_all add: conflicts_def)
  then have acc: "(touched u \<union> set (read_addresses u)) \<inter> touched t = {}"
    and slot: "set (slot_keys (read_slots u)) \<inter> fst ` set (slot_writes t) = {}"
    using assms(2,3) unfolding address_conflicts_def slot_conflicts_def declares_transfer_def fst_slot_writes
    by blast+
  have "mv_storage (pevm_commit t res mv) k = mv_storage mv k" if "k \<in> set (slot_keys (read_slots u))" for k
  proof -
    have "k \<notin> fst ` set (slot_writes t)" using slot that by blast
    then show ?thesis by (simp add: pevm_commit_def mv_storage_fold_storage write_account_def)
  qed
  moreover have "mv_accounts (pevm_commit t res mv) a = mv_accounts mv a" if "a \<in> touched u \<union> set (read_addresses u)" for a
  proof -
    have "a \<notin> touched t" using acc that by blast
    then show ?thesis by (simp add: pevm_commit_def write_account_def touched_def)
  qed
  ultimately show ?thesis by (simp add: agree_for_def)
qed

lemma agree_for_trans: "agree_for u a b \<Longrightarrow> agree_for u b c \<Longrightarrow> agree_for u a c"
  by (simp add: agree_for_def)

lemma pevm_round_independent:
  assumes "hist_ok b hist" and "ascending_from b txs" and "conflict_free txs"
    and "\<And>t. t \<in> set txs \<Longrightarrow> declares_transfer t"
    and "\<And>t h. t \<in> set txs \<Longrightarrow> h \<in> set hist \<Longrightarrow> agree_for t h (last hist)"
  shows "(\<exists>mv'. pevm_round sched backing hist txs = Ok (mv', []) \<and>
      seq_run txs (finalize_mvcc (last hist) backing) = Ok (finalize_mvcc mv' backing)) \<or>
    (\<exists>e. pevm_round sched backing hist txs = Err e \<and>
      seq_run txs (finalize_mvcc (last hist) backing) = Err e)"
  using assms
proof (induction txs arbitrary: hist b)
  case (Cons tx txs)
  let ?n = "length hist - 1" and ?mv = "last hist"
  let ?h = "hist ! min (sched ?n) ?n"
  have "0 < length hist" using Cons.prems(1) by (simp add: hist_ok_def)
  then have "?h \<in> set hist" by (intro nth_mem) linarith
  then have h: "pevm_thread backing ?h tx = pevm_thread backing ?mv tx"
    using Cons.prems(5) by (intro pevm_thread_cong) simp
  have b: "b \<le> tx_index tx" and asc: "ascending_from (Suc (tx_index tx)) txs"
    using Cons.prems(2) by (simp_all add: ascending_from_Cons)
  have below: "store_below (tx_index tx) ?mv"
    using Cons.prems(1) b store_below_mono by (auto simp: hist_ok_def)
  from fresh_thread [OF below, of backing] show ?case
  proof (elim disjE exE conjE)
    fix res
    let ?mv' = "pevm_commit tx res ?mv"
    assume res: "pevm_thread backing ?mv tx = Ok res" "\<not> pevm_conflict backing ?mv (tx_index tx) res"
      "wave_tx (finalize_mvcc ?mv backing) tx = Ok (wave_result tx res)"
    have "pevm_round sched backing hist (tx # txs) = pevm_round sched backing (hist @ [?mv']) txs"
      by (simp only: pevm_round.simps Let_def h res(1) and_then.simps res(2) if_False)
    moreover have "agree_for u g (last (hist @ [?mv']))" if "u \<in> set txs" "g \<in> set (hist @ [?mv'])" for u g
    proof -
      have "\<not> conflicts tx u" using Cons.prems(3) that(1) by (simp add: conflict_free_def)
      then have "agree_for u ?mv ?mv'" using Cons.prems(4) that(1) by (intro agree_for_commit) simp_all
      then show ?thesis using Cons.prems(5) [of u g] that agree_for_trans by (auto simp: agree_for_def)
    qed
    moreover have "conflict_free txs" using Cons.prems(3) by (simp add: conflict_free_def)
    ultimately show ?thesis
      using Cons.IH [OF hist_ok_commit [OF Cons.prems(1) b, of res] asc] Cons.prems(4) res(3)
      by (simp add: finalize_commit [OF below])
  next
    fix e
    assume e: "pevm_thread backing ?mv tx = Err e" "wave_tx (finalize_mvcc ?mv backing) tx = Err e"
    have "pevm_round sched backing hist (tx # txs) = Err e"
      by (simp only: pevm_round.simps Let_def h e(1) and_then.simps)
    with e(2) show ?thesis by simp
  qed
qed simp

lemma pevm_execute_independent:
  assumes "ascending txs" and "conflict_free txs" and "\<And>t. t \<in> set txs \<Longrightarrow> declares_transfer t"
  shows "pevm_execute sched txs db = seq_run txs db"
  using pevm_round_independent [OF hist_ok_default _ assms(2,3), of "sched 19" db] assms(1)
  by (auto simp: pevm_execute_unfold ascending_def ascending_from_def agree_for_def)

lemma pevm_rounds_numeral:
  "pevm_rounds sched backing (numeral k) mv pending =
     and_then (pevm_round (sched (pred_numeral k)) backing [mv] pending) (\<lambda>(mv', again).
       if again = [] then Ok mv'
       else if pred_numeral k = 0 then Err NoConvergence
       else pevm_rounds sched backing (pred_numeral k) mv' again)"
  by (simp only: numeral_eq_Suc pevm_rounds.simps)

lemmas pevm_eval = pevm_execute_unfold pevm_thread_def pevm_conflict_def pevm_commit_def
  read_account_def read_storage_def latest_below_def mvcc_default_def write_account_def put_version_def
  pevm_rounds_numeral clear_writes_def

definition fan_in_block :: "tx_access_list list" where
  "fan_in_block = [transfer_list 0 1 3 10 0, transfer_list 1 2 3 10 0, transfer_list 2 4 2 5 0]"

definition fan_in_db :: witness_database where
  "fan_in_db = funded_db [(1, 20), (2, 20), (4, 5)]"

section \<open>Properties\<close>

text \<open>On a block whose access lists do not conflict the engines agree: whatever commits the
  threads of the optimistic executor happened to see, it returns what running the block in
  order returns, and so does the wave executor, errors included.\<close>

theorem engines_agree_independent:
  assumes "ascending txs" and "conflict_free txs" and "\<And>t. t \<in> set txs \<Longrightarrow> declares_transfer t"
  shows "pevm_execute sched txs db = seq_run txs db \<and>
    map_option seq_view (wave_execute txs db) = Some (seq_run txs db)"
proof -
  have "distinct (map tx_index txs)" using assms(1) by (simp add: ascending_def strict_sorted_iff)
  then show ?thesis
    using pevm_execute_independent [of txs sched db, OF assms]
      wave_execute_independent [of txs db, OF _ assms(2,3)] by simp
qed

lemma engines_agree_independent_witness:
  "pevm_execute (\<lambda>_ _. 0) two_payments (funded_db [(1, 20), (3, 5)]) =
     seq_run two_payments (funded_db [(1, 20), (3, 5)]) \<and>
   map_option seq_view (wave_execute two_payments (funded_db [(1, 20), (3, 5)])) =
     Some (seq_run two_payments (funded_db [(1, 20), (3, 5)]))"
  by (rule engines_agree_independent)
    (auto simp: two_payments_def transfer_list_def ascending_def conflict_free_def conflicts_def
      address_conflicts_def slot_conflicts_def slot_keys_def declares_transfer_def touched_def)

text \<open>C2: when every thread of the first round passes validation, the optimistic executor returns
  what running the block in the order of the indices returns, whichever commits the threads
  saw and whatever the access lists declare.\<close>

theorem pevm_validated_serializable:
  assumes "ascending txs" and "pevm_round (sched 19) db [mvcc_default] txs = Ok (mv, [])"
  shows "pevm_execute sched txs db = seq_run txs db"
  by (rule pevm_execute_first_round [of txs sched db mv, OF assms])

lemma chained_round:
  "pevm_round (\<lambda>n. n) (funded_db [(1, 20)]) [mvcc_default] chained_block =
    Ok (fst (ok_value (pevm_round (\<lambda>n. n) (funded_db [(1, 20)]) [mvcc_default] chained_block)), [])"
  by (simp add: pevm_eval chained_block_def engine_eval)

lemma pevm_validated_serializable_witness:
  "pevm_execute (\<lambda>_ n. n) chained_block (funded_db [(1, 20)]) =
     seq_run chained_block (funded_db [(1, 20)])"
  by (rule pevm_validated_serializable [of chained_block "\<lambda>_ n. n", OF _ chained_round])
    (simp add: chained_block_def transfer_list_def ascending_def)

text \<open>The optimistic executor's verdict depends on the thread schedule. The same block, on the
  same database, is accepted when each thread runs after the commits before it, and rejected
  with a nonce error when the threads run first.\<close>

theorem pevm_schedule_dependent:
  "is_ok (pevm_execute (\<lambda>_ n. n) chained_block (funded_db [(1, 20)])) \<and>
   pevm_execute (\<lambda>_ n. 0) chained_block (funded_db [(1, 20)]) = Err (NonceMismatch 1 1 0)"
  by (simp add: pevm_eval chained_block_def engine_eval)

text \<open>The optimistic executor can lose an update. A transaction that committed is not validated
  again when an earlier one, re-executed, writes what it read: here account 2 pays 10 and
  receives 5, and keeps its 20, the 5 and its nonce.\<close>

theorem pevm_loses_update:
  "\<exists>d d'. seq_run fan_in_block fan_in_db = Ok d \<and> pevm_execute (\<lambda>_ n. 0) fan_in_block fan_in_db = Ok d' \<and>
     (aw_balance (get_account d 2), aw_nonce (get_account d 2)) = (15, 1) \<and>
     (aw_balance (get_account d' 2), aw_nonce (get_account d' 2)) = (25, 0) \<and>
     aw_balance (get_account d' 3) = aw_balance (get_account d 3)"
  by (simp add: pevm_eval fan_in_block_def fan_in_db_def engine_eval finalize_mvcc_def)

end
