(* ===== verification/Parallel_Engines.thy ===== *)
theory Parallel_Engines
  imports Parallel_Pevm
begin

text \<open>
  The trait \<open>ParallelExecutor\<close> (\<open>crates/consensus/src/parallel.rs\<close>) as a locale. Its law is what the three
  engines have in common: on a block whose access lists do not conflict they run the block in order, and
  leave the database alone when a transaction fails. The lemmas of the locale say what such a block does;
  \<open>run_engine\<close> dispatches as the boxed trait object does, so they hold for the engine of any
  configured name.
\<close>

section \<open>The transactions of a block that share no account\<close>

definition affordable :: "witness_database \<Rightarrow> tx_access_list \<Rightarrow> bool" where
  "affordable db tx \<longleftrightarrow>
     aw_nonce (get_account db (tx_sender tx)) = tx_nonce tx \<and> tx_value tx \<le> aw_balance (get_account db (tx_sender tx))"

lemma wave_tx_Ok_iff: "(\<exists>res. wave_tx db tx = Ok res) \<longleftrightarrow> affordable db tx"
  by (auto simp: wave_tx_def transfer_def affordable_def not_less)

lemma seq_run_Ok_iff:
  "disjoint_wave txs \<Longrightarrow> (\<exists>db'. seq_run txs db = Ok db') \<longleftrightarrow> (\<forall>tx \<in> set txs. affordable db tx)"
proof -
  have "(\<exists>rs. join_threads db txs = Ok rs) \<longleftrightarrow> (\<forall>tx \<in> set txs. affordable db tx)"
    by (induction txs) (auto simp: outcome_simps simp flip: wave_tx_Ok_iff)
  moreover assume "disjoint_wave txs"
  then have "seq_run txs db = exec_wave db txs" by (simp add: exec_wave_seq)
  ultimately show ?thesis by (auto simp: exec_wave_def outcome_simps)
qed

definition block_accounts :: "tx_access_list list \<Rightarrow> address set" where
  "block_accounts txs = (\<Union>tx \<in> set txs. touched tx)"

lemma seq_run_untouched:
  "seq_run txs db = Ok db' \<Longrightarrow> a \<notin> block_accounts txs \<Longrightarrow> get_account db' a = get_account db a"
proof (induction txs arbitrary: db)
  case (Cons t txs)
  obtain res where res: "wave_tx db t = Ok res" "seq_run txs (apply_result db res) = Ok db'"
    using Cons.prems(1) by (auto simp: outcome_simps)
  have "get_account db' a = get_account (apply_result db res) a"
    using Cons.IH [OF res(2)] Cons.prems(2) by (simp add: block_accounts_def)
  then show ?case
    using Cons.prems(2) wave_tx_res [OF res(1)] by (auto simp: block_accounts_def touched_def get_account_apply)
qed simp

lemma seq_run_touched:
  assumes "disjoint_wave txs" and "seq_run txs db = Ok db'" and "t \<in> set txs"
  shows "\<exists>res. wave_tx db t = Ok res \<and> (\<forall>a \<in> touched t. get_account db' a = get_account (apply_result db res) a)"
  using assms
proof (induction txs arbitrary: db)
  case (Cons u txs)
  obtain res where res: "wave_tx db u = Ok res" and rest: "seq_run txs (apply_result db res) = Ok db'"
    using Cons.prems(2) by (auto simp: outcome_simps)
  have dis: "touched u \<inter> touched v = {}" if "v \<in> set txs" for v
    using Cons.prems(1) that by (simp add: disjoint_wave_def)
  show ?case
  proof (cases "t = u")
    case True
    have "get_account db' a = get_account (apply_result db res) a" if "a \<in> touched u" for a
      using that dis by (intro seq_run_untouched [OF rest]) (auto simp: block_accounts_def)
    with res True show ?thesis by blast
  next
    case False
    then have t: "t \<in> set txs" using Cons.prems(3) by simp
    have dw: "disjoint_wave txs" using Cons.prems(1) by (simp add: disjoint_wave_def)
    obtain r where r: "wave_tx (apply_result db res) t = Ok r"
      and same: "\<forall>a \<in> touched t. get_account db' a = get_account (apply_result (apply_result db res) r) a"
      using Cons.IH [OF dw rest t] by blast
    have "get_account (apply_result db res) a = get_account db a" if "a \<in> touched t" for a
      using that dis [OF t] wave_tx_res [OF res] by (auto simp: get_account_apply touched_def)
    then have "wave_tx db t = Ok r" using r wave_tx_cong [of t "apply_result db res" db] by simp
    with same wave_tx_res [OF r] show ?thesis by (auto simp: get_account_apply touched_def)
  qed
qed simp

text \<open>What a payment does to its two accounts\<close>

lemma wave_tx_payment:
  assumes "wave_tx db t = Ok res" and "tx_sender t \<noteq> tx_recipient t"
  shows "get_account (apply_result db res) (tx_sender t) = (get_account db (tx_sender t))
      \<lparr>aw_balance := aw_balance (get_account db (tx_sender t)) - tx_value t, aw_nonce := aw_nonce (get_account db (tx_sender t)) + 1\<rparr>"
    and "get_account (apply_result db res) (tx_recipient t) = (get_account db (tx_recipient t))
      \<lparr>aw_balance := aw_balance (get_account db (tx_recipient t)) + tx_value t\<rparr>"
  using assms by (auto simp: wave_tx_def transfer_def outcome_simps get_account_apply split: if_splits)

section \<open>Its storage\<close>

lemma read_write_slot:
  "wdb_read_storage (write_slot db ((a, s), v)) b u = (if (b, u) = (a, s) then v else wdb_read_storage db b u)"
  by (auto simp: write_slot_def wdb_read_storage_def split: option.splits)

lemma read_write_slots:
  "wdb_read_storage (foldl write_slot db (map (\<lambda>(a, s). ((a, s), slot_value t s)) keys)) b u =
    (if (b, u) \<in> set keys then slot_value t u else wdb_read_storage db b u)"
  by (induction keys arbitrary: db) (auto simp: read_write_slot split: if_splits)

lemma read_apply_result:
  assumes "wave_tx db t = Ok res"
  shows "wdb_read_storage (apply_result db res) b u =
    (if (b, u) \<in> set (slot_keys (write_slots t)) then slot_value t u else wdb_read_storage db b u)"
proof -
  have "res_write_slots res = slot_writes t" using assms by (auto simp: wave_tx_def outcome_simps)
  then show ?thesis
    using read_write_slots [of _ t "slot_keys (write_slots t)" b u] by (simp add: apply_result_def slot_writes_def wdb_read_storage_def)
qed

definition block_slots :: "tx_access_list list \<Rightarrow> (address \<times> u256) set" where
  "block_slots txs = (\<Union>tx \<in> set txs. set (slot_keys (write_slots tx)))"

lemma seq_run_unwritten:
  "seq_run txs db = Ok db' \<Longrightarrow> (b, u) \<notin> block_slots txs \<Longrightarrow> wdb_read_storage db' b u = wdb_read_storage db b u"
proof (induction txs arbitrary: db)
  case (Cons t txs)
  obtain res where res: "wave_tx db t = Ok res" "seq_run txs (apply_result db res) = Ok db'"
    using Cons.prems(1) by (auto simp: outcome_simps)
  then have "wdb_read_storage db' b u = wdb_read_storage (apply_result db res) b u"
    using Cons.IH [OF res(2)] Cons.prems(2) by (simp add: block_slots_def)
  with Cons.prems(2) show ?case by (simp add: read_apply_result [OF res(1)] block_slots_def)
qed simp

lemma seq_run_written:
  assumes "conflict_free txs" and "seq_run txs db = Ok db'" and "t \<in> set txs" and "(b, u) \<in> set (slot_keys (write_slots t))"
  shows "wdb_read_storage db' b u = slot_value t u"
  using assms
proof (induction txs arbitrary: db)
  case (Cons v txs)
  obtain res where res: "wave_tx db v = Ok res" and rest: "seq_run txs (apply_result db res) = Ok db'"
    using Cons.prems(2) by (auto simp: outcome_simps)
  have "\<not> slot_conflicts v w" if "w \<in> set txs" for w
    using Cons.prems(1) that by (simp add: conflict_free_def conflicts_def)
  then have "(b, u) \<notin> block_slots txs" if "t = v"
    using that Cons.prems(4) by (auto simp: slot_conflicts_def block_slots_def)
  then have "wdb_read_storage db' b u = slot_value t u" if "t = v"
    using that seq_run_unwritten [OF rest] read_apply_result [OF res] Cons.prems(4) by simp
  moreover have "conflict_free txs" using Cons.prems(1) by (simp add: conflict_free_def)
  ultimately show ?case using Cons.IH [OF _ rest _ Cons.prems(4)] Cons.prems(3) by (cases "t = v") simp_all
qed simp

section \<open>The trait\<close>

definition independent_block :: "tx_access_list list \<Rightarrow> bool" where
  "independent_block txs \<longleftrightarrow> ascending txs \<and> conflict_free txs \<and> (\<forall>t \<in> set txs. declares_transfer t)"

fun in_place :: "witness_database \<Rightarrow> (witness_database, exec_error) outcome \<Rightarrow> witness_database \<times> (unit, exec_error) outcome" where
  "in_place db (Ok db') = (db', Ok ())"
| "in_place db (Err e) = (db, Err e)"
| "in_place db Panic = (db, Panic)"

lemma in_place_Ok: "in_place db r = (db', Ok x) \<longleftrightarrow> r = Ok db'"
  by (cases r) auto

locale parallel_executor =
  fixes execute_access_lists :: "tx_access_list list \<Rightarrow> witness_database \<Rightarrow> (witness_database \<times> (unit, exec_error) outcome) option"
  assumes runs_in_order: "independent_block txs \<Longrightarrow> execute_access_lists txs db = Some (in_place db (seq_run txs db))"
begin

lemma succeeds_iff:
  assumes "independent_block txs"
  shows "(\<exists>db'. execute_access_lists txs db = Some (db', Ok ())) \<longleftrightarrow> (\<forall>t \<in> set txs. affordable db t)"
proof -
  have "disjoint_wave txs" using assms by (auto simp: independent_block_def intro: conflict_free_disjoint)
  from seq_run_Ok_iff [OF this, of db] show ?thesis by (simp add: runs_in_order [OF assms] in_place_Ok)
qed

lemma fails_unchanged:
  "independent_block txs \<Longrightarrow> execute_access_lists txs db = Some (db', Err e) \<Longrightarrow> db' = db"
  by (cases "seq_run txs db") (simp_all add: runs_in_order)

lemma settles:
  assumes "independent_block txs" and "execute_access_lists txs db = Some (db', Ok ())"
    and "t \<in> set txs" and "tx_sender t \<noteq> tx_recipient t"
  shows "get_account db' (tx_sender t) = (get_account db (tx_sender t))
      \<lparr>aw_balance := aw_balance (get_account db (tx_sender t)) - tx_value t, aw_nonce := aw_nonce (get_account db (tx_sender t)) + 1\<rparr>"
    and "get_account db' (tx_recipient t) = (get_account db (tx_recipient t))
      \<lparr>aw_balance := aw_balance (get_account db (tx_recipient t)) + tx_value t\<rparr>"
proof -
  have "disjoint_wave txs" using assms(1) by (auto simp: independent_block_def intro: conflict_free_disjoint)
  moreover have "seq_run txs db = Ok db'" using assms(2) by (simp add: runs_in_order [OF assms(1)] in_place_Ok)
  ultimately obtain res where "wave_tx db t = Ok res" "\<forall>a \<in> touched t. get_account db' a = get_account (apply_result db res) a"
    using seq_run_touched [OF _ _ assms(3)] by blast
  with wave_tx_payment [OF _ assms(4)]
  show "get_account db' (tx_sender t) = (get_account db (tx_sender t))
      \<lparr>aw_balance := aw_balance (get_account db (tx_sender t)) - tx_value t, aw_nonce := aw_nonce (get_account db (tx_sender t)) + 1\<rparr>"
    and "get_account db' (tx_recipient t) = (get_account db (tx_recipient t))
      \<lparr>aw_balance := aw_balance (get_account db (tx_recipient t)) + tx_value t\<rparr>"
    by (simp_all add: touched_def)
qed

lemma frame:
  assumes "independent_block txs" and "execute_access_lists txs db = Some (db', Ok ())"
  shows "a \<notin> block_accounts txs \<Longrightarrow> get_account db' a = get_account db a"
    and "(b, u) \<notin> block_slots txs \<Longrightarrow> wdb_read_storage db' b u = wdb_read_storage db b u"
    and "t \<in> set txs \<Longrightarrow> (b, u) \<in> set (slot_keys (write_slots t)) \<Longrightarrow> wdb_read_storage db' b u = slot_value t u"
proof -
  have run: "seq_run txs db = Ok db'" using assms(2) by (simp add: runs_in_order [OF assms(1)] in_place_Ok)
  show "a \<notin> block_accounts txs \<Longrightarrow> get_account db' a = get_account db a" by (rule seq_run_untouched [OF run])
  show "(b, u) \<notin> block_slots txs \<Longrightarrow> wdb_read_storage db' b u = wdb_read_storage db b u" by (rule seq_run_unwritten [OF run])
  show "t \<in> set txs \<Longrightarrow> (b, u) \<in> set (slot_keys (write_slots t)) \<Longrightarrow> wdb_read_storage db' b u = slot_value t u"
    using assms(1) by (intro seq_run_written [OF _ run]) (auto simp: independent_block_def)
qed

end

section \<open>The three engines\<close>

lemma wave_in_place:
  assumes "independent_block txs"
  shows "wave_execute txs db = Some (in_place db (seq_run txs db))"
proof (cases "txs = []")
  case True
  then show ?thesis by (simp add: wave_execute_def partition_waves_def waves_loop.simps)
next
  case False
  have "distinct (map tx_index txs)" "disjoint_wave txs" "conflict_free txs"
    using assms by (auto simp: independent_block_def ascending_def strict_sorted_iff intro: conflict_free_disjoint)
  then have "wave_execute txs db = Some (exec_waves db [txs])" "exec_wave db txs = seq_run txs db"
    using partition_waves_independent [OF False] by (simp_all add: wave_execute_def exec_wave_seq)
  then show ?thesis by (cases "seq_run txs db") simp_all
qed

text \<open>The trace that Grevm returns is dropped by the trait's result.\<close>

definition grevm_run :: "tx_access_list list \<Rightarrow> witness_database \<Rightarrow> (witness_database \<times> (unit, exec_error) outcome) option" where
  "grevm_run txs db = map_option (\<lambda>(db', r). (db', and_then r (\<lambda>_. Ok ()))) (grevm_execute txs db)"

text \<open>\<open>run_engine\<close> is the call through the trait object; \<open>sched\<close> is what the threads of Pevm happen to see.\<close>

fun run_engine ::
  "(nat \<Rightarrow> nat \<Rightarrow> nat) \<Rightarrow> engine \<Rightarrow> tx_access_list list \<Rightarrow> witness_database
    \<Rightarrow> (witness_database \<times> (unit, exec_error) outcome) option" where
  "run_engine sched WaveEngine txs db = wave_execute txs db"
| "run_engine sched GrevmEngine txs db = grevm_run txs db"
| "run_engine sched PevmEngine txs db = Some (in_place db (pevm_execute sched txs db))"

interpretation wave_engine: parallel_executor wave_execute
  by unfold_locales (rule wave_in_place)

interpretation grevm_engine: parallel_executor grevm_run
  by unfold_locales (simp add: grevm_run_def grevm_execute_eq_wave wave_in_place)

interpretation pevm_engine: parallel_executor "\<lambda>txs db. Some (in_place db (pevm_execute sched txs db))" for sched
  by unfold_locales (simp add: independent_block_def pevm_execute_independent)

interpretation any_engine: parallel_executor "run_engine sched e" for sched e
proof
  fix txs db assume "independent_block txs"
  then show "run_engine sched e txs db = Some (in_place db (seq_run txs db))"
    using wave_engine.runs_in_order grevm_engine.runs_in_order pevm_engine.runs_in_order [of txs db sched]
    by (cases e) simp_all
qed

section \<open>Properties\<close>


lemma two_payments_independent: "independent_block two_payments"
  by (auto simp: independent_block_def two_payments_def transfer_list_def ascending_def conflict_free_def conflicts_def
      address_conflicts_def slot_conflicts_def slot_keys_def declares_transfer_def touched_def)


end
