(* ===== verification/Parallel_Convergence.thy ===== *)
theory Parallel_Convergence
  imports Parallel_Engines
begin

text \<open>
  How many rounds the optimistic executor (\<open>PevmExecutor\<close> in \<open>crates/consensus/src/parallel.rs\<close>) needs. Every
  round commits its first transaction, so twenty rounds are enough for twenty transactions; payments
  of different senders to one account need a round each when the threads read before the first
  commit, which is what happens when they are spawned together.
\<close>

section \<open>Every round makes progress\<close>

lemma own_reads_valid: "pevm_thread db mv t = Ok res \<Longrightarrow> \<not> pevm_conflict db mv (tx_index t) res"
  by (auto simp: pevm_thread_def pevm_conflict_def Let_def outcome_simps split: prod.splits)

lemma pevm_thread_error: "pevm_thread db mv t \<noteq> Err NoConvergence"
  by (auto simp: pevm_thread_def Let_def outcome_simps transfer_def split: prod.splits if_splits)

lemma pevm_round_error: "pevm_round sched db hist txs \<noteq> Err NoConvergence"
  by (induction txs arbitrary: hist) (auto simp: Let_def outcome_simps pevm_thread_error split: if_splits)

lemma pevm_round_again: "pevm_round sched db hist txs = Ok (mv, again) \<Longrightarrow> length again \<le> length txs"
proof (induction txs arbitrary: hist again)
  case (Cons t txs)
  then show ?case by (fastforce simp: Let_def outcome_simps split: if_splits dest: le_SucI)
qed simp

lemma pevm_round_progress:
  assumes "pevm_round sched db [mv] (t # txs) = Ok (mv', again)"
  shows "length again \<le> length txs"
proof -
  have "[mv] ! min (sched 0) 0 = mv" by simp
  with assms obtain res where "pevm_thread db mv t = Ok res"
    and "pevm_round sched db ([mv] @ [pevm_commit t res mv]) txs = Ok (mv', again)"
    using own_reads_valid by (auto simp: Let_def outcome_simps split: if_splits)
  then show ?thesis using pevm_round_again by blast
qed

lemma pevm_rounds_enough:
  "length pending \<le> left \<Longrightarrow> pevm_rounds sched db left mv pending \<noteq> Err NoConvergence"
proof (induction left arbitrary: mv pending)
  case (Suc left)
  show ?case
  proof (cases "pevm_round (sched left) db [mv] pending")
    case (Ok r)
    obtain mv' again where r: "r = (mv', again)" by fastforce
    have len: "length again \<le> left"
      using Suc.prems pevm_round_progress Ok r by (cases pending) (force, fastforce)
    then have "again = []" if "left = 0" using that by simp
    with Suc.IH [OF len, of mv'] show ?thesis by (auto simp: Ok r)
  qed (use pevm_round_error [of "sched left" db "[mv]" pending] in auto)
qed simp

section \<open>Payments to one account\<close>

definition fan_in :: "address \<Rightarrow> tx_access_list list \<Rightarrow> bool" where
  "fan_in hub txs \<longleftrightarrow> ascending txs \<and> distinct (map tx_sender txs) \<and>
     (\<forall>t \<in> set txs. tx_recipient t = hub \<and> tx_sender t \<noteq> hub)"

lemma fan_in_seq_run:
  assumes "distinct (map tx_sender txs)" and "\<forall>t \<in> set txs. tx_recipient t = hub \<and> tx_sender t \<noteq> hub"
    and "\<forall>t \<in> set txs. affordable db t"
  shows "\<exists>db'. seq_run txs db = Ok db'"
  using assms
proof (induction txs arbitrary: db)
  case (Cons t txs)
  obtain res where res: "wave_tx db t = Ok res" using Cons.prems(3) wave_tx_Ok_iff [of db t] by auto
  have "get_account (apply_result db res) (tx_sender u) = get_account db (tx_sender u)" if "u \<in> set txs" for u
  proof -
    have "tx_sender u \<noteq> tx_sender t" "tx_sender u \<noteq> tx_recipient t" using that Cons.prems(1,2) by (auto simp: rev_image_eqI)
    then show ?thesis using wave_tx_res [OF res] by (simp add: get_account_apply)
  qed
  then have "\<forall>u \<in> set txs. affordable (apply_result db res) u" using Cons.prems(3) by (simp add: affordable_def)
  then show ?case using Cons.IH [of "apply_result db res"] Cons.prems by (simp add: res)
qed simp

text \<open>A store that holds nothing of the pending payers and nothing newer than them\<close>

definition awaits :: "nat \<Rightarrow> address \<Rightarrow> witness_database \<Rightarrow> mvcc_state \<Rightarrow> tx_access_list list \<Rightarrow> bool" where
  "awaits b hub db mv txs \<longleftrightarrow> store_below b mv \<and> ascending_from b txs \<and> distinct (map tx_sender txs) \<and>
     (\<forall>t \<in> set txs. tx_recipient t = hub \<and> tx_sender t \<noteq> hub \<and> affordable db t \<and> mv_accounts mv (tx_sender t) = [])"

lemma awaiting_thread:
  assumes "awaits b hub db mv txs" and "t \<in> set txs"
  obtains res where "pevm_thread db mv t = Ok res"
    and "(hub, fst (read_account mv (tx_index t) hub db)) \<in> set (pr_read_accounts res)"
proof -
  have t: "tx_recipient t = hub" "affordable db t" "mv_accounts mv (tx_sender t) = []"
    using assms by (auto simp: awaits_def)
  have "snd (read_account mv (tx_index t) (tx_sender t) db) = get_account db (tx_sender t)"
    by (simp add: read_account_def latest_below_def t(3))
  with t(2) have "\<exists>res. pevm_thread db mv t = Ok res"
    by (auto simp: pevm_thread_def transfer_def affordable_def Let_def not_less split: prod.split)
  then obtain res where "pevm_thread db mv t = Ok res" by blast
  with that pevm_thread_transfer [OF this] t(1) show ?thesis by auto
qed

lemma pevm_commit_accounts:
  "mv_accounts (pevm_commit t res mv) a =
    (if a = tx_recipient t then put_version (tx_index t) (pr_recipient_acc res)
       (if a = tx_sender t then put_version (tx_index t) (pr_sender_acc res) (mv_accounts mv a) else mv_accounts mv a)
     else if a = tx_sender t then put_version (tx_index t) (pr_sender_acc res) (mv_accounts mv a) else mv_accounts mv a)"
  by (simp add: pevm_commit_def write_account_def)

lemma clear_writes_below: "store_below i mv \<Longrightarrow> i \<le> j \<Longrightarrow> clear_writes j mv = mv"
proof -
  assume below: "store_below i mv" and "i \<le> j"
  have "\<forall>v \<in> set (mv_accounts mv a). fst v \<noteq> j" for a
  proof -
    have "versions_below i (mv_accounts mv a)" using below by (simp add: store_below_def)
    with \<open>i \<le> j\<close> show ?thesis by (auto simp: versions_below_def)
  qed
  moreover have "\<forall>v \<in> set (mv_storage mv k). fst v \<noteq> j" for k
  proof -
    have "versions_below i (mv_storage mv k)" using below unfolding store_below_def by blast
    with \<open>i \<le> j\<close> show ?thesis by (auto simp: versions_below_def)
  qed
  ultimately show ?thesis by (intro mvcc_state.equality ext) (simp_all add: clear_writes_def filter_id_conv)
qed

text \<open>All the other threads of the round have read the account before its first payment.\<close>

lemma others_conflict:
  assumes "\<forall>u \<in> set us. \<exists>res. pevm_thread db mv u = Ok res \<and> pevm_conflict db mv' (tx_index u) res \<and> clear_writes (tx_index u) mv' = mv'"
    and "hist \<noteq> []" and "hist ! 0 = mv" and "last hist = mv'"
  shows "pevm_round (\<lambda>_. 0) db hist us = Ok (mv', us)"
  using assms
proof (induction us arbitrary: hist)
  case (Cons u us)
  then obtain res where "pevm_thread db mv u = Ok res" "pevm_conflict db mv' (tx_index u) res" "clear_writes (tx_index u) mv' = mv'"
    by auto
  with Cons.IH [of "hist @ [mv']"] Cons.prems show ?case by (simp add: Let_def nth_append)
qed simp

lemma later_payer_conflicts:
  assumes paid: "mv_accounts mv' hub = mv_accounts mv hub @ [(i, acc)]" and vs: "versions_below i (mv_accounts mv hub)"
    and less: "i < j" and read: "(hub, fst (read_account mv j hub db)) \<in> set (pr_read_accounts r)"
  shows "pevm_conflict db mv' j r"
proof -
  have "fst (read_account mv' j hub db) = Some i" using less by (simp add: read_account_def latest_below_def paid)
  moreover have "fst (read_account mv j hub db) \<noteq> Some i"
  proof (cases "mv_accounts mv hub = []")
    case False
    have "fst (last (mv_accounts mv hub)) < i" using vs last_in_set [OF False] unfolding versions_below_def by blast
    then show ?thesis
      using latest_below_all [OF versions_below_mono [OF vs less_imp_le [OF less]]] False
      by (auto simp: read_account_def split: prod.splits)
  qed (simp add: read_account_def latest_below_def)
  ultimately show ?thesis
    unfolding pevm_conflict_def by (intro disjI1 bexI [OF _ read]) simp
qed

lemma fan_in_round:
  assumes wait: "awaits b hub db mv (t # ts)"
  shows "\<exists>mv'. pevm_round (\<lambda>_. 0) db [mv] (t # ts) = Ok (mv', ts) \<and> awaits (Suc (tx_index t)) hub db mv' ts"
proof -
  obtain res where res: "pevm_thread db mv t = Ok res" using awaiting_thread [OF wait] by auto
  define mv' where "mv' = pevm_commit t res mv"
  have b: "b \<le> tx_index t" and asc: "ascending_from (Suc (tx_index t)) ts"
    using wait by (simp_all add: awaits_def ascending_from_Cons)
  have below: "store_below (tx_index t) mv" using wait store_below_mono [OF _ b] by (simp add: awaits_def)
  then have below': "store_below (Suc (tx_index t)) mv'"
    unfolding mv'_def using store_extended_below pevm_commit_extended by blast
  have hub: "tx_recipient t = hub" "tx_sender t \<noteq> hub" using wait by (auto simp: awaits_def)
  have vs: "versions_below (tx_index t) (mv_accounts mv hub)" using below by (simp add: store_below_def)
  have paid: "mv_accounts mv' hub = mv_accounts mv hub @ [(tx_index t, pr_recipient_acc res)]"
    using hub by (simp add: mv'_def pevm_commit_accounts put_version_new [OF vs])
  have "\<exists>r. pevm_thread db mv u = Ok r \<and> pevm_conflict db mv' (tx_index u) r \<and> clear_writes (tx_index u) mv' = mv'"
    if u: "u \<in> set ts" for u
  proof -
    obtain r where r: "pevm_thread db mv u = Ok r" "(hub, fst (read_account mv (tx_index u) hub db)) \<in> set (pr_read_accounts r)"
      using awaiting_thread [OF wait, of u] u by auto
    have less: "tx_index t < tx_index u" using asc u by (auto simp: ascending_from_def Suc_le_eq)
    have "pevm_conflict db mv' (tx_index u) r" by (rule later_payer_conflicts [OF paid vs less r(2)])
    moreover have "clear_writes (tx_index u) mv' = mv'" using less by (intro clear_writes_below [OF below']) simp
    ultimately show ?thesis using r(1) by blast
  qed
  then have "pevm_round (\<lambda>_. 0) db ([mv] @ [mv']) ts = Ok (mv', ts)" by (intro others_conflict) simp_all
  then have "pevm_round (\<lambda>_. 0) db [mv] (t # ts) = Ok (mv', ts)"
    using own_reads_valid [OF res] by (simp add: res mv'_def Let_def)
  moreover have "mv_accounts mv' (tx_sender u) = []" if "u \<in> set ts" for u
  proof -
    have "tx_sender u \<noteq> tx_sender t" using that wait by (auto simp: awaits_def rev_image_eqI)
    with that wait show ?thesis by (auto simp: awaits_def mv'_def pevm_commit_accounts)
  qed
  then have "awaits (Suc (tx_index t)) hub db mv' ts" using wait below' asc by (simp add: awaits_def)
  ultimately show ?thesis by blast
qed

lemma fan_in_rounds:
  "awaits b hub db mv txs \<Longrightarrow> 0 < left \<Longrightarrow> left < length txs \<Longrightarrow>
    pevm_rounds (\<lambda>_ _. 0) db left mv txs = Err NoConvergence"
proof (induction left arbitrary: b mv txs)
  case (Suc left)
  then obtain t ts where txs: "txs = t # ts" by (cases txs) auto
  with Suc.prems(1) obtain mv' where round: "pevm_round (\<lambda>_. 0) db [mv] txs = Ok (mv', ts)"
    and wait: "awaits (Suc (tx_index t)) hub db mv' ts"
    using fan_in_round by blast
  have "ts \<noteq> []" "left < length ts" using Suc.prems(3) by (auto simp: txs)
  with round Suc.IH [OF wait] show ?case by (cases "left = 0") simp_all
qed simp

section \<open>Properties\<close>

text \<open>C4: how large a block the optimistic executor can be trusted with. A block of at most twenty
  transactions never fails to converge, whatever the threads see. The bound is sharp: every block
  of more payments, by different senders who can all pay, to one account, which runs in order without
  an error and is also executed when each thread sees the commits before it, is refused for lack of
  convergence when the threads read before the first commit.\<close>

theorem pevm_convergence_bound:
  "(length txs \<le> max_retries \<longrightarrow> pevm_execute sched txs db \<noteq> Err NoConvergence) \<and>
   (fan_in hub txs \<and> (\<forall>t \<in> set txs. affordable db t) \<and> max_retries < length txs \<longrightarrow>
     (\<exists>db'. seq_run txs db = Ok db' \<and> pevm_execute (\<lambda>_ n. n) txs db = Ok db') \<and>
     pevm_execute (\<lambda>_ _. 0) txs db = Err NoConvergence)"
proof (intro conjI impI)
  assume "length txs \<le> max_retries"
  then show "pevm_execute sched txs db \<noteq> Err NoConvergence"
    using pevm_rounds_enough by (auto simp: pevm_execute_def outcome_simps)
next
  assume a: "fan_in hub txs \<and> (\<forall>t \<in> set txs. affordable db t) \<and> max_retries < length txs"
  then have "ascending txs" "\<exists>db'. seq_run txs db = Ok db'"
    using fan_in_seq_run by (auto simp: fan_in_def)
  then show "\<exists>db'. seq_run txs db = Ok db' \<and> pevm_execute (\<lambda>_ n. n) txs db = Ok db'"
    using pevm_execute_fresh [of txs "\<lambda>_ n. n" db] by simp
  have "awaits 0 hub db mvcc_default txs"
    using a by (auto simp: awaits_def fan_in_def ascending_def ascending_from_def store_below_def mvcc_default_def)
  then have "pevm_rounds (\<lambda>_ _. 0) db max_retries mvcc_default txs = Err NoConvergence"
    using a by (intro fan_in_rounds) (auto simp: max_retries_def)
  then show "pevm_execute (\<lambda>_ _. 0) txs db = Err NoConvergence" by (simp add: pevm_execute_def)
qed

text \<open>Twenty-one senders pay one unit each to account 100.\<close>

definition crowd_block :: "tx_access_list list" where
  "crowd_block = map (\<lambda>i. transfer_list i (word_of_nat (i + 1)) 100 1 0) [0..<21]"

definition crowd_db :: witness_database where
  "crowd_db = funded_db (map (\<lambda>i. (word_of_nat (i + 1), 5)) [0..<21])"

lemma pevm_convergence_bound_witness:
  "pevm_execute (\<lambda>_ _. 0) (take 20 crowd_block) crowd_db \<noteq> Err NoConvergence \<and>
   pevm_execute (\<lambda>_ _. 0) crowd_block crowd_db = Err NoConvergence \<and> (\<exists>db'. seq_run crowd_block crowd_db = Ok db')"
proof -
  have "fan_in 100 crowd_block"
    by (simp add: fan_in_def crowd_block_def transfer_list_def ascending_def upt_rec)
  moreover have "\<forall>t \<in> set crowd_block. affordable crowd_db t"
    by (simp add: crowd_block_def crowd_db_def affordable_def engine_eval upt_rec)
  ultimately show ?thesis
    using pevm_convergence_bound [of "take 20 crowd_block" "\<lambda>_ _. 0" crowd_db 100]
      pevm_convergence_bound [of crowd_block "\<lambda>_ _. 0" crowd_db 100]
    by (auto simp: max_retries_def crowd_block_def)
qed

end
