(* ===== verification/Identity.thy ===== *)
theory Identity
  imports Did
begin

text \<open>
  The identity crate besides the documents: key types and \<open>DidPeer4\<close>
  (\<open>crates/identity/src/lib.rs\<close>), session keys and delegation paths (\<open>delegation.rs\<close>), and
  the federated identity providers (\<open>zkp_auth.rs\<close>). The provider trait is a locale,
  interpreted for the four providers. The network probe and the SIWE parser are parameters.
\<close>

section \<open>Key types and \<open>DidPeer4\<close>\<close>

datatype key_type =
    KtEd25519 | KtSecp256k1 | KtSecp256r1 | KtPasta | KtBls | KtMlDsa | KtSlhDsa | KtFalcon

fun kt_is_post_quantum :: "key_type \<Rightarrow> bool" where
  "kt_is_post_quantum KtMlDsa = True"
| "kt_is_post_quantum KtSlhDsa = True"
| "kt_is_post_quantum KtFalcon = True"
| "kt_is_post_quantum _ = False"

fun scheme_of_key_type :: "key_type \<Rightarrow> signature_scheme" where
  "scheme_of_key_type KtEd25519 = Ed25519"
| "scheme_of_key_type KtSecp256k1 = Secp256k1"
| "scheme_of_key_type KtSecp256r1 = Secp256r1"
| "scheme_of_key_type KtPasta = Pasta"
| "scheme_of_key_type KtBls = Bls"
| "scheme_of_key_type KtMlDsa = MlDsa"
| "scheme_of_key_type KtSlhDsa = SlhDsa"
| "scheme_of_key_type KtFalcon = Falcon"

record did_peer4 =
  dp_did :: string
  dp_key_type :: key_type
  dp_public_key :: bytes

datatype did_peer4_error =
  InvalidDidFormat | FailedToResolvePeer | NoVerificationMethods | NoPublicKeyBytes

definition detect_key_type :: "string \<Rightarrow> bytes \<Rightarrow> key_type" where
  "detect_key_type vm_type pk =
     (if vm_type = ''JsonWebKey2020'' then KtSecp256k1
      else if vm_type \<in> {''DilithiumVerificationKey2023'', ''MlDsaVerificationKey2024''} then KtMlDsa
      else if vm_type \<in> {''SphincsPlusVerificationKey2023'', ''SlhDsaVerificationKey2024''} then KtSlhDsa
      else if vm_type = ''FalconVerificationKey2023'' then KtFalcon
      else if length pk = 32 then KtEd25519
      else if length pk = 1312 \<or> length pk = 1952 \<or> length pk = 2592 then KtMlDsa
      else if starts_with pk [0x01, 0xd0] then KtSlhDsa
      else if starts_with pk [0x01, 0xd1] then KtFalcon
      else KtSecp256k1)"

text \<open>
  \<open>resolver\<close> is \<open>did_peer::DIDPeer::resolve\<close>: for each verification method its type and its
  key bytes, if they decode.
\<close>

definition did_peer4_resolve ::
  "(string \<Rightarrow> (string \<times> bytes option) list option) \<Rightarrow> string
    \<Rightarrow> (did_peer4, did_peer4_error) outcome" where
  "did_peer4_resolve resolver did =
     (if \<not> starts_with did ''did:peer:'' then Err InvalidDidFormat
      else case resolver did of
        None \<Rightarrow> Err FailedToResolvePeer
      | Some [] \<Rightarrow> Err NoVerificationMethods
      | Some ((vm_type, key) # _) \<Rightarrow>
          (case key of
             None \<Rightarrow> Err NoPublicKeyBytes
           | Some pk \<Rightarrow> Ok \<lparr>dp_did = did, dp_key_type = detect_key_type vm_type pk,
                            dp_public_key = pk\<rparr>))"

definition did_peer4_verify_signature ::
  "crypto_lib \<Rightarrow> did_peer4 \<Rightarrow> bytes \<Rightarrow> bytes \<Rightarrow> bool \<Rightarrow> (unit, crypto_error) outcome" where
  "did_peer4_verify_signature cl d message sig quantum_threat =
     verify_signature cl (scheme_of_key_type (dp_key_type d)) (dp_public_key d) message sig
       quantum_threat"

lemma scheme_of_key_type_post_quantum:
  "is_post_quantum (scheme_of_key_type k) = kt_is_post_quantum k"
  by (cases k) simp_all

lemma detect_key_type_Ed25519: "detect_key_type t pk = KtEd25519 \<Longrightarrow> length pk = 32"
  by (simp only: detect_key_type_def key_type.distinct if_False simp_thms split: if_split_asm)

text \<open>
  A key that was detected by \<open>resolve\<close> never makes verification panic: Ed25519 is chosen
  only for keys of 32 bytes.
\<close>

lemma did_peer4_verify_no_panic:
  assumes "did_peer4_resolve resolver did = Ok d"
  shows "did_peer4_verify_signature cl d msg sig qt \<noteq> Panic"
proof -
  from assms obtain t where "dp_key_type d = detect_key_type t (dp_public_key d)"
    by (auto simp: did_peer4_resolve_def split: if_splits option.splits list.splits)
  moreover have ed: "scheme_of_key_type k = Ed25519 \<Longrightarrow> k = KtEd25519" for k
    by (cases k) simp_all
  ultimately have "scheme_of_key_type (dp_key_type d) = Ed25519 \<Longrightarrow> length (dp_public_key d) = 32"
    by (metis detect_key_type_Ed25519)
  then show ?thesis
    unfolding did_peer4_verify_signature_def verify_signature_Panic_iff by linarith
qed

section \<open>Delegation\<close>

record session_key =
  sk_key :: address
  sk_expires_at :: u64

definition is_authorized :: "session_key \<Rightarrow> u64 \<Rightarrow> bool" where
  "is_authorized sk current_timestamp \<longleftrightarrow> current_timestamp \<le> sk_expires_at sk"

definition verify_path :: "string list \<Rightarrow> bool" where
  "verify_path path \<longleftrightarrow> path \<noteq> []"

section \<open>Identity providers\<close>

datatype id_error =
    FailedToResolveAddress | NoSocketAddresses | ConnectionRefused
  | SiweParse | SiweDomainMismatch
  | MissingUserOrSignature | GroupProofFailed | RelaySignatureFailed
  | MissingUserOrToken | SessionProofFailed
  | InvalidCard | NfcSignatureFailed

text \<open>
  The reachability probe: host and port are cut out of the URL, the name is resolved
  (\<open>None\<close>: resolution fails), and the addresses are tried in order. The outcome of one
  attempt is refused, connected without an answer, or answered.
\<close>

datatype probe = Refused | NoAnswer | Answered

fun try_addresses :: "('a \<Rightarrow> probe) \<Rightarrow> 'a list \<Rightarrow> id_error \<Rightarrow> (unit, id_error) outcome" where
  "try_addresses connect [] last_err = Err last_err"
| "try_addresses connect (a # as) last_err =
     (case connect a of
        Answered \<Rightarrow> Ok ()
      | NoAnswer \<Rightarrow> try_addresses connect as last_err
      | Refused \<Rightarrow> try_addresses connect as ConnectionRefused)"

definition live_server_address :: "string \<Rightarrow> string" where
  "live_server_address url =
     (let url_clean = trim_start_matches ''http://'' (trim_start_matches ''https://'' url);
          host_and_port = hd (split_on (CHR ''/'') url_clean);
          host_parts = split_on (CHR '':'') host_and_port;
          host = hd host_parts;
          port = (case tl host_parts of p # _ \<Rightarrow> p
                  | [] \<Rightarrow> if starts_with url ''https'' then ''443'' else ''80'')
      in host @ '':'' @ port)"

definition check_live_server_active ::
  "(string \<Rightarrow> 'a list option) \<Rightarrow> ('a \<Rightarrow> probe) \<Rightarrow> string \<Rightarrow> (unit, id_error) outcome" where
  "check_live_server_active to_socket_addrs connect url =
     and_then (ok_or FailedToResolveAddress (to_socket_addrs (live_server_address url)))
       (\<lambda>addrs. try_addresses connect addrs NoSocketAddresses)"

record identity_mapping =
  im_internal_user_id :: string
  im_identity_server :: string

text \<open>
  The environment of the providers: the value of \<open>SOVEREIGN_LIVE_IDENTITY_TESTS\<close>, the probe,
  and the SIWE parser with the domain and the formatted address of a message.
\<close>

record id_env =
  env_live_tests :: string
  env_probe :: "string \<Rightarrow> (unit, id_error) outcome"
  env_siwe_parse :: "string \<Rightarrow> (string \<times> string) option"

definition live_check :: "id_env \<Rightarrow> string \<Rightarrow> (unit, id_error) outcome" where
  "live_check env url = (if env_live_tests env = ''1'' then env_probe env url else Ok ())"

definition authentik_verify :: "id_env \<Rightarrow> string \<Rightarrow> string \<Rightarrow> (identity_mapping, id_error) outcome" where
  "authentik_verify env server credentials =
     and_then (live_check env server) (\<lambda>_.
     and_then (ok_or SiweParse (env_siwe_parse env credentials)) (\<lambda>(domain, addr).
     if domain \<noteq> ''authentik.local'' \<and> \<not> contains server domain then Err SiweDomainMismatch
     else Ok \<lparr>im_internal_user_id = addr, im_identity_server = server\<rparr>))"

record zk_proof =
  zp_proof :: bytes
  zp_public_inputs :: bytes

record next_erp_auth =
  tenant_id :: string
  ne_relay_server :: string

record next_erp_credentials =
  ne_user_did :: string
  authentik_relay_signature :: bytes
  internal_user_email :: string
  group_proof :: "zk_proof option"

definition next_erp_verify ::
  "id_env \<Rightarrow> next_erp_auth \<Rightarrow> next_erp_credentials \<Rightarrow> (identity_mapping, id_error) outcome" where
  "next_erp_verify env p c =
     and_then (live_check env (ne_relay_server p)) (\<lambda>_.
     if ne_user_did c = [] \<or> authentik_relay_signature c = [] then Err MissingUserOrSignature
     else if (case group_proof c of None \<Rightarrow> False
              | Some pr \<Rightarrow> zp_proof pr = as_bytes ''INVALID_GROUP_PROOF'') then Err GroupProofFailed
     else if authentik_relay_signature c = as_bytes ''INVALID'' then Err RelaySignatureFailed
     else Ok \<lparr>im_internal_user_id = internal_user_email c, im_identity_server = ne_relay_server p\<rparr>)"

record next_cloud_auth =
  instance_url :: string
  nc_relay_server :: string

record next_cloud_credentials =
  nc_user_did :: string
  relay_token :: string
  internal_username :: string
  session_proof :: zk_proof

definition next_cloud_verify ::
  "id_env \<Rightarrow> next_cloud_auth \<Rightarrow> next_cloud_credentials \<Rightarrow> (identity_mapping, id_error) outcome" where
  "next_cloud_verify env p c =
     and_then (live_check env (instance_url p)) (\<lambda>_.
     and_then (live_check env (nc_relay_server p)) (\<lambda>_.
     if nc_user_did c = [] \<or> relay_token c = [] then Err MissingUserOrToken
     else if zp_proof (session_proof c) = as_bytes ''INVALID_SESSION_PROOF'' then Err SessionProofFailed
     else Ok \<lparr>im_internal_user_id = internal_username c, im_identity_server = nc_relay_server p\<rparr>))"

record nfc_credentials =
  card_uid :: bytes
  dynamic_signature :: bytes
  nfc_challenge :: bytes

definition nfc_verify :: "nfc_credentials \<Rightarrow> (identity_mapping, id_error) outcome" where
  "nfc_verify c =
     (if card_uid c = [] \<or> dynamic_signature c = [] then Err InvalidCard
      else if dynamic_signature c = as_bytes ''BAD_SIGNATURE'' then Err NfcSignatureFailed
      else Ok \<lparr>im_internal_user_id = ''nfc_card_'' @ hex_string (card_uid c),
               im_identity_server = ''NFC_Reader''\<rparr>)"

text \<open>
  What every provider keeps: a verified identity names the provider's own server, and
  verification never panics when the network probe does not.
\<close>

locale identity_provider =
  fixes verify :: "'c \<Rightarrow> (identity_mapping, id_error) outcome"
    and server :: string
    and live :: "(unit, id_error) outcome"
  assumes names_server: "verify c = Ok m \<Longrightarrow> im_identity_server m = server"
    and needs_live: "verify c = Ok m \<Longrightarrow> live = Ok ()"
    and total: "live \<noteq> Panic \<Longrightarrow> verify c \<noteq> Panic"
begin

lemma accepted_or_refused:
  assumes "live \<noteq> Panic"
  shows "(\<exists>m. verify c = Ok m \<and> im_identity_server m = server) \<or> (\<exists>e. verify c = Err e)"
proof (cases "verify c")
  case Panic
  with total [OF assms, of c] show ?thesis by simp
qed (simp_all add: names_server)

lemma same_server: "verify c = Ok m \<Longrightarrow> verify d = Ok n \<Longrightarrow> im_identity_server m = im_identity_server n"
  by (simp add: names_server)

end

interpretation authentik: identity_provider "authentik_verify env srv" srv "live_check env srv"
  for env srv
  by unfold_locales (auto simp: authentik_verify_def outcome_simps split: if_splits)

interpretation next_erp: identity_provider "next_erp_verify env p" "ne_relay_server p"
  "live_check env (ne_relay_server p)" for env p
  by unfold_locales (auto simp: next_erp_verify_def outcome_simps split: if_splits)

interpretation next_cloud: identity_provider "next_cloud_verify env p" "nc_relay_server p"
  "and_then (live_check env (instance_url p)) (\<lambda>_. live_check env (nc_relay_server p))" for env p
  by unfold_locales (auto simp: next_cloud_verify_def outcome_simps split: if_splits)

interpretation nfc: identity_provider nfc_verify "''NFC_Reader''" "Ok ()"
  by unfold_locales (auto simp: nfc_verify_def split: if_splits)

text \<open>Two cards with the same internal identity have the same UID.\<close>

lemma nfc_verify_inject:
  "nfc_verify c = Ok m \<Longrightarrow> nfc_verify d = Ok n \<Longrightarrow> im_internal_user_id m = im_internal_user_id n
    \<Longrightarrow> card_uid c = card_uid d"
  by (auto simp: nfc_verify_def split: if_splits dest: hex_string_inject)

section \<open>Properties\<close>

text \<open>Verifying a signature against a resolved peer identity never panics, whatever the
  resolver returned, because Ed25519 is detected only for 32-byte keys; and it is a
  post-quantum key when it succeeds under a quantum threat.\<close>

theorem resolved_peer_verifies_safely:
  assumes "did_peer4_resolve resolver did = Ok d"
  shows "did_peer4_verify_signature cl d msg sig qt \<noteq> Panic \<and>
    (did_peer4_verify_signature cl d msg sig True = Ok () \<longrightarrow> kt_is_post_quantum (dp_key_type d))"
proof -
  have "did_peer4_verify_signature cl d msg sig True = Ok () \<longrightarrow> kt_is_post_quantum (dp_key_type d)"
    using verify_signature_quantum [of cl "scheme_of_key_type (dp_key_type d)"]
    by (auto simp: did_peer4_verify_signature_def scheme_of_key_type_post_quantum)
  with did_peer4_verify_no_panic [OF assms] show ?thesis by blast
qed

definition sample_peer :: did_peer4 where
  "sample_peer = \<lparr>dp_did = ''did:peer:4a'', dp_key_type = detect_key_type ''X'' [1], dp_public_key = [1]\<rparr>"

lemma resolved_peer_verifies_safely_witness:
  "did_peer4_verify_signature sample_crypto sample_peer [] [] False \<noteq> Panic"
proof -
  have "did_peer4_resolve (\<lambda>_. Some [(''X'', Some [1])]) ''did:peer:4a'' = Ok sample_peer"
    by (simp add: did_peer4_resolve_def starts_with_def sample_peer_def)
  from resolved_peer_verifies_safely [OF this] show ?thesis by blast
qed

end
