(* ===== verification/Namespace.thy ===== *)
theory Namespace
  imports F64
begin

text \<open>
  The namespace registry (\<open>crates/identity/src/namespace.rs\<close>): claim scores with the slot
  system, and registration with conflict resolution. The map of an owner to its names is
  kept consistent with the map of names to owners: every name is listed exactly once, under
  its owner. \<open>powi\<close> is the library's power with an integer exponent, a parameter because its
  rounding is not specified.
\<close>

record namespace_registry =
  names :: "string \<rightharpoonup> string"
  did_names :: "string \<rightharpoonup> string list"
  stakes :: "string \<rightharpoonup> u64"

definition namespace_registry_new :: namespace_registry where
  "namespace_registry_new = \<lparr>names = Map.empty, did_names = Map.empty, stakes = Map.empty\<rparr>"

definition names_of :: "namespace_registry \<Rightarrow> string \<Rightarrow> string list" where
  "names_of r did = (case did_names r did of None \<Rightarrow> [] | Some ns \<Rightarrow> ns)"

definition calculate_score ::
  "(f64 \<Rightarrow> int \<Rightarrow> f64) \<Rightarrow> namespace_registry \<Rightarrow> string \<Rightarrow> f64 \<Rightarrow> u64 \<Rightarrow> f64" where
  "calculate_score fpowi r did reputation proposed_stake =
     (let existing_names = length (names_of r did);
          extra_slots = (if 3 \<le> existing_names then existing_names - 2 else 0);
          exponent = sint (word_of_nat extra_slots :: u32);
          penalty_divisor = fpowi (f64_lit 10) exponent;
          social_score = f64_div reputation penalty_divisor;
          staking_efficiency = fpowi (f64_lit 2) exponent;
          staking_bonus = f64_div (f64_of_nat (unat proposed_stake))
                            (f64_mul (f64_lit 100) staking_efficiency)
      in f64_add social_score staking_bonus)"

text \<open>\<open>names.insert\<close>, \<open>did_names.entry(did).or_default().push(name)\<close>, \<open>stakes.insert\<close>\<close>

definition assign_name ::
  "namespace_registry \<Rightarrow> string \<Rightarrow> string \<Rightarrow> u64 \<Rightarrow> namespace_registry" where
  "assign_name r name did stake =
     r\<lparr>names := (names r)(name \<mapsto> did),
       did_names := (did_names r)(did \<mapsto> names_of r did @ [name]),
       stakes := (stakes r)(did \<mapsto> stake)\<rparr>"

definition evict_name :: "namespace_registry \<Rightarrow> string \<Rightarrow> string \<Rightarrow> namespace_registry" where
  "evict_name r name owner =
     (case did_names r owner of
        None \<Rightarrow> r
      | Some ns \<Rightarrow> r\<lparr>did_names := (did_names r)(owner \<mapsto> [x\<leftarrow>ns. x \<noteq> name])\<rparr>)"

definition register ::
  "(f64 \<Rightarrow> int \<Rightarrow> f64) \<Rightarrow> namespace_registry \<Rightarrow> string \<Rightarrow> string \<Rightarrow> f64 \<Rightarrow> u64
    \<Rightarrow> bool \<times> namespace_registry" where
  "register fpowi r name challenger challenger_reputation stake =
     (case names r name of
        Some current_owner \<Rightarrow>
          (if current_owner = challenger then (True, r)
           else
             (let owner_stake = (case stakes r current_owner of None \<Rightarrow> 0 | Some s \<Rightarrow> s);
                  owner_score = calculate_score fpowi r current_owner (f64_lit 1) owner_stake;
                  challenger_score = calculate_score fpowi r challenger challenger_reputation stake
              in if f64_lt owner_score challenger_score
                 then (True, assign_name (evict_name r name current_owner) name challenger stake)
                 else (False, r)))
      | None \<Rightarrow> (True, assign_name r name challenger stake))"

section \<open>The invariant\<close>

definition registry_inv :: "namespace_registry \<Rightarrow> bool" where
  "registry_inv r \<longleftrightarrow>
     (\<forall>did. distinct (names_of r did)) \<and>
     (\<forall>name did. names r name = Some did \<longleftrightarrow> name \<in> set (names_of r did))"

lemma registry_inv_new: "registry_inv namespace_registry_new"
  by (simp add: registry_inv_def namespace_registry_new_def names_of_def)

lemma names_of_assign:
  "names_of (assign_name r name did stake) d =
     (if d = did then names_of r did @ [name] else names_of r d)"
  by (simp add: names_of_def assign_name_def)

lemma names_of_evict:
  "names_of (evict_name r name owner) d =
     (if d = owner then [x\<leftarrow>names_of r owner. x \<noteq> name] else names_of r d)"
  by (auto simp: names_of_def evict_name_def split: option.splits)

lemma names_evict [simp]: "names (evict_name r name owner) = names r"
  by (simp add: evict_name_def split: option.splits)

lemma registry_inv_assign_fresh:
  assumes "registry_inv r" and "names r name = None"
  shows "registry_inv (assign_name r name did stake)"
proof -
  have "name \<notin> set (names_of r d)" for d
    using assms by (simp add: registry_inv_def flip: not_None_eq) (metis option.distinct(1))
  then show ?thesis
    using assms(1) unfolding registry_inv_def names_of_assign
    by (auto simp: assign_name_def)
qed

lemma registry_inv_transfer:
  assumes "registry_inv r" and "names r name = Some owner" and "owner \<noteq> did"
  shows "registry_inv (assign_name (evict_name r name owner) name did stake)"
proof -
  have "name \<notin> set (names_of r d)" if "d \<noteq> owner" for d
    using assms that by (metis option.inject registry_inv_def)
  with assms show ?thesis
    unfolding registry_inv_def names_of_assign names_of_evict
    by (auto simp: assign_name_def)
qed

lemma registry_inv_register:
  assumes "registry_inv r" and "register fpowi r name did rep stake = (b, r')"
  shows "registry_inv r'"
proof (cases "names r name")
  case None
  with assms registry_inv_assign_fresh show ?thesis by (auto simp: register_def)
next
  case (Some owner)
  with assms registry_inv_transfer show ?thesis
    by (auto simp: register_def Let_def split: if_splits)
qed

text \<open>The return value says who owns the name afterwards.\<close>

lemma register_owner:
  assumes "register fpowi r name did rep stake = (b, r')"
  shows "if b then names r' name = Some did else r' = r \<and> names r name \<noteq> Some did"
  using assms
  by (auto simp: register_def Let_def assign_name_def split: option.splits if_splits)

lemma register_other_names:
  assumes "register fpowi r name did rep stake = (b, r')" and "n \<noteq> name"
  shows "names r' n = names r n"
  using assms
  by (auto simp: register_def Let_def assign_name_def split: option.splits if_splits)

section \<open>Properties\<close>

text \<open>C36: every registration keeps the name directory consistent: a name is owned by exactly the
  identity whose list holds it, once; the answer says who owns the name afterwards, and no
  other name changes hands.\<close>

theorem register_preserves_directory:
  assumes "registry_inv r" and "register fpowi r name did rep stake = (b, r')"
  shows "registry_inv r' \<and> (if b then names r' name = Some did else r' = r \<and> names r name \<noteq> Some did) \<and>
    (\<forall>n. n \<noteq> name \<longrightarrow> names r' n = names r n)"
  using registry_inv_register [OF assms] register_owner [OF assms(2)]
    register_other_names [OF assms(2)] by blast

lemma register_preserves_directory_witness:
  "registry_inv (assign_name namespace_registry_new ''n'' ''d'' 5)"
  using register_preserves_directory [OF registry_inv_new,
      of "\<lambda>_ _. Fin 1" "''n''" "''d''" "Fin 1" 5 True "assign_name namespace_registry_new ''n'' ''d'' 5"]
  by (simp add: register_def namespace_registry_new_def)

end
