(* ===== verification/Subset_Election.thy ===== *)
theory Subset_Election
  imports Crypto
begin

text \<open>
  Snow subset election (\<open>crates/consensus/src/subset_election.rs\<close>): the pool is a hash set,
  given as its elements in iteration order; the members closest to the seed hash are
  elected. Lemmas: size, membership, closeness, and independence of the iteration order when
  the distance hash has no collision in the pool.
\<close>

record subset_election =
  current_subset :: "address set"
  manifold_id :: u64

definition subset_election_new :: "u64 \<Rightarrow> subset_election" where
  "subset_election_new m = \<lparr>current_subset = {}, manifold_id = m\<rparr>"

definition election_seed :: "crypto_lib \<Rightarrow> u64 \<Rightarrow> u64 \<Rightarrow> b256" where
  "election_seed cl manifold epoch = keccak256 cl (u64_be_bytes manifold @ u64_be_bytes epoch)"

definition election_key :: "crypto_lib \<Rightarrow> b256 \<Rightarrow> address \<Rightarrow> b256" where
  "election_key cl seed a = keccak256 cl (address_bytes a @ b256_bytes seed)"

datatype election_error = NoRoutableValidators

definition trigger_election ::
  "crypto_lib \<Rightarrow> subset_election \<Rightarrow> address list \<Rightarrow> u64 \<Rightarrow> nat
    \<Rightarrow> subset_election \<times> (unit, election_error) outcome" where
  "trigger_election cl st pool epoch subset_size =
     (if pool = [] then (st\<lparr>current_subset := {}\<rparr>, Err NoRoutableValidators)
      else
        (let seed = election_seed cl (manifold_id st) epoch;
             sorted = sort_key (election_key cl seed) pool;
             sample_size = min (length sorted) subset_size
         in (st\<lparr>current_subset := set (take sample_size sorted)\<rparr>, Ok ())))"

definition elected :: "crypto_lib \<Rightarrow> u64 \<Rightarrow> address list \<Rightarrow> u64 \<Rightarrow> nat \<Rightarrow> address list" where
  "elected cl m pool epoch k = take k (sort_key (election_key cl (election_seed cl m epoch)) pool)"

lemma trigger_election_elected:
  "pool \<noteq> [] \<Longrightarrow> trigger_election cl st pool epoch k =
     (st\<lparr>current_subset := set (elected cl (manifold_id st) pool epoch k)\<rparr>, Ok ())"
  by (simp add: trigger_election_def elected_def Let_def min_def)

lemma elected_subset: "set (elected cl m pool epoch k) \<subseteq> set pool"
  unfolding elected_def using set_take_subset by fastforce

lemma card_elected: "distinct pool \<Longrightarrow> card (set (elected cl m pool epoch k)) = min k (length pool)"
  by (simp add: elected_def distinct_card min.commute)

lemma elected_closest:
  assumes "distinct pool" and "a \<in> set (elected cl m pool epoch k)"
    and "b \<in> set pool" and "b \<notin> set (elected cl m pool epoch k)"
  shows "election_key cl (election_seed cl m epoch) a \<le> election_key cl (election_seed cl m epoch) b"
proof -
  let ?f = "election_key cl (election_seed cl m epoch)"
  let ?s = "sort_key ?f pool"
  have "sorted (map ?f (take k ?s @ drop k ?s))" by simp
  then have "\<forall>x \<in> set (take k ?s). \<forall>y \<in> set (drop k ?s). ?f x \<le> ?f y"
    by (simp only: map_append sorted_append) auto
  moreover have "b \<in> set (drop k ?s)"
  proof -
    have "set (take k ?s @ drop k ?s) = set pool" by (simp only: append_take_drop_id set_sort)
    with assms(3) have "b \<in> set (take k ?s) \<union> set (drop k ?s)" by (simp only: set_append)
    then show ?thesis using assms(4) unfolding elected_def by blast
  qed
  ultimately show ?thesis using assms(2) unfolding elected_def by blast
qed

lemma elected_order_independent:
  assumes "distinct pool" and "distinct pool'" and "set pool = set pool'"
    and "inj_on (election_key cl (election_seed cl m epoch)) (set pool)"
  shows "elected cl m pool epoch k = elected cl m pool' epoch k"
proof -
  let ?f = "election_key cl (election_seed cl m epoch)"
  have "map ?f (sort_key ?f pool) = map ?f (sort_key ?f pool')"
  proof (rule sorted_distinct_set_unique)
    show "distinct (map ?f (sort_key ?f pool))" "distinct (map ?f (sort_key ?f pool'))"
      using assms by (simp_all add: distinct_map)
    show "set (map ?f (sort_key ?f pool)) = set (map ?f (sort_key ?f pool'))"
      using assms(3) by simp
  qed simp_all
  then have "sort_key ?f pool = sort_key ?f pool'"
    by (rule map_inj_on) (simp add: assms(4) flip: assms(3))
  then show ?thesis by (simp add: elected_def)
qed

section \<open>Properties\<close>

text \<open>C27: the outcome of an election. From a non-empty pool exactly the smaller of the subset size and
  the pool size are elected, all from the pool, and none of those left out is closer to the seed
  than an elected one.\<close>

theorem election_outcome:
  assumes "distinct pool" and "pool \<noteq> []"
  shows "\<exists>S. trigger_election cl st pool ep k = (st\<lparr>current_subset := S\<rparr>, Ok ()) \<and>
    S \<subseteq> set pool \<and> card S = min k (length pool) \<and>
    (\<forall>a \<in> S. \<forall>b \<in> set pool - S. election_key cl (election_seed cl (manifold_id st) ep) a \<le>
       election_key cl (election_seed cl (manifold_id st) ep) b)"
  using trigger_election_elected [OF assms(2)] elected_subset card_elected [OF assms(1)]
    elected_closest [OF assms(1)]
  by (intro exI [of _ "set (elected cl (manifold_id st) pool ep k)"]) blast

lemma election_outcome_witness:
  "\<exists>S. trigger_election sample_crypto (subset_election_new 1) [3, 1, 2] 5 2 =
       ((subset_election_new 1)\<lparr>current_subset := S\<rparr>, Ok ()) \<and> card S = 2"
  using election_outcome [of "[3, 1, 2]" sample_crypto "subset_election_new 1" 5 2] by auto

text \<open>C28: nodes agree on the election. Two nodes whose hash sets hold the same pool elect the same
  subset, in whatever orders they iterate, when the distance hash has no collision in the pool.\<close>

theorem election_order_independent:
  assumes "distinct pool" and "distinct pool'" and "set pool = set pool'"
    and "inj_on (election_key cl (election_seed cl (manifold_id st) ep)) (set pool)"
  shows "trigger_election cl st pool ep k = trigger_election cl st pool' ep k"
proof (cases "pool = []")
  case False
  then have "pool' \<noteq> []" using assms(3) by auto
  with False show ?thesis
    by (simp add: trigger_election_elected elected_order_independent [OF assms])
qed (use assms in simp)

definition prefix_hash :: crypto_lib where
  "prefix_hash = sample_crypto\<lparr>keccak256 := (\<lambda>bs. word_of_nat (be_nat (take 20 bs)))\<rparr>"

lemma election_order_independent_witness:
  "trigger_election prefix_hash (subset_election_new 1) [3, 1, 2] 5 2 =
   trigger_election prefix_hash (subset_election_new 1) [1, 2, 3] 5 2"
proof (rule election_order_independent)
  show "inj_on (election_key prefix_hash (election_seed prefix_hash (manifold_id (subset_election_new 1)) 5))
      (set [3, 1, 2])"
    by (simp add: inj_on_def election_key_def prefix_hash_def address_bytes_def be_bytes_def upt_rec)
qed auto

end
