(* ===== verification/Sync_Committee.thy ===== *)
theory Sync_Committee
  imports Subset_Election Registry Identity
begin

text \<open>
  The saga orchestrator committee (\<open>crates/consensus/src/sync_committee.rs\<close>): election of the
  committee from the registry, payment intents with their deadline, and the quorum check
  over post-quantum aware signatures. Lemmas: an accepted intent carries a quorum of distinct
  committee members with valid signatures; one bad signature of a member rejects it.
\<close>

record orchestrator_committee =
  oc_epoch :: u64
  orchestrators :: "address set"
  oc_threshold :: f64
  min_orchestrator_merit :: f64

definition committee_default :: "validator_registry \<Rightarrow> orchestrator_committee" where
  "committee_default reg =
     \<lparr>oc_epoch = 0, orchestrators = {}, oc_threshold = committee_threshold (vr_dynamic_cfg reg),
      min_orchestrator_merit = f64_lit (5 / 100)\<rparr>"

datatype committee_error =
    NoEligibleOrchestrators | ElectionFailed | CommitteeEmpty | UnresolvableOrchestrator
  | OrchestratorSignature crypto_error | QuorumNotMet

text \<open>
  \<open>pool_order\<close> is the iteration order of the eligible set, a list of its elements.
\<close>

definition select_orchestrators ::
  "crypto_lib \<Rightarrow> iteration \<Rightarrow> (address set \<Rightarrow> address list) \<Rightarrow> validator_registry
    \<Rightarrow> orchestrator_committee \<Rightarrow> u64 \<Rightarrow> u64 \<Rightarrow> nat
    \<Rightarrow> orchestrator_committee \<times> (unit, committee_error) outcome" where
  "select_orchestrators cl it pool_order reg c manifold ep subset_size =
     (let c = c\<lparr>oc_epoch := ep, oc_threshold := committee_threshold (vr_dynamic_cfg reg)\<rparr>;
          eligible = get_eligible_orchestrators it reg manifold (min_orchestrator_merit c)
      in if eligible = {} then (c, Err NoEligibleOrchestrators)
         else case trigger_election cl (subset_election_new manifold) (pool_order eligible) ep subset_size of
             (st, Ok _) \<Rightarrow> (c\<lparr>orchestrators := current_subset st\<rparr>, Ok ())
           | (st, _) \<Rightarrow> (c, Err ElectionFailed))"

record saga_intent =
  intent_id :: b256
  si_sender :: address
  si_recipient :: address
  si_amount :: u256
  expires_at :: u64
  orchestrator_signatures :: "(address \<times> bytes) list"

definition saga_intent_new ::
  "validator_registry \<Rightarrow> b256 \<Rightarrow> address \<Rightarrow> address \<Rightarrow> u256 \<Rightarrow> u64 \<Rightarrow> saga_intent" where
  "saga_intent_new reg iid s r amt current_time =
     \<lparr>intent_id = iid, si_sender = s, si_recipient = r, si_amount = amt,
      expires_at = current_time + saga_intent_timeout_seconds (vr_dynamic_cfg reg),
      orchestrator_signatures = []\<rparr>"

definition is_expired :: "saga_intent \<Rightarrow> u64 \<Rightarrow> bool" where
  "is_expired i current_time \<longleftrightarrow> expires_at i < current_time"

definition required_quorum :: "nat \<Rightarrow> f64 \<Rightarrow> nat" where
  "required_quorum n threshold = f64_to_u64 (f64_ceil (f64_mul (f64_of_nat n) threshold))"

text \<open>The loop over the signatures; the accumulator is the set of valid voters.\<close>

fun collect_votes ::
  "crypto_lib \<Rightarrow> (string \<Rightarrow> (string \<times> bytes option) list option) \<Rightarrow> validator_registry
    \<Rightarrow> address set \<Rightarrow> b256 \<Rightarrow> bool \<Rightarrow> address set \<Rightarrow> (address \<times> bytes) list
    \<Rightarrow> (address set, committee_error) outcome" where
  "collect_votes cl resolver reg members iid qt votes [] = Ok votes"
| "collect_votes cl resolver reg members iid qt votes ((a, sig) # rest) =
     (if a \<notin> members then collect_votes cl resolver reg members iid qt votes rest
      else case get_did_by_address reg a of
        None \<Rightarrow> collect_votes cl resolver reg members iid qt votes rest
      | Some did \<Rightarrow>
          and_then (map_err (\<lambda>_. UnresolvableOrchestrator) (did_peer4_resolve resolver did)) (\<lambda>peer.
          and_then (map_err OrchestratorSignature
              (did_peer4_verify_signature cl peer (b256_bytes iid) sig qt)) (\<lambda>_.
          collect_votes cl resolver reg members iid qt (insert a votes) rest)))"

definition verify_consensus ::
  "crypto_lib \<Rightarrow> (string \<Rightarrow> (string \<times> bytes option) list option) \<Rightarrow> validator_registry
    \<Rightarrow> saga_intent \<Rightarrow> orchestrator_committee \<Rightarrow> bool \<Rightarrow> (unit, committee_error) outcome" where
  "verify_consensus cl resolver reg intent committee qt =
     (if orchestrators committee = {} then Err CommitteeEmpty
      else
        (let threshold = committee_threshold (vr_dynamic_cfg reg);
             quorum = required_quorum (card (orchestrators committee)) threshold
         in and_then (collect_votes cl resolver reg (orchestrators committee) (intent_id intent) qt {}
                        (orchestrator_signatures intent)) (\<lambda>votes.
              if card votes < quorum then Err QuorumNotMet else Ok ())))"

text \<open>\<open>DynamicRpcVerifier::verify_target_settlement\<close> ignores its arguments.\<close>

definition verify_target_settlement ::
  "b256 \<Rightarrow> string list \<Rightarrow> orchestrator_committee \<Rightarrow> (bool, committee_error) outcome" where
  "verify_target_settlement iid endpoints committee = Ok True"

section \<open>Votes\<close>

text \<open>A member's signature that verifies under the key its registered DID resolves to.\<close>

definition valid_vote ::
  "crypto_lib \<Rightarrow> (string \<Rightarrow> (string \<times> bytes option) list option) \<Rightarrow> validator_registry
    \<Rightarrow> b256 \<Rightarrow> bool \<Rightarrow> address \<Rightarrow> bytes \<Rightarrow> bool" where
  "valid_vote cl resolver reg iid qt a sig \<longleftrightarrow>
     (\<exists>did peer. get_did_by_address reg a = Some did \<and> did_peer4_resolve resolver did = Ok peer \<and>
        did_peer4_verify_signature cl peer (b256_bytes iid) sig qt = Ok ())"

lemma collect_votes_valid:
  assumes "collect_votes cl resolver reg members iid qt votes sigs = Ok votes'"
  shows "votes' \<subseteq> votes \<union> {a \<in> members. \<exists>sig. (a, sig) \<in> set sigs \<and> valid_vote cl resolver reg iid qt a sig}"
  using assms
proof (induction sigs arbitrary: votes)
  case (Cons s sigs)
  obtain a sig where s: "s = (a, sig)" by fastforce
  show ?case
  proof (cases "a \<in> members \<and> get_did_by_address reg a \<noteq> None")
    case False
    with Cons.prems have "collect_votes cl resolver reg members iid qt votes sigs = Ok votes'"
      by (auto simp: s split: if_splits)
    with Cons.IH [of votes] show ?thesis by auto
  next
    case True
    with Cons.prems have rest: "collect_votes cl resolver reg members iid qt (insert a votes) sigs = Ok votes'"
      and "valid_vote cl resolver reg iid qt a sig"
      by (auto simp: s outcome_simps valid_vote_def)
    with Cons.IH [OF rest] True show ?thesis by (auto simp: s)
  qed
qed simp

lemma collect_votes_no_panic: "collect_votes cl resolver reg members iid qt votes sigs \<noteq> Panic"
proof (induction sigs arbitrary: votes)
  case (Cons s sigs)
  obtain a sig where s: "s = (a, sig)" by fastforce
  have r: "did_peer4_resolve resolver did \<noteq> Panic" for did
    by (auto simp: did_peer4_resolve_def split: option.splits list.splits)
  have m: "map_err g r = Panic \<longleftrightarrow> r = Panic" for g :: "'x \<Rightarrow> 'y" and r :: "('z, 'x) outcome"
    by (cases r) simp_all
  show ?case
  proof (cases "a \<in> members \<and> get_did_by_address reg a \<noteq> None")
    case False
    then have "collect_votes cl resolver reg members iid qt votes (s # sigs) =
        collect_votes cl resolver reg members iid qt votes sigs"
      by (auto simp: s)
    with Cons.IH [of votes] show ?thesis by simp
  next
    case True
    then obtain did where did: "get_did_by_address reg a = Some did" by blast
    show ?thesis
      using True did_peer4_verify_no_panic [of resolver did] Cons.IH [of "insert a votes"]
      by (auto simp: s did outcome_simps m r)
  qed
qed simp

section \<open>Properties\<close>

lemma collect_votes_all_valid:
  assumes "collect_votes cl resolver reg members iid qt votes sigs = Ok votes'"
    and "(a, sig) \<in> set sigs" and "a \<in> members" and "get_did_by_address reg a \<noteq> None"
  shows "valid_vote cl resolver reg iid qt a sig"
  using assms(1,2)
proof (induction sigs arbitrary: votes)
  case (Cons s sigs)
  obtain b sig' where s: "s = (b, sig')" by fastforce
  show ?case
  proof (cases "b \<in> members \<and> get_did_by_address reg b \<noteq> None")
    case False
    then have "collect_votes cl resolver reg members iid qt votes sigs = Ok votes'"
      and "(a, sig) \<noteq> s"
      using Cons.prems(1) assms(3,4) by (auto simp: s split: if_splits)
    with Cons show ?thesis by auto
  next
    case True
    with Cons.prems(1) have "collect_votes cl resolver reg members iid qt (insert b votes) sigs = Ok votes'"
      and "valid_vote cl resolver reg iid qt b sig'"
      by (auto simp: s outcome_simps valid_vote_def)
    with Cons show ?thesis by (auto simp: s)
  qed
qed simp

text \<open>C29: what an accepted payment intent guarantees. The committee is not empty, enough different
  members signed the intent with keys their registered DIDs resolve to, and no member with a
  registered DID contributed a signature that fails, however many others are valid.\<close>

theorem accepted_intent_has_quorum:
  assumes "verify_consensus cl resolver reg intent committee qt = Ok ()"
  shows "orchestrators committee \<noteq> {} \<and>
    required_quorum (card (orchestrators committee)) (committee_threshold (vr_dynamic_cfg reg)) \<le>
      card {a \<in> orchestrators committee. \<exists>sig. (a, sig) \<in> set (orchestrator_signatures intent) \<and>
        valid_vote cl resolver reg (intent_id intent) qt a sig} \<and>
    (\<forall>(a, sig) \<in> set (orchestrator_signatures intent). a \<in> orchestrators committee \<and>
      get_did_by_address reg a \<noteq> None \<longrightarrow> valid_vote cl resolver reg (intent_id intent) qt a sig)"
proof -
  let ?V = "{a \<in> orchestrators committee. \<exists>sig. (a, sig) \<in> set (orchestrator_signatures intent) \<and>
        valid_vote cl resolver reg (intent_id intent) qt a sig}"
  obtain votes where ne: "orchestrators committee \<noteq> {}"
    and v: "collect_votes cl resolver reg (orchestrators committee) (intent_id intent) qt {}
        (orchestrator_signatures intent) = Ok votes"
    and q: "required_quorum (card (orchestrators committee)) (committee_threshold (vr_dynamic_cfg reg)) \<le> card votes"
    using assms by (auto simp: verify_consensus_def Let_def outcome_simps not_less split: if_splits)
  have "votes \<subseteq> ?V" using collect_votes_valid [OF v] by blast
  moreover have "finite ?V"
    by (rule finite_subset [of _ "fst ` set (orchestrator_signatures intent)"]) force+
  ultimately have "card votes \<le> card ?V" by (rule card_mono [rotated])
  with ne q collect_votes_all_valid [OF v] show ?thesis by fastforce
qed

definition sample_resolver :: "string \<Rightarrow> (string \<times> bytes option) list option" where
  "sample_resolver did = Some [(''Multikey'', Some (replicate 33 1))]"

definition sample_committee_registry :: validator_registry where
  "sample_committee_registry = validator_registry_default\<lparr>address_to_did := [1 \<mapsto> ''did:peer:4a'', 2 \<mapsto> ''did:peer:4b'']\<rparr>"

definition sample_committee :: orchestrator_committee where
  "sample_committee = (committee_default sample_committee_registry)\<lparr>orchestrators := {1, 2}\<rparr>"

definition sample_intent :: saga_intent where
  "sample_intent = (saga_intent_new sample_committee_registry 9 1 2 5 0)
     \<lparr>orchestrator_signatures := [(1, replicate 64 1), (2, replicate 64 1)]\<rparr>"

lemma sample_quorum: "required_quorum 2 (f64_lit (67 / 100)) = 2"
  by (simp add: required_quorum_def f64_eval f64_of_nat_def)

lemma sample_intent_accepted:
  "verify_consensus sample_crypto sample_resolver sample_committee_registry sample_intent sample_committee False = Ok ()"
proof -
  have r: "did_peer4_resolve sample_resolver ''did:peer:4a'' = Ok \<lparr>dp_did = ''did:peer:4a'',
      dp_key_type = KtSecp256k1, dp_public_key = replicate 33 1\<rparr>"
    "did_peer4_resolve sample_resolver ''did:peer:4b'' = Ok \<lparr>dp_did = ''did:peer:4b'',
      dp_key_type = KtSecp256k1, dp_public_key = replicate 33 1\<rparr>"
    by (simp_all add: did_peer4_resolve_def starts_with_def sample_resolver_def detect_key_type_def)
  have t: "committee_threshold (vr_dynamic_cfg sample_committee_registry) = f64_lit (67 / 100)"
    by (simp add: sample_committee_registry_def validator_registry_default_def validator_registry_new_def
        dynamic_config_default_def)
  have g: "get_did_by_address sample_committee_registry 1 = Some ''did:peer:4a''"
    "get_did_by_address sample_committee_registry 2 = Some ''did:peer:4b''"
    by (simp_all add: sample_committee_registry_def get_did_by_address_def)
  have v: "did_peer4_verify_signature sample_crypto \<lparr>dp_did = d, dp_key_type = KtSecp256k1,
      dp_public_key = replicate 33 1\<rparr> m (replicate 64 1) False = Ok ()" for d m
    by (simp add: did_peer4_verify_signature_def verify_signature_def sample_crypto_def require_def)
  have o': "orchestrators sample_committee = {1, 2}" by (simp add: sample_committee_def)
  have s: "orchestrator_signatures sample_intent = [(1, replicate 64 1), (2, replicate 64 1)]"
    by (simp add: sample_intent_def)
  show ?thesis
    unfolding verify_consensus_def o' s t
    by (simp add: g r v sample_quorum [unfolded numeral_2_eq_2])
qed

lemma accepted_intent_has_quorum_witness:
  "valid_vote sample_crypto sample_resolver sample_committee_registry (intent_id sample_intent) False 1 (replicate 64 1)"
  using accepted_intent_has_quorum [OF sample_intent_accepted]
  by (simp add: sample_intent_def sample_committee_def saga_intent_new_def sample_committee_registry_def
      get_did_by_address_def)

end
