(* ===== verification/Slashing.thy ===== *)
theory Slashing
  imports Registry
begin

text \<open>
  Reputation slashing (\<open>crates/consensus/src/slashing.rs\<close>): the soulbound token, merit ranks
  with saturating slash and decay, and the two registry-wide slashings. Where the code sums
  the values of a hash map the order of the entries is an argument, since addition of
  doubles is not associative. Lemmas: a slashed reputation is a number at or above zero and
  nobody else's reputation changes.
\<close>

section \<open>Soulbound token\<close>

type_synonym soulbound_token = "address \<rightharpoonup> u256"

definition balance_of :: "soulbound_token \<Rightarrow> address \<Rightarrow> u256" where
  "balance_of t a = (case t a of None \<Rightarrow> 0 | Some b \<Rightarrow> b)"

definition mint :: "soulbound_token \<Rightarrow> address \<Rightarrow> u256 \<Rightarrow> soulbound_token" where
  "mint t recipient amount = t(recipient \<mapsto> balance_of t recipient + amount)"

definition soulbound_transfer ::
  "soulbound_token \<Rightarrow> address \<Rightarrow> address \<Rightarrow> u256 \<Rightarrow> soulbound_token \<times> (unit, string) outcome" where
  "soulbound_transfer t sender recipient amount =
     (t, Err ''SOV_merit token is non-transferable (Soulbound)'')"

section \<open>Merit ranks\<close>

type_synonym slashing_manager = "address \<rightharpoonup> u64"

definition slash :: "slashing_manager \<Rightarrow> address \<Rightarrow> u64 \<Rightarrow> slashing_manager" where
  "slash m a amount =
     (case m a of None \<Rightarrow> m | Some rank \<Rightarrow> m(a \<mapsto> saturating_sub rank amount))"

definition decay :: "slashing_manager \<Rightarrow> u64 \<Rightarrow> slashing_manager" where
  "decay m factor = (\<lambda>a. map_option (\<lambda>rank. saturating_sub rank factor) (m a))"

definition is_allowed_sequencer :: "slashing_manager \<Rightarrow> address \<Rightarrow> u64 \<Rightarrow> bool" where
  "is_allowed_sequencer m a threshold \<longleftrightarrow>
     threshold \<le> (case m a of None \<Rightarrow> 0 | Some rank \<Rightarrow> rank)"

lemma slash_le: "slash m a amount b = Some r' \<Longrightarrow> \<exists>r. m b = Some r \<and> r' \<le> r"
  by (auto simp: slash_def saturating_sub_le split: option.splits if_splits)

lemma dom_slash_decay [simp]: "dom (slash m a amount) = dom m" "dom (decay m f) = dom m"
  by (auto simp: slash_def decay_def split: option.splits)

lemma is_allowed_slash:
  "is_allowed_sequencer (slash m a amount) b threshold \<Longrightarrow> is_allowed_sequencer m b threshold"
  using saturating_sub_le
  by (auto simp: is_allowed_sequencer_def slash_def split: option.splits if_splits intro: order_trans)

lemma is_allowed_decay:
  "is_allowed_sequencer (decay m f) b threshold \<Longrightarrow> is_allowed_sequencer m b threshold"
  using saturating_sub_le
  by (auto simp: is_allowed_sequencer_def decay_def split: option.splits intro: order_trans)

section \<open>Registry-wide slashing\<close>

text \<open>
  The iteration orders: \<open>nodes\<close> lists the endorsing DIDs, \<open>targets u\<close> the endorsements of
  \<open>u\<close> with their weights.
\<close>

record endorsement_order =
  eo_nodes :: "string list"
  eo_targets :: "string \<Rightarrow> (string \<times> f64) list"

definition endorses :: "validator_registry \<Rightarrow> string \<Rightarrow> string \<Rightarrow> bool" where
  "endorses r v u \<longleftrightarrow> (case endorsements r v of None \<Rightarrow> False | Some ts \<Rightarrow> u \<in> dom ts)"

definition mutual_weight :: "validator_registry \<Rightarrow> string \<Rightarrow> (string \<times> f64) list \<Rightarrow> f64" where
  "mutual_weight r u targets =
     foldl (\<lambda>acc (v, weight). if endorses r v u then f64_add acc weight else acc) (Fin 0) targets"

definition is_cartel_member :: "validator_registry \<Rightarrow> endorsement_order \<Rightarrow> string \<Rightarrow> bool" where
  "is_cartel_member r eo u \<longleftrightarrow>
     (let targets = eo_targets eo u;
          total_out = f64_sum (map snd targets)
      in \<not> f64_eq total_out (Fin 0) \<and>
         f64_lt (f64_lit (20 / 100)) (f64_div (mutual_weight r u targets) total_out))"

definition slash_reputation :: "f64 \<Rightarrow> string \<Rightarrow> validator_registry \<Rightarrow> validator_registry" where
  "slash_reputation amount did r =
     (case reputation r did of
        None \<Rightarrow> r
      | Some rep \<Rightarrow>
          r\<lparr>reputation := (reputation r)(did \<mapsto> f64_max (f64_sub rep amount) (f64_lit 0))\<rparr>)"

definition slash_cartels ::
  "endorsement_order \<Rightarrow> validator_registry \<Rightarrow> f64 \<Rightarrow> validator_registry" where
  "slash_cartels eo r amount =
     fold (slash_reputation amount) [u\<leftarrow>eo_nodes eo. is_cartel_member r eo u] r"

text \<open>\<open>members\<close> lists the keys of the reputation map.\<close>

definition slash_missing_commitments ::
  "string list \<Rightarrow> validator_registry \<Rightarrow> f64 \<Rightarrow> validator_registry" where
  "slash_missing_commitments members r amount =
     (fold (slash_reputation amount) [d\<leftarrow>members. commitments r d = None] r)\<lparr>commitments := Map.empty\<rparr>"

lemma f64_max_0: "f64_le (Fin 0) (f64_max x (Fin 0))"
  by (cases x) (auto simp: f64_le_def)

lemma fold_slash_reputation:
  assumes "distinct dids"
  shows "reputation (fold (slash_reputation amount) dids r) d =
    (if d \<in> set dids
     then map_option (\<lambda>rep. f64_max (f64_sub rep amount) (Fin 0)) (reputation r d)
     else reputation r d)"
  using assms
  by (induction dids arbitrary: r) (auto simp: slash_reputation_def split: option.splits)

lemma slash_missing_commitments_reputation:
  assumes "distinct members"
  shows "reputation (slash_missing_commitments members r amount) d =
    (if d \<in> set members \<and> commitments r d = None
     then map_option (\<lambda>rep. f64_max (f64_sub rep amount) (Fin 0)) (reputation r d)
     else reputation r d)"
  using assms by (simp add: slash_missing_commitments_def fold_slash_reputation)

section \<open>Properties\<close>

text \<open>The slashing of missing commitments is exact. Whoever has a reputation and no commitment loses
  the amount, down to zero and not below; nobody else's reputation changes, in whatever order
  the members come up; the commitments of the round are gone afterwards and the rest of the
  registry is untouched.\<close>

theorem slash_missing_exact:
  assumes "distinct members" and "dom (reputation r) = set members"
    and "r' = slash_missing_commitments members r amount"
  shows "(\<forall>d. reputation r' d =
      (if commitments r d = None then map_option (\<lambda>rep. f64_max (f64_sub rep amount) (Fin 0)) (reputation r d)
       else reputation r d)) \<and>
    (\<forall>d x. commitments r d = None \<and> reputation r' d = Some x \<longrightarrow> f64_le (Fin 0) x) \<and>
    commitments r' = Map.empty \<and> r'\<lparr>reputation := reputation r, commitments := commitments r\<rparr> = r"
proof -
  have rep: "reputation r' d =
      (if commitments r d = None then map_option (\<lambda>rep. f64_max (f64_sub rep amount) (Fin 0)) (reputation r d)
       else reputation r d)" for d
    using slash_missing_commitments_reputation [OF assms(1)] assms(2)
    by (cases "reputation r d") (auto simp: assms(3) domIff)
  have other: "(fold (slash_reputation amount) ds r)\<lparr>reputation := reputation r\<rparr> = r" for ds
  proof (induction ds arbitrary: r)
    case (Cons d ds)
    let ?r = "slash_reputation amount d r"
    have "(fold (slash_reputation amount) ds ?r)\<lparr>reputation := reputation r\<rparr> =
        ((fold (slash_reputation amount) ds ?r)\<lparr>reputation := reputation ?r\<rparr>)\<lparr>reputation := reputation r\<rparr>"
      by simp
    also have "\<dots> = ?r\<lparr>reputation := reputation r\<rparr>" by (simp only: Cons.IH)
    also have "\<dots> = r" by (simp add: slash_reputation_def split: option.splits)
    finally show ?case by simp
  qed simp
  have "r'\<lparr>reputation := reputation r, commitments := commitments r\<rparr> = r"
    using arg_cong [OF other, of "\<lambda>x. x\<lparr>commitments := commitments r\<rparr>"]
    by (simp add: assms(3) slash_missing_commitments_def)
  with rep f64_max_0 show ?thesis
    by (auto simp: assms(3) slash_missing_commitments_def)
qed

lemma slash_missing_exact_witness:
  "reputation (slash_missing_commitments [''a''] (validator_registry_default\<lparr>reputation := [''a'' \<mapsto> Fin 1]\<rparr>) (Fin 3)) ''a''
     = Some (Fin 0)"
  using slash_missing_exact [of "[''a'']" "validator_registry_default\<lparr>reputation := [''a'' \<mapsto> Fin 1]\<rparr>" _ "Fin 3", OF _ _ refl]
  by (simp add: validator_registry_default_def validator_registry_new_def f64_eval f64_le_def)

end
