(* ===== verification/Reanchor.thy ===== *)
theory Reanchor
  imports Prelude
begin

text \<open>
  Stateless re-anchoring (\<open>crates/consensus/src/reanchor.rs\<close>): the epoch's mutation filter and
  the footprint check. Neither proof argument is verified by the code: the historical proof
  is ignored, and of the fallback proof only emptiness and one marker value matter.
\<close>

record causal_footprint =
  cf_addresses :: "address set"
  cf_slots :: "(address \<times> u256) set"

record mutation_filter =
  mutated_slots :: "(address \<times> u256) set"

definition mutation_filter_new :: mutation_filter where
  "mutation_filter_new = \<lparr>mutated_slots = {}\<rparr>"

definition record_mutation :: "mutation_filter \<Rightarrow> address \<Rightarrow> u256 \<Rightarrow> mutation_filter" where
  "record_mutation f a slot = f\<lparr>mutated_slots := insert (a, slot) (mutated_slots f)\<rparr>"

definition has_mutated :: "mutation_filter \<Rightarrow> causal_footprint \<Rightarrow> bool" where
  "has_mutated f fp \<longleftrightarrow> (\<exists>slot \<in> cf_slots fp. slot \<in> mutated_slots f)"

datatype reanchor_error = EmptyFootprint | IvcProofRequired | IvcProofFailed

definition reanchor_witness ::
  "mutation_filter \<Rightarrow> causal_footprint \<Rightarrow> bytes \<Rightarrow> bytes \<Rightarrow> (bool, reanchor_error) outcome" where
  "reanchor_witness f fp historical_proof ivc_fallback_proof =
     (if cf_addresses fp = {} then Err EmptyFootprint
      else if \<not> has_mutated f fp then Ok True
      else if ivc_fallback_proof = [] then Err IvcProofRequired
      else if ivc_fallback_proof = as_bytes ''INVALID_IVC_PROOF'' then Err IvcProofFailed
      else Ok True)"

definition record_all :: "(address \<times> u256) list \<Rightarrow> mutation_filter \<Rightarrow> mutation_filter" where
  "record_all ws f = fold (\<lambda>(a, s) f. record_mutation f a s) ws f"

lemma mutated_slots_record_all: "mutated_slots (record_all ws f) = set ws \<union> mutated_slots f"
  unfolding record_all_def
  by (induction ws arbitrary: f) (auto simp: record_mutation_def)

text \<open>Without a proof a footprint is re-anchored exactly when no write of the epoch hit it.\<close>

lemma reanchor_without_proof:
  "reanchor_witness (record_all ws mutation_filter_new) fp h [] = Ok True \<longleftrightarrow>
     cf_addresses fp \<noteq> {} \<and> cf_slots fp \<inter> set ws = {}"
  by (auto simp: reanchor_witness_def has_mutated_def mutated_slots_record_all mutation_filter_new_def)

end
