(* ===== verification/Flat_State.thy ===== *)
theory Flat_State
  imports Crypto
begin

text \<open>
  The flat state store and the trie builder (\<open>crates/consensus/src/flat_state.rs\<close>). The
  sixteen threads of the builder push into shared branches under a lock, so the order of the
  pushes is any interleaving of the sixteen chunks; the builder takes that order as an
  argument. Lemmas: reads after writes; the interleaving decides the root, which is
  therefore determined only when no two chunks meet in a branch.
\<close>

type_synonym flat_state_store = "b256 \<rightharpoonup> u256"

definition fit32 :: "bytes \<Rightarrow> b256" where
  "fit32 hashed = (let n = min (length hashed) 32 in
     b256_of_bytes (take n hashed @ replicate (32 - n) 0))"

definition derive_key :: "crypto_lib \<Rightarrow> crypto_profile \<Rightarrow> address \<Rightarrow> u256 \<Rightarrow> b256" where
  "derive_key cl profile a slot =
     fit32 (hash cl (cp_hash profile) (address_bytes a @ b256_bytes slot))"

definition flat_write ::
  "crypto_lib \<Rightarrow> crypto_profile \<Rightarrow> flat_state_store \<Rightarrow> address \<Rightarrow> u256 \<Rightarrow> u256 \<Rightarrow> flat_state_store" where
  "flat_write cl profile st a slot val = st(derive_key cl profile a slot \<mapsto> val)"

definition flat_read ::
  "crypto_lib \<Rightarrow> crypto_profile \<Rightarrow> flat_state_store \<Rightarrow> address \<Rightarrow> u256 \<Rightarrow> u256" where
  "flat_read cl profile st a slot =
     (case st (derive_key cl profile a slot) of None \<Rightarrow> 0 | Some v \<Rightarrow> v)"

lemma flat_read_write:
  "flat_read cl p (flat_write cl p st a s v) b t =
     (if derive_key cl p b t = derive_key cl p a s then v else flat_read cl p st b t)"
  by (simp add: flat_read_def flat_write_def)

section \<open>The trie builder\<close>

type_synonym delta = "address \<times> u256 \<times> u256"

definition delta_entry :: "crypto_lib \<Rightarrow> crypto_profile \<Rightarrow> delta \<Rightarrow> b256 \<times> u256" where
  "delta_entry cl profile d = (case d of (a, slot, val) \<Rightarrow> (derive_key cl profile a slot, val))"

text \<open>\<open>(key[0] >> 4) as usize\<close>\<close>

definition nibble :: "b256 \<Rightarrow> nat" where
  "nibble key = unat (drop_bit 252 key)"

definition thread_chunks :: "delta list \<Rightarrow> delta list list" where
  "thread_chunks deltas =
     (let chunk_size = (length deltas + 15) div 16
      in map (\<lambda>i. take chunk_size (drop (i * chunk_size) deltas)) [0..<16])"

text \<open>The orders in which the threads can push.\<close>

inductive interleaves :: "'a list list \<Rightarrow> 'a list \<Rightarrow> bool" where
  interleaves_done: "(\<forall>c \<in> set cs. c = []) \<Longrightarrow> interleaves cs []"
| interleaves_push: "i < length cs \<Longrightarrow> cs ! i = x # c \<Longrightarrow> interleaves (cs[i := c]) xs
    \<Longrightarrow> interleaves cs (x # xs)"

definition sub_root :: "crypto_lib \<Rightarrow> crypto_profile \<Rightarrow> (b256 \<times> u256) list \<Rightarrow> b256" where
  "sub_root cl profile branch =
     (if branch = [] then 0
      else fit32 (hash cl (cp_hash profile)
             (concat (map (\<lambda>(key, val). b256_bytes key @ b256_bytes val) branch))))"

definition build_state_root :: "crypto_lib \<Rightarrow> crypto_profile \<Rightarrow> delta list \<Rightarrow> delta list \<Rightarrow> b256" where
  "build_state_root cl profile deltas pushed =
     (if deltas = [] then 0
      else
        (let entries = map (delta_entry cl profile) pushed;
             branch = (\<lambda>n. [e\<leftarrow>entries. nibble (fst e) = n]);
             sub_roots = map (\<lambda>n. sub_root cl profile (branch n)) [0..<16]
         in fit32 (hash cl (cp_hash profile) (concat (map b256_bytes sub_roots)))))"

text \<open>The pushes are a permutation of the deltas.\<close>

lemma take_drop_chunks:
  "concat (map (\<lambda>i. take k (drop (i * k) xs)) [0..<n]) = take (n * k) xs"
proof (induction n)
  case (Suc n)
  have "Suc n * k = n * k + k" by simp
  then have "take (Suc n * k) xs = take (n * k) xs @ take k (drop (n * k) xs)"
    by (simp only: take_add)
  with Suc show ?case by simp
qed simp

lemma concat_thread_chunks: "concat (thread_chunks deltas) = deltas"
proof -
  have "length deltas \<le> 16 * ((length deltas + 15) div 16)" by presburger
  then show ?thesis by (simp add: thread_chunks_def Let_def take_drop_chunks)
qed

lemma concat_update:
  "i < length cs \<Longrightarrow> cs ! i = x # c \<Longrightarrow> set (concat cs) = insert x (set (concat (cs[i := c])))"
proof (induction cs arbitrary: i)
  case (Cons a cs)
  then show ?case by (cases i) auto
qed simp

lemma interleaves_set: "interleaves cs xs \<Longrightarrow> set xs = set (concat cs)"
proof (induction rule: interleaves.induct)
  case (interleaves_push i cs x c xs)
  then show ?case using concat_update [of i cs x c] by simp
qed auto

lemma interleaves_sequential: "interleaves cs (concat cs)"
proof -
  have "interleaves (replicate n [] @ cs) (concat cs)" for n
  proof (induction "concat cs" arbitrary: cs n)
    case Nil
    then have "\<forall>c \<in> set (replicate n [] @ cs). c = []" by auto
    with Nil show ?case by (metis interleaves_done)
  next
    case (Cons x xs)
    show ?case using Cons
    proof (induction cs arbitrary: n)
      case (Cons c cs)
      show ?case
      proof (cases c)
        case Nil
        have "replicate n [] @ c # cs = replicate (Suc n) [] @ cs"
          by (simp add: Nil replicate_app_Cons_same)
        moreover have "concat (c # cs) = concat cs" by (simp add: Nil)
        moreover have "interleaves (replicate (Suc n) [] @ cs) (concat cs)"
          using Cons.prems Nil by (intro Cons.IH) simp_all
        ultimately show ?thesis by (simp only:)
      next
        case (Cons y d)
        with Cons.prems have y: "y = x" and xs: "xs = concat (d # cs)" by simp_all
        have "interleaves (replicate n [] @ d # cs) (concat (d # cs))"
          using Cons.prems(1) [OF xs] .
        then have "interleaves ((replicate n [] @ c # cs)[n := d]) (concat (d # cs))"
          by (simp add: list_update_append)
        then have "interleaves (replicate n [] @ c # cs) (x # concat (d # cs))"
          by (intro interleaves_push [of n]) (simp_all add: Cons y nth_append)
        then show ?thesis by (simp add: Cons y)
      qed
    qed simp
  qed
  from this [of 0] show ?thesis by simp
qed

section \<open>Properties\<close>

lemma fit32_b256_bytes [simp]: "fit32 (b256_bytes w) = w"
  by (simp add: fit32_def Let_def)

lemma be_nat_append: "be_nat (xs @ ys) = be_nat xs * 256 ^ length ys + be_nat ys"
  by (induction xs) (simp_all add: algebra_simps power_add)

text \<open>The sample hash keeps the last 32 bytes.\<close>

lemma sample_hash_suffix: "keccak256 sample_crypto (xs @ b256_bytes w) = w"
proof -
  have w: "be_nat (b256_bytes w) = unat w"
    using unat_less [of w] by (simp add: b256_bytes_def be_nat_be_bytes)
  have "(be_nat xs * 2 ^ 256 + unat w) mod 2 ^ 256 = unat w"
    using unat_less [of w] by simp
  moreover have "be_nat (xs @ b256_bytes w) = be_nat xs * 2 ^ 256 + unat w"
    by (simp add: be_nat_append w)
  ultimately have "unat (word_of_nat (be_nat (xs @ b256_bytes w)) :: b256) = unat w"
    unfolding unat_of_nat by simp
  then show ?thesis by (simp add: sample_crypto_def word_unat_eq_iff)
qed

lemma sample_derive_key: "derive_key sample_crypto ETHEREUM a slot = slot"
  by (simp add: derive_key_def ETHEREUM_def sample_hash_suffix)

definition two_deltas :: "delta list" where
  "two_deltas = [(0, 15 * 2 ^ 252, 1), (0, 15 * 2 ^ 252 + 1, 2)]"

lemma two_deltas_chunks: "thread_chunks two_deltas = [[two_deltas ! 0], [two_deltas ! 1]] @ replicate 14 []"
  by (simp add: thread_chunks_def two_deltas_def upt_rec) (simp add: numeral_eq_Suc)

lemma two_deltas_orders:
  "interleaves (thread_chunks two_deltas) [two_deltas ! 0, two_deltas ! 1]"
  "interleaves (thread_chunks two_deltas) [two_deltas ! 1, two_deltas ! 0]"
proof -
  let ?a = "two_deltas ! 0" and ?b = "two_deltas ! 1" and ?r = "replicate 14 []"
  have d: "interleaves ([[], []] @ ?r) []" by (rule interleaves_done) auto
  have "interleaves ([[], [?b]] @ ?r) [?b]" "interleaves ([[?a], []] @ ?r) [?a]"
    using interleaves_push [of 1 "[[], [?b]] @ ?r" ?b "[]"] interleaves_push [of 0 "[[?a], []] @ ?r" ?a "[]"] d
    by simp_all
  then show "interleaves (thread_chunks two_deltas) [?a, ?b]" "interleaves (thread_chunks two_deltas) [?b, ?a]"
    using interleaves_push [of 0 "[[?a], [?b]] @ ?r" ?a "[]"] interleaves_push [of 1 "[[?a], [?b]] @ ?r" ?b "[]"]
    by (simp_all add: two_deltas_chunks)
qed

lemma two_deltas_root:
  assumes "pushed = [(0, s, v), (0, t, w)]" and "nibble s = 15" and "nibble t = 15"
  shows "build_state_root sample_crypto ETHEREUM two_deltas pushed = w"
proof -
  have "sub_root sample_crypto ETHEREUM [(s, v), (t, w)] = w"
    using sample_hash_suffix [of "b256_bytes s @ b256_bytes v @ b256_bytes t" w]
    by (simp add: sub_root_def ETHEREUM_def)
  moreover have "[0..<16] = [0..<15] @ [15 :: nat]" by (simp add: upt_rec)
  moreover have "delta_entry sample_crypto ETHEREUM (0, s, v) = (s, v)" "delta_entry sample_crypto ETHEREUM (0, t, w) = (t, w)"
    by (simp_all add: delta_entry_def sample_derive_key)
  moreover have "hash sample_crypto (cp_hash ETHEREUM) (xs @ b256_bytes w) = b256_bytes w" for xs
    by (simp add: ETHEREUM_def sample_hash_suffix)
  ultimately show ?thesis
    by (simp add: build_state_root_def assms two_deltas_def Let_def)
qed

text \<open>The state root depends on the scheduling of the builder's threads. There are deltas and two
  orders in which the sixteen threads can push them that lead to different roots.\<close>

theorem root_depends_on_schedule:
  "\<exists>cl deltas p q. interleaves (thread_chunks deltas) p \<and> interleaves (thread_chunks deltas) q \<and>
     build_state_root cl ETHEREUM deltas p \<noteq> build_state_root cl ETHEREUM deltas q"
proof -
  have n: "nibble (15 * 2 ^ 252) = 15" "nibble (15 * 2 ^ 252 + 1) = 15"
    by (simp_all add: nibble_def drop_bit_eq_div)
  have "build_state_root sample_crypto ETHEREUM two_deltas [two_deltas ! 0, two_deltas ! 1] = 2"
    by (rule two_deltas_root [OF _ n]) (simp add: two_deltas_def)
  moreover have "build_state_root sample_crypto ETHEREUM two_deltas [two_deltas ! 1, two_deltas ! 0] = 1"
    by (rule two_deltas_root [OF _ n(2,1)]) (simp add: two_deltas_def)
  ultimately have "build_state_root sample_crypto ETHEREUM two_deltas [two_deltas ! 0, two_deltas ! 1] \<noteq>
      build_state_root sample_crypto ETHEREUM two_deltas [two_deltas ! 1, two_deltas ! 0]" by simp
  with two_deltas_orders show ?thesis by blast
qed

end
