(* ===== verification/Based_Mesh.thy ===== *)
theory Based_Mesh
  imports Scale Registry
begin

text \<open>
  Based meshing (\<open>crates/consensus/src/based_mesh.rs\<close>): cross-manifold messages and packets with
  their SCALE codecs, the packing of a packet into an EIP-4844 blob of 4096 field elements
  with 31 usable bytes each, and the validity-proof check. JSON, the derived codec of the
  proof scheme and the KZG library are parameters (\<open>mesh_lib\<close>). Lemmas: codecs and blob
  round-trip up to 4095 chunks, the 4096th is cut off; every field element is canonical;
  a packet with the binding the code itself appends verifies whatever the proof is.
\<close>

section \<open>Messages and packets\<close>

datatype proof_scheme =
  Groth16Bn254 | SpruceSp1Bls12381 | RiscZeroBonsai | BiniusBinaryStark | Plonky3Blake3

definition proof_scheme_try_from :: "u8 \<Rightarrow> (proof_scheme, string) outcome" where
  "proof_scheme_try_from v =
     (if v = 2 then Ok Groth16Bn254 else if v = 3 then Ok SpruceSp1Bls12381
      else if v = 4 then Ok RiscZeroBonsai else if v = 5 then Ok BiniusBinaryStark
      else if v = 6 then Ok Plonky3Blake3 else Err ''Unsupported proof scheme selector'')"

record cross_manifold_message =
  message_id :: b256
  msg_sender :: address
  msg_recipient :: address
  msg_payload :: bytes
  msg_timestamp :: u64

record mesh_packet =
  mp_version :: u8
  source_manifold_id :: u64
  target_manifolds :: "u64 list"
  state_diff_blob_hash :: b256
  kzg_commitment :: bytes
  kzg_proof :: bytes
  mp_scheme :: proof_scheme
  zkevm_proof_payload :: bytes
  execution_payload :: bytes

record mesh_lib =
  ml_crypto :: crypto_lib
  ml_scale :: scale_lib
  u64_vec_enc :: "u64 list \<Rightarrow> bytes"
  u64_vec_dec :: "u64 list decoder"
  scheme_enc :: "proof_scheme \<Rightarrow> bytes"
  scheme_dec :: "proof_scheme decoder"
  message_to_json :: "cross_manifold_message \<Rightarrow> bytes option"
  message_from_json :: "bytes \<Rightarrow> cross_manifold_message option"
  blob_ok :: "bytes \<Rightarrow> bool"
  blob_commitment :: "bytes \<Rightarrow> bytes option"
  blob_proof :: "bytes \<Rightarrow> bytes \<Rightarrow> bytes option"
  blob_verify :: "bytes \<Rightarrow> bytes \<Rightarrow> bytes \<Rightarrow> bool option"

definition message_encode :: "scale_lib \<Rightarrow> cross_manifold_message \<Rightarrow> bytes" where
  "message_encode sl m =
     array_enc sl (b256_bytes (message_id m)) @ array_enc sl (address_bytes (msg_sender m)) @
     array_enc sl (address_bytes (msg_recipient m)) @ vec_enc sl (msg_payload m) @
     u64_enc sl (msg_timestamp m)"

definition message_decode :: "scale_lib \<Rightarrow> cross_manifold_message decoder" where
  "message_decode sl inp =
     (case array_dec sl 32 inp of None \<Rightarrow> None | Some (i, inp) \<Rightarrow>
     (case array_dec sl 20 inp of None \<Rightarrow> None | Some (s, inp) \<Rightarrow>
     (case array_dec sl 20 inp of None \<Rightarrow> None | Some (r, inp) \<Rightarrow>
     (case vec_dec sl inp of None \<Rightarrow> None | Some (p, inp) \<Rightarrow>
     (case u64_dec sl inp of None \<Rightarrow> None | Some (t, inp) \<Rightarrow>
      Some (\<lparr>message_id = b256_of_bytes i, msg_sender = address_of_bytes s,
             msg_recipient = address_of_bytes r, msg_payload = p, msg_timestamp = t\<rparr>, inp))))))"

definition mesh_encode :: "mesh_lib \<Rightarrow> mesh_packet \<Rightarrow> bytes" where
  "mesh_encode ml p =
     (let sl = ml_scale ml in
      u8_enc sl (mp_version p) @ u64_enc sl (source_manifold_id p) @
      u64_vec_enc ml (target_manifolds p) @ array_enc sl (b256_bytes (state_diff_blob_hash p)) @
      array_enc sl (kzg_commitment p) @ array_enc sl (kzg_proof p) @ scheme_enc ml (mp_scheme p) @
      vec_enc sl (zkevm_proof_payload p) @ vec_enc sl (execution_payload p))"

definition mesh_decode :: "mesh_lib \<Rightarrow> mesh_packet decoder" where
  "mesh_decode ml inp =
     (let sl = ml_scale ml in
      case u8_dec sl inp of None \<Rightarrow> None | Some (v, inp) \<Rightarrow>
     (case u64_dec sl inp of None \<Rightarrow> None | Some (src, inp) \<Rightarrow>
     (case u64_vec_dec ml inp of None \<Rightarrow> None | Some (ts, inp) \<Rightarrow>
     (case array_dec sl 32 inp of None \<Rightarrow> None | Some (h, inp) \<Rightarrow>
     (case array_dec sl 48 inp of None \<Rightarrow> None | Some (c, inp) \<Rightarrow>
     (case array_dec sl 48 inp of None \<Rightarrow> None | Some (pr, inp) \<Rightarrow>
     (case scheme_dec ml inp of None \<Rightarrow> None | Some (s, inp) \<Rightarrow>
     (case vec_dec sl inp of None \<Rightarrow> None | Some (z, inp) \<Rightarrow>
     (case vec_dec sl inp of None \<Rightarrow> None | Some (e, inp) \<Rightarrow>
      Some (\<lparr>mp_version = v, source_manifold_id = src, target_manifolds = ts,
             state_diff_blob_hash = b256_of_bytes h, kzg_commitment = c, kzg_proof = pr,
             mp_scheme = s, zkevm_proof_payload = z, execution_payload = e\<rparr>, inp))))))))))"

definition mesh_packet_default :: mesh_packet where
  "mesh_packet_default =
     \<lparr>mp_version = 1, source_manifold_id = 0, target_manifolds = [], state_diff_blob_hash = 0,
      kzg_commitment = replicate 48 0, kzg_proof = replicate 48 0, mp_scheme = SpruceSp1Bls12381,
      zkevm_proof_payload = [], execution_payload = []\<rparr>"

text \<open>\<open>serde_arr48::deserialize\<close>: exactly 48 bytes\<close>

definition arr48_of_slice :: "bytes \<Rightarrow> bytes option" where
  "arr48_of_slice s = (if length s = 48 then Some s else None)"

section \<open>Serialisation and blobs\<close>

datatype mesh_error =
    DeserializeFailed | UnsupportedVersion | ExceedsCapacity | InvalidBlobLength
  | EncodedLengthExceeds | EmptyProof | ProofFailed | BlobParse | KzgComputation | KzgMismatch
  | ProofTooShort | BindingFailed | SchemeCurveMismatch | ProofBodyTooShort
  | MessageSerialize | MessageDeserialize

definition mesh_from_bytes :: "mesh_lib \<Rightarrow> bytes \<Rightarrow> (mesh_packet, mesh_error) outcome" where
  "mesh_from_bytes ml data =
     (case mesh_decode ml data of
        None \<Rightarrow> Err DeserializeFailed
      | Some (p, _) \<Rightarrow> if mp_version p \<noteq> 1 then Err UnsupportedVersion else Ok p)"

text \<open>
  The chunk loop fills the zeroed buffer one 32-byte field element at a time; an element past
  the end of the data stays zero.
\<close>

fun blob_elements :: "nat \<Rightarrow> bytes \<Rightarrow> bytes" where
  "blob_elements 0 raw = []"
| "blob_elements (Suc n) raw =
     (0 # take 31 raw @ replicate (31 - length raw) 0) @ blob_elements n (drop 31 raw)"

fun read_elements :: "nat \<Rightarrow> nat \<Rightarrow> bytes \<Rightarrow> bytes" where
  "read_elements 0 remaining blob = []"
| "read_elements (Suc n) remaining blob =
     (if remaining = 0 then []
      else take (min remaining 31) (drop 1 blob) @
        read_elements n (remaining - min remaining 31) (drop 32 blob))"

definition max_usable :: nat where
  "max_usable = 4096 * 31"

definition pack_blob :: "bytes \<Rightarrow> bytes" where
  "pack_blob raw = (0 # be_bytes 4 (length raw) @ replicate 27 0) @ blob_elements 4095 raw"

definition clean_packet :: "mesh_packet \<Rightarrow> mesh_packet" where
  "clean_packet p = p\<lparr>kzg_commitment := replicate 48 0, kzg_proof := replicate 48 0\<rparr>"

definition to_blob_bytes :: "mesh_lib \<Rightarrow> mesh_packet \<Rightarrow> (bytes, mesh_error) outcome" where
  "to_blob_bytes ml p =
     (let raw = mesh_encode ml (clean_packet p) in
      if max_usable < length raw then Err ExceedsCapacity else Ok (pack_blob raw))"

definition with_kzg :: "mesh_lib \<Rightarrow> bytes \<Rightarrow> mesh_packet \<Rightarrow> mesh_packet" where
  "with_kzg ml blob p =
     (if \<not> blob_ok ml blob then p
      else case blob_commitment ml blob of
        None \<Rightarrow> p
      | Some c \<Rightarrow> (case blob_proof ml blob c of
          None \<Rightarrow> p
        | Some pr \<Rightarrow> p\<lparr>kzg_commitment := c, kzg_proof := pr\<rparr>))"

definition unpack_blob :: "bytes \<Rightarrow> (bytes, mesh_error) outcome" where
  "unpack_blob blob =
     (let len = be_nat (take 4 (drop 1 blob)) in
      if max_usable < len then Err EncodedLengthExceeds
      else Ok (read_elements 4095 len (drop 32 blob)))"

definition from_blob_bytes :: "mesh_lib \<Rightarrow> bytes \<Rightarrow> (mesh_packet, mesh_error) outcome" where
  "from_blob_bytes ml blob =
     (if length blob \<noteq> 131072 then Err InvalidBlobLength
      else and_then (unpack_blob blob) (\<lambda>raw.
           and_then (mesh_from_bytes ml raw) (\<lambda>p. Ok (with_kzg ml blob p))))"

definition mesh_new ::
  "mesh_lib \<Rightarrow> u64 \<Rightarrow> u64 list \<Rightarrow> b256 \<Rightarrow> proof_scheme \<Rightarrow> bytes \<Rightarrow> bytes \<Rightarrow> mesh_packet" where
  "mesh_new ml src targets h scheme payload exec =
     (let p = \<lparr>mp_version = 1, source_manifold_id = src, target_manifolds = targets,
               state_diff_blob_hash = h, kzg_commitment = replicate 48 0,
               kzg_proof = replicate 48 0, mp_scheme = scheme,
               zkevm_proof_payload = payload, execution_payload = exec\<rparr>
      in case to_blob_bytes ml p of Ok blob \<Rightarrow> with_kzg ml blob p | _ \<Rightarrow> p)"

section \<open>Validity proofs\<close>

definition mesh_profile :: "validator_registry \<Rightarrow> crypto_profile" where
  "mesh_profile reg = profile_or_ethereum (default_crypto_profile (vr_dynamic_cfg reg))"

fun scheme_matches :: "proof_scheme \<Rightarrow> pairing_curve \<Rightarrow> bool" where
  "scheme_matches Groth16Bn254 c = (c = Bn254)"
| "scheme_matches SpruceSp1Bls12381 c = (c = Bls12381)"
| "scheme_matches RiscZeroBonsai c = (c = BabyBear)"
| "scheme_matches BiniusBinaryStark c = True"
| "scheme_matches Plonky3Blake3 c = True"

text \<open>The binding: the last 32 bytes are the hash of what precedes them and the state diff hash.\<close>

definition check_binding ::
  "crypto_lib \<Rightarrow> crypto_profile \<Rightarrow> mesh_packet \<Rightarrow> (unit, mesh_error) outcome" where
  "check_binding cl profile p =
     (let payload = zkevm_proof_payload p;
          body = take (length payload - 32) payload;
          binding = drop (length payload - 32) payload;
          calculated = hash cl (cp_hash profile) (body @ b256_bytes (state_diff_blob_hash p))
      in if length calculated < 32 then Panic
         else if take 32 calculated \<noteq> binding then Err BindingFailed
         else if \<not> scheme_matches (mp_scheme p) (cp_pairing_curve profile) then Err SchemeCurveMismatch
         else if length body < 32 then Err ProofBodyTooShort else Ok ())"

definition verify_validity_proof ::
  "mesh_lib \<Rightarrow> validator_registry \<Rightarrow> mesh_packet \<Rightarrow> (bool, mesh_error) outcome" where
  "verify_validity_proof ml reg p =
     (if zkevm_proof_payload p = [] then Err EmptyProof
      else if zkevm_proof_payload p = as_bytes ''INVALID_PROOF_PAYLOAD'' then Err ProofFailed
      else and_then (to_blob_bytes ml p) (\<lambda>blob.
        if \<not> blob_ok ml blob then Err BlobParse
        else case blob_verify ml blob (kzg_commitment p) (kzg_proof p) of
            None \<Rightarrow> Err KzgComputation
          | Some False \<Rightarrow> Err KzgMismatch
          | Some True \<Rightarrow>
              (if length (zkevm_proof_payload p) < 64 then Err ProofTooShort
               else and_then (check_binding (ml_crypto ml) (mesh_profile reg) p) (\<lambda>_. Ok True))))"

definition new_with_valid_binding ::
  "mesh_lib \<Rightarrow> validator_registry \<Rightarrow> u64 \<Rightarrow> u64 list \<Rightarrow> b256 \<Rightarrow> proof_scheme \<Rightarrow> bytes \<Rightarrow> bytes
    \<Rightarrow> (mesh_packet, mesh_error) outcome" where
  "new_with_valid_binding ml reg src targets h scheme payload exec =
     (let payload = payload @ replicate (32 - length payload) 0;
          calculated = hash (ml_crypto ml) (cp_hash (mesh_profile reg)) (payload @ b256_bytes h)
      in if length calculated < 32 then Panic
         else Ok (mesh_new ml src targets h scheme (payload @ take 32 calculated) exec))"

definition from_message ::
  "mesh_lib \<Rightarrow> validator_registry \<Rightarrow> u64 \<Rightarrow> u64 \<Rightarrow> b256 \<Rightarrow> proof_scheme \<Rightarrow> bytes
    \<Rightarrow> cross_manifold_message \<Rightarrow> (mesh_packet, mesh_error) outcome" where
  "from_message ml reg src target h scheme proof m =
     (case message_to_json ml m of
        None \<Rightarrow> Err MessageSerialize
      | Some js \<Rightarrow> new_with_valid_binding ml reg src [target] h scheme proof js)"

definition extract_message ::
  "mesh_lib \<Rightarrow> validator_registry \<Rightarrow> mesh_packet \<Rightarrow> (cross_manifold_message, mesh_error) outcome" where
  "extract_message ml reg p =
     and_then (verify_validity_proof ml reg p) (\<lambda>_.
       ok_or MessageDeserialize (message_from_json ml (execution_payload p)))"

section \<open>What the libraries promise\<close>

definition mesh_lib_ok :: "mesh_lib \<Rightarrow> bool" where
  "mesh_lib_ok ml \<longleftrightarrow>
     scale_ok (ml_scale ml) \<and>
     (\<forall>ns rest. length ns < vec_bound \<longrightarrow> u64_vec_dec ml (u64_vec_enc ml ns @ rest) = Some (ns, rest)) \<and>
     (\<forall>s rest. scheme_dec ml (scheme_enc ml s @ rest) = Some (s, rest)) \<and>
     (\<forall>m js. message_to_json ml m = Some js \<longrightarrow> message_from_json ml js = Some m) \<and>
     (\<forall>b. blob_ok ml b \<longrightarrow> (\<exists>c pr. blob_commitment ml b = Some c \<and> blob_proof ml b c = Some pr \<and>
        length c = 48 \<and> length pr = 48 \<and> blob_verify ml b c pr = Some True))"

lemma mesh_lib_okD:
  assumes "mesh_lib_ok ml"
  shows "scale_ok (ml_scale ml)"
    and "length ns < vec_bound \<Longrightarrow> u64_vec_dec ml (u64_vec_enc ml ns @ rest) = Some (ns, rest)"
    and "scheme_dec ml (scheme_enc ml s @ rest) = Some (s, rest)"
    and "message_to_json ml m = Some js \<Longrightarrow> message_from_json ml js = Some m"
    and "blob_ok ml b \<Longrightarrow> \<exists>c pr. blob_commitment ml b = Some c \<and> blob_proof ml b c = Some pr \<and>
        length c = 48 \<and> length pr = 48 \<and> blob_verify ml b c pr = Some True"
  using assms unfolding mesh_lib_ok_def by blast+

section \<open>Codecs\<close>

definition mesh_valid :: "mesh_packet \<Rightarrow> bool" where
  "mesh_valid p \<longleftrightarrow> length (target_manifolds p) < vec_bound \<and> length (kzg_commitment p) = 48 \<and>
     length (kzg_proof p) = 48 \<and> length (zkevm_proof_payload p) < vec_bound \<and>
     length (execution_payload p) < vec_bound"

lemma message_decode_encode:
  assumes "scale_ok sl" and "length (msg_payload m) < vec_bound"
  shows "message_decode sl (message_encode sl m @ rest) = Some (m, rest)"
  using assms by (simp add: message_decode_def message_encode_def scale_okD)

lemma mesh_decode_encode:
  assumes "mesh_lib_ok ml" and "mesh_valid p"
  shows "mesh_decode ml (mesh_encode ml p @ rest) = Some (p, rest)"
  using assms(2)
  by (simp add: mesh_decode_def mesh_encode_def Let_def mesh_valid_def
      scale_okD [OF mesh_lib_okD(1) [OF assms(1)]] mesh_lib_okD [OF assms(1)])

sublocale scale_primitives \<subseteq> msg: codec "\<lambda>m. length (msg_payload m) < vec_bound"
  "message_encode sl" "message_decode sl"
  by unfold_locales (simp add: message_decode_encode ok)

locale mesh_primitives =
  fixes ml :: mesh_lib
  assumes mesh_ok: "mesh_lib_ok ml"

sublocale mesh_primitives \<subseteq> packet: codec mesh_valid "mesh_encode ml" "mesh_decode ml"
  by unfold_locales (simp add: mesh_decode_encode mesh_ok)

lemma mesh_from_bytes_encode:
  assumes "mesh_lib_ok ml" and "mesh_valid p"
  shows "mesh_from_bytes ml (mesh_encode ml p) = (if mp_version p = 1 then Ok p else Err UnsupportedVersion)"
  using mesh_decode_encode [OF assms, of "[]"] by (simp add: mesh_from_bytes_def)

section \<open>Blobs\<close>

lemma length_blob_elements [simp]: "length (blob_elements n raw) = 32 * n"
  by (induction n raw rule: blob_elements.induct) auto

lemma length_pack_blob [simp]: "length (pack_blob raw) = 131072"
  by (simp add: pack_blob_def)

lemma read_blob_elements:
  "read_elements n (length raw) (blob_elements n raw @ rest) = take (31 * n) raw"
proof (induction n arbitrary: raw)
  case (Suc n)
  let ?e = "0 # take 31 raw @ replicate (31 - length raw) (0 :: u8)"
  have drop1: "drop 1 (blob_elements (Suc n) raw @ rest) =
      take 31 raw @ replicate (31 - length raw) 0 @ blob_elements n (drop 31 raw) @ rest" by simp
  have "drop 32 (?e @ blob_elements n (drop 31 raw) @ rest) = blob_elements n (drop 31 raw) @ rest"
    by (cases "31 \<le> length raw") simp_all
  then have drop32: "drop 32 (blob_elements (Suc n) raw @ rest) = blob_elements n (drop 31 raw) @ rest"
    by simp
  have "take (min (length raw) 31) (drop 1 (blob_elements (Suc n) raw @ rest)) = take 31 raw"
    unfolding drop1 by (cases "31 \<le> length raw") simp_all
  moreover have "read_elements n (length raw - min (length raw) 31) (blob_elements n (drop 31 raw) @ rest) =
      take (31 * n) (drop 31 raw)"
  proof -
    have "length raw - min (length raw) 31 = length (drop 31 raw)" by simp
    then show ?thesis by (simp only: Suc.IH)
  qed
  moreover have "take 31 raw @ take (31 * n) (drop 31 raw) = take (31 * Suc n) raw"
    using take_add [of 31 "31 * n" raw] by simp
  ultimately show ?case by (simp only: read_elements.simps drop32) simp
qed simp

lemma unpack_pack_blob:
  assumes "length raw \<le> max_usable"
  shows "unpack_blob (pack_blob raw) = Ok (take (31 * 4095) raw)"
proof -
  have h: "take 4 (drop 1 (pack_blob raw)) = be_bytes 4 (length raw)"
    "drop 32 (pack_blob raw) = blob_elements 4095 raw"
    by (simp_all add: pack_blob_def)
  have "be_nat (be_bytes 4 (length raw)) = length raw"
    using assms by (simp add: be_nat_be_bytes max_usable_def)
  with assms show ?thesis
    using read_blob_elements [of 4095 raw "[]"]
    by (simp only: unpack_blob_def h Let_def) simp
qed

text \<open>Field elements start with a zero byte, so they are below the modulus of the scalar field.\<close>

definition field_element :: "nat \<Rightarrow> bytes \<Rightarrow> bytes" where
  "field_element i blob = take 32 (drop (32 * i) blob)"

definition bls_modulus :: nat where
  "bls_modulus = 0x73eda753299d7d483339d80809a1d80553bda402fffe5bfeffffffff00000001"

lemma field_element_blob_elements:
  "i < n \<Longrightarrow> \<exists>bs. field_element i (blob_elements n raw) = 0 # bs \<and> length bs = 31"
proof (induction n raw arbitrary: i rule: blob_elements.induct)
  case (2 n raw)
  let ?e = "0 # take 31 raw @ replicate (31 - length raw) (0 :: u8)"
  have len: "length ?e = 32" by (cases "31 \<le> length raw") simp_all
  show ?case
  proof (cases i)
    case 0
    have "take 32 (?e @ blob_elements n (drop 31 raw)) = ?e" using len by simp
    with 0 len show ?thesis by (simp add: field_element_def)
  next
    case (Suc j)
    have "drop (32 * i) (?e @ blob_elements n (drop 31 raw)) = drop (32 * j) (blob_elements n (drop 31 raw))"
      using drop_prefix [OF len, of "32 * j"] by (simp only: Suc mult_Suc_right)
    then have "field_element i (blob_elements (Suc n) raw) = field_element j (blob_elements n (drop 31 raw))"
      by (simp add: field_element_def)
    with 2 Suc show ?thesis by simp
  qed
qed simp

lemma field_element_pack_blob:
  assumes "i < 4096"
  shows "\<exists>bs. field_element i (pack_blob raw) = 0 # bs \<and> length bs = 31"
proof (cases i)
  case 0
  then show ?thesis by (simp add: field_element_def pack_blob_def)
next
  case (Suc j)
  have "field_element i (pack_blob raw) = field_element j (blob_elements 4095 raw)"
    using drop_prefix [of "0 # be_bytes 4 (length raw) @ replicate 27 0" 32 "32 * j" "blob_elements 4095 raw"]
    by (simp only: field_element_def pack_blob_def Suc mult_Suc_right) simp
  with field_element_blob_elements [of j 4095 raw] assms Suc show ?thesis by simp
qed

lemma field_element_canonical:
  assumes "i < 4096"
  shows "be_nat (field_element i (pack_blob raw)) < bls_modulus"
proof -
  from field_element_pack_blob [OF assms] obtain bs
    where "field_element i (pack_blob raw) = 0 # bs" "length bs = 31" by blast
  moreover have "be_nat bs < 256 ^ 31" using be_nat_less [of bs] calculation(2) by simp
  ultimately show ?thesis by (simp add: bls_modulus_def)
qed

section \<open>The binding proves nothing about the proof\<close>

lemma clean_with_kzg [simp]: "clean_packet (with_kzg ml b p) = clean_packet p"
  by (simp add: with_kzg_def clean_packet_def split: option.splits)

lemma with_kzg_fields [simp]:
  "zkevm_proof_payload (with_kzg ml b p) = zkevm_proof_payload p"
  "state_diff_blob_hash (with_kzg ml b p) = state_diff_blob_hash p"
  "mp_scheme (with_kzg ml b p) = mp_scheme p"
  "execution_payload (with_kzg ml b p) = execution_payload p"
  "mp_version (with_kzg ml b p) = mp_version p"
  by (simp_all add: with_kzg_def split: option.splits)

lemma to_blob_bytes_with_kzg [simp]: "to_blob_bytes ml (with_kzg ml b p) = to_blob_bytes ml p"
  by (simp add: to_blob_bytes_def)

lemma mesh_new_verifies_kzg:
  assumes "mesh_lib_ok ml" and "to_blob_bytes ml p = Ok blob" and "blob_ok ml blob"
  shows "blob_verify ml blob (kzg_commitment (with_kzg ml blob p)) (kzg_proof (with_kzg ml blob p)) = Some True"
  using mesh_lib_okD(5) [OF assms(1,3)] assms(3) by (auto simp: with_kzg_def)

section \<open>A concrete library\<close>

fun scheme_code :: "proof_scheme \<Rightarrow> u8" where
  "scheme_code Groth16Bn254 = 2"
| "scheme_code SpruceSp1Bls12381 = 3"
| "scheme_code RiscZeroBonsai = 4"
| "scheme_code BiniusBinaryStark = 5"
| "scheme_code Plonky3Blake3 = 6"

definition sample_mesh_lib :: mesh_lib where
  "sample_mesh_lib =
     \<lparr>ml_crypto = sample_crypto, ml_scale = scale_ref,
      u64_vec_enc = (\<lambda>ns. compact_enc (length ns) @ concat (map (\<lambda>n. le_bytes 8 (unat n)) ns)),
      u64_vec_dec = (\<lambda>inp. case compact_dec inp of None \<Rightarrow> None | Some (n, r) \<Rightarrow> le_u64s_dec n r),
      scheme_enc = (\<lambda>s. [scheme_code s]),
      scheme_dec = (\<lambda>inp. case inp of [] \<Rightarrow> None
        | b # r \<Rightarrow> (case proof_scheme_try_from b of Ok s \<Rightarrow> Some (s, r) | _ \<Rightarrow> None)),
      message_to_json = (\<lambda>m. if length (msg_payload m) < vec_bound then Some (message_encode scale_ref m) else None),
      message_from_json = (\<lambda>js. map_option fst (message_decode scale_ref js)),
      blob_ok = (\<lambda>b. length b = 131072),
      blob_commitment = (\<lambda>b. Some (replicate 48 1)), blob_proof = (\<lambda>b c. Some (replicate 48 2)),
      blob_verify = (\<lambda>b c p. Some (c = replicate 48 1 \<and> p = replicate 48 2))\<rparr>"

lemma proof_scheme_try_from_code [simp]: "proof_scheme_try_from (scheme_code s) = Ok s"
  by (cases s) (simp_all add: proof_scheme_try_from_def)

lemma sample_mesh_lib_ok: "mesh_lib_ok sample_mesh_lib"
proof -
  have "message_decode scale_ref (message_encode scale_ref m) = Some (m, [])"
    if "length (msg_payload m) < vec_bound" for m
    using message_decode_encode [OF scale_ref_ok that, of "[]"] by simp
  then show ?thesis
    by (auto simp: mesh_lib_ok_def sample_mesh_lib_def scale_ref_ok compact_dec_enc split: if_splits)
qed

interpretation sample_mesh: mesh_primitives sample_mesh_lib
  by unfold_locales (rule sample_mesh_lib_ok)

definition sample_packet :: mesh_packet where
  "sample_packet = mesh_packet_default\<lparr>target_manifolds := [7], execution_payload := [1, 2, 3]\<rparr>"

lemma sample_packet_valid: "mesh_valid sample_packet" "mp_version sample_packet = 1"
  by (simp_all add: sample_packet_def mesh_packet_default_def mesh_valid_def vec_bound_def)

lemmas sample_mesh_eval = mesh_encode_def sample_mesh_lib_def scale_ref_def clean_packet_def
  compact_enc_def Let_def

text \<open>The facts behind the self-certified proof, as a lemma on the constructor.\<close>

lemma new_with_valid_binding_verifies:
  assumes "mesh_lib_ok ml" and "new_with_valid_binding ml reg src targets h scheme proof exec = Ok p"
    and "scheme_matches scheme (cp_pairing_curve (mesh_profile reg))"
    and "to_blob_bytes ml p = Ok blob" and "blob_ok ml blob"
  shows "verify_validity_proof ml reg p = Ok True" and "execution_payload p = exec"
proof -
  define body where "body = proof @ replicate (32 - length proof) 0"
  define calc where "calc = hash (ml_crypto ml) (cp_hash (mesh_profile reg)) (body @ b256_bytes h)"
  have calc: "32 \<le> length calc" and p: "p = mesh_new ml src targets h scheme (body @ take 32 calc) exec"
    using assms(2) by (auto simp: new_with_valid_binding_def Let_def body_def calc_def split: if_splits)
  have body: "32 \<le> length body" by (simp add: body_def)
  define q where "q = \<lparr>mp_version = 1, source_manifold_id = src, target_manifolds = targets,
      state_diff_blob_hash = h, kzg_commitment = replicate 48 0, kzg_proof = replicate 48 0,
      mp_scheme = scheme, zkevm_proof_payload = body @ take 32 calc, execution_payload = exec\<rparr>"
  have pq: "p = (case to_blob_bytes ml q of Ok b \<Rightarrow> with_kzg ml b q | _ \<Rightarrow> q)"
    by (simp only: p mesh_new_def Let_def flip: q_def)
  have qb: "to_blob_bytes ml q = Ok blob"
    using assms(4) pq by (cases "to_blob_bytes ml q") simp_all
  then have pk: "p = with_kzg ml blob q" by (simp add: pq)
  have pay: "zkevm_proof_payload p = body @ take 32 calc" "state_diff_blob_hash p = h" "mp_scheme p = scheme"
    by (simp_all add: pk) (simp_all add: q_def)
  have len: "length (zkevm_proof_payload p) = length body + 32" using calc by (simp add: pay)
  have "check_binding (ml_crypto ml) (mesh_profile reg) p = Ok ()"
    using calc body assms(3) unfolding check_binding_def Let_def len
    by (simp add: pay calc_def)
  moreover have "blob_verify ml blob (kzg_commitment p) (kzg_proof p) = Some True"
    unfolding pk by (rule mesh_new_verifies_kzg [OF assms(1) qb assms(5)])
  moreover have "length (as_bytes ''INVALID_PROOF_PAYLOAD'') < 64" by simp
  then have "zkevm_proof_payload p \<noteq> as_bytes ''INVALID_PROOF_PAYLOAD''" "zkevm_proof_payload p \<noteq> []"
    "\<not> length (zkevm_proof_payload p) < 64"
    using len body by force+
  ultimately show "verify_validity_proof ml reg p = Ok True" by (simp add: verify_validity_proof_def assms(4,5))
  show "execution_payload p = exec" by (simp add: pk) (simp add: q_def)
qed

lemma length_compact_enc: "length (compact_enc n) \<le> 4"
  by (simp add: compact_enc_def)

lemma length_concat_le_bytes: "length (concat (map (\<lambda>n. le_bytes 8 (unat n)) ns)) = 8 * length ns"
  by (induction ns) simp_all

lemma length_sample_encode:
  "length (mesh_encode sample_mesh_lib p) \<le> 54 + 8 * length (target_manifolds p) + length (kzg_commitment p) +
     length (kzg_proof p) + length (zkevm_proof_payload p) + length (execution_payload p)"
  using length_compact_enc [of "length (target_manifolds p)"]
    length_compact_enc [of "length (zkevm_proof_payload p)"]
    length_compact_enc [of "length (execution_payload p)"]
  by (simp add: mesh_encode_def sample_mesh_lib_def scale_ref_def Let_def length_concat_le_bytes)

text \<open>Small packets of the sample library can be built and fit into a blob.\<close>

lemma sample_binding:
  assumes "length proof \<le> 32" and "length exec \<le> 1000"
  shows "\<exists>p blob. new_with_valid_binding sample_mesh_lib validator_registry_default src [tgt] h
      BiniusBinaryStark proof exec = Ok p \<and> to_blob_bytes sample_mesh_lib p = Ok blob \<and> blob_ok sample_mesh_lib blob"
proof -
  have "hash sample_crypto sc x \<noteq> [] \<longrightarrow> length (hash sample_crypto sc x) = 32" if "sc \<noteq> Poseidon" for sc x
    using that by (cases sc) (simp_all add: sample_crypto_def)
  have l: "length (hash (ml_crypto sample_mesh_lib) (cp_hash (mesh_profile validator_registry_default)) x) = 32" for x
    by (simp add: mesh_profile_def validator_registry_default_def validator_registry_new_def
        dynamic_config_default_def profile_or_ethereum_ethereum ETHEREUM_def)
  define z where "z = (proof @ replicate (32 - length proof) 0) @
      take 32 (hash (ml_crypto sample_mesh_lib) (cp_hash (mesh_profile validator_registry_default))
        ((proof @ replicate (32 - length proof) 0) @ b256_bytes h))"
  define q where "q = \<lparr>mp_version = 1, source_manifold_id = src, target_manifolds = [tgt],
      state_diff_blob_hash = h, kzg_commitment = replicate 48 0, kzg_proof = replicate 48 0,
      mp_scheme = BiniusBinaryStark, zkevm_proof_payload = z, execution_payload = exec\<rparr>"
  let ?p = "mesh_new sample_mesh_lib src [tgt] h BiniusBinaryStark z exec"
  have z: "length z = 64" using assms(1) l by (simp add: z_def)
  have "?p = (case to_blob_bytes sample_mesh_lib q of Ok b \<Rightarrow> with_kzg sample_mesh_lib b q | _ \<Rightarrow> q)"
    by (simp only: mesh_new_def Let_def flip: q_def)
  then have "clean_packet ?p = clean_packet q" by (simp split: outcome.splits)
  then have "length (mesh_encode sample_mesh_lib (clean_packet ?p)) \<le> max_usable"
    using length_sample_encode [of "clean_packet q"] z assms(2)
    by (simp add: q_def clean_packet_def max_usable_def)
  then have "to_blob_bytes sample_mesh_lib ?p = Ok (pack_blob (mesh_encode sample_mesh_lib (clean_packet ?p)))"
    by (simp add: to_blob_bytes_def Let_def)
  moreover have "new_with_valid_binding sample_mesh_lib validator_registry_default src [tgt] h
      BiniusBinaryStark proof exec = Ok ?p"
    by (simp add: new_with_valid_binding_def Let_def l z_def)
  ultimately show ?thesis by (simp add: sample_mesh_lib_def)
qed

section \<open>Properties\<close>

text \<open>A packet survives its wire format: decoding the bytes of a packet, whatever follows them,
  gives the packet and the rest, for codecs that decode what they encode and fields within
  their bounds; a packet of another version than 1 is refused on receipt.\<close>

theorem packet_roundtrip:
  assumes "mesh_lib_ok ml" and "mesh_valid p"
  shows "mesh_decode ml (mesh_encode ml p @ rest) = Some (p, rest) \<and>
    mesh_from_bytes ml (mesh_encode ml p) = (if mp_version p = 1 then Ok p else Err UnsupportedVersion)"
  using mesh_decode_encode [OF assms] mesh_from_bytes_encode [OF assms] by blast

lemma packet_roundtrip_witness:
  "mesh_from_bytes sample_mesh_lib (mesh_encode sample_mesh_lib sample_packet) = Ok sample_packet"
  using packet_roundtrip [OF sample_mesh_lib_ok sample_packet_valid(1)] sample_packet_valid(2) by simp

text \<open>A blob carries 4095 elements of 31 bytes. The packer accepts 4096 * 31 bytes, but what it
  packs is unpacked again exactly when it has at most 4095 * 31 bytes; of longer data the end is
  lost without an error.\<close>

theorem blob_capacity:
  assumes "length raw \<le> max_usable"
  shows "unpack_blob (pack_blob raw) = Ok raw \<longleftrightarrow> length raw \<le> 31 * 4095"
proof
  assume "unpack_blob (pack_blob raw) = Ok raw"
  then have "take (31 * 4095) raw = raw" by (simp add: unpack_pack_blob [OF assms])
  then have "length (take (31 * 4095) raw) = length raw" by (simp only:)
  then show "length raw \<le> 31 * 4095" by simp
qed (simp add: unpack_pack_blob [OF assms])

lemma blob_capacity_witness:
  "unpack_blob (pack_blob (replicate (4096 * 31) 1)) \<noteq> Ok (replicate (4096 * 31) 1)"
  using blob_capacity [of "replicate (4096 * 31) 1"] by (simp add: max_usable_def)

text \<open>C24: a packet survives its blob. When its bytes fit into 4095 elements, decoding the blob of a
  packet gives the packet back with the commitment and the proof recomputed from the blob.\<close>

theorem blob_roundtrip:
  assumes "mesh_lib_ok ml" and "mesh_valid p" and "mp_version p = 1"
    and "length (mesh_encode ml (clean_packet p)) \<le> 31 * 4095"
  shows "\<exists>blob. to_blob_bytes ml p = Ok blob \<and> from_blob_bytes ml blob = Ok (with_kzg ml blob (clean_packet p))"
proof -
  let ?raw = "mesh_encode ml (clean_packet p)"
  have "length ?raw \<le> max_usable" using assms(4) by (simp add: max_usable_def)
  then have "to_blob_bytes ml p = Ok (pack_blob ?raw)" "unpack_blob (pack_blob ?raw) = Ok ?raw"
    using assms(4) by (simp_all add: to_blob_bytes_def Let_def unpack_pack_blob)
  moreover have "mesh_valid (clean_packet p)" "mp_version (clean_packet p) = 1"
    using assms(2,3) by (simp_all add: mesh_valid_def clean_packet_def)
  then have "mesh_from_bytes ml ?raw = Ok (clean_packet p)"
    using mesh_from_bytes_encode [OF assms(1)] by simp
  ultimately show ?thesis by (simp add: from_blob_bytes_def)
qed

lemma sample_packet_length: "length (mesh_encode sample_mesh_lib (clean_packet sample_packet)) = 152"
  by (simp add: sample_mesh_eval sample_packet_def mesh_packet_default_def)

lemma blob_roundtrip_witness:
  "\<exists>blob. to_blob_bytes sample_mesh_lib sample_packet = Ok blob \<and>
     from_blob_bytes sample_mesh_lib blob = Ok (with_kzg sample_mesh_lib blob (clean_packet sample_packet))"
  by (rule blob_roundtrip [OF sample_mesh_lib_ok sample_packet_valid]) (simp add: sample_packet_length)

text \<open>Every blob is canonical: each of its 4096 field elements is below the modulus of the scalar
  field, so the commitment library accepts it.\<close>

theorem blob_elements_canonical:
  assumes "i < 4096"
  shows "length (pack_blob raw) = 4096 * 32 \<and>
    be_nat (take 32 (drop (32 * i) (pack_blob raw))) < bls_modulus"
  using field_element_canonical [OF assms] by (simp add: field_element_def)

lemma blob_elements_canonical_witness:
  "be_nat (take 32 (drop (32 * 4095) (pack_blob [255, 255]))) < bls_modulus"
  using blob_elements_canonical [of 4095 "[255, 255]"] by simp

text \<open>The validity proof is self-certified. Whatever bytes the sender chooses as proof, the packet
  built around them passes verification, when the scheme matches the configured curve and the
  packet fits into a blob: the binding is a hash anyone can compute, and no proof is checked.\<close>

theorem any_proof_verifies:
  assumes "mesh_lib_ok ml" and "new_with_valid_binding ml reg src targets h scheme proof exec = Ok p"
    and "scheme_matches scheme (cp_pairing_curve (mesh_profile reg))"
    and "to_blob_bytes ml p = Ok blob" and "blob_ok ml blob"
  shows "verify_validity_proof ml reg p = Ok True"
  by (rule new_with_valid_binding_verifies(1) [OF assms])

definition forged :: "(mesh_packet, mesh_error) outcome" where
  "forged = new_with_valid_binding sample_mesh_lib validator_registry_default 1 [2] 9 BiniusBinaryStark [66] [1]"

lemma any_proof_verifies_witness:
  "verify_validity_proof sample_mesh_lib validator_registry_default (ok_value forged) = Ok True"
proof -
  obtain p blob where p: "forged = Ok p" "to_blob_bytes sample_mesh_lib p = Ok blob" "blob_ok sample_mesh_lib blob"
    using sample_binding [of "[66]" "[1]" 1 2 9] by (auto simp: forged_def)
  have "scheme_matches BiniusBinaryStark (cp_pairing_curve (mesh_profile validator_registry_default))" by simp
  from any_proof_verifies [OF sample_mesh_lib_ok p(1) [unfolded forged_def] this p(2,3)] show ?thesis
    by (simp add: p(1))
qed

end
