(* ===== verification/Actor.thy ===== *)
theory Actor
  imports Based_Mesh Sync_Committee
begin

text \<open>
  The cross-manifold saga actor (\<open>crates/consensus/src/actor.rs\<close>): its state machine with the
  operations of the source, and the step relation of a run in which the environment delivers
  packets and lets time pass. Lemmas by rule induction: the parties and the amount never
  change; without an explicit rollback the terminal states are final and a commit takes two
  accepted attestations. The JSON codec of an actor is a parameter.
\<close>

section \<open>State and operations\<close>

datatype actor_state = InitiateIntent | PrepareExecution | Commit | Rollback

record actor =
  actor_id :: b256
  actor_st :: actor_state
  actor_sender :: address
  actor_recipient :: address
  actor_amount :: u256
  created_at :: u64
  timeout_seconds :: u64

datatype actor_error =
    InvalidPrepare | InvalidCommit | NotInInitiateIntent | ActorSerialize | ActorDeserialize
  | MessageIdMismatch | ParametersMismatch | TerminalState
  | MeshFailure mesh_error | CommitteeFailure committee_error

definition actor_new ::
  "validator_registry \<Rightarrow> b256 \<Rightarrow> address \<Rightarrow> address \<Rightarrow> u256 \<Rightarrow> u64 \<Rightarrow> actor" where
  "actor_new reg aid s r amt current_time =
     \<lparr>actor_id = aid, actor_st = InitiateIntent, actor_sender = s, actor_recipient = r,
      actor_amount = amt, created_at = current_time,
      timeout_seconds = saga_intent_timeout_seconds (vr_dynamic_cfg reg)\<rparr>"

definition prepare :: "actor \<Rightarrow> (actor, actor_error) outcome" where
  "prepare a =
     (if actor_st a \<noteq> InitiateIntent then Err InvalidPrepare
      else Ok (a\<lparr>actor_st := PrepareExecution\<rparr>))"

definition commit :: "actor \<Rightarrow> (actor, actor_error) outcome" where
  "commit a =
     (if actor_st a \<noteq> PrepareExecution then Err InvalidCommit
      else Ok (a\<lparr>actor_st := Commit\<rparr>))"

definition rollback :: "actor \<Rightarrow> actor" where
  "rollback a = a\<lparr>actor_st := Rollback\<rparr>"

text \<open>The timeout is the registry's, not the actor's own; the addition wraps.\<close>

definition evaluate_timeout :: "validator_registry \<Rightarrow> actor \<Rightarrow> u64 \<Rightarrow> bool \<times> actor" where
  "evaluate_timeout reg a current_time =
     (let timeout = saga_intent_timeout_seconds (vr_dynamic_cfg reg) in
      if actor_st a \<noteq> Commit \<and> created_at a + timeout < current_time then (True, rollback a)
      else (False, a))"

record actor_lib =
  al_mesh :: mesh_lib
  actor_to_json :: "actor \<Rightarrow> bytes option"
  actor_from_json :: "bytes \<Rightarrow> actor option"

definition emit_prepare_attestation ::
  "actor_lib \<Rightarrow> validator_registry \<Rightarrow> actor \<Rightarrow> u64 \<Rightarrow> u64 \<Rightarrow> b256 \<Rightarrow> proof_scheme \<Rightarrow> bytes
    \<Rightarrow> (mesh_packet, actor_error) outcome" where
  "emit_prepare_attestation al reg a src target h scheme proof =
     (if actor_st a \<noteq> InitiateIntent then Err NotInInitiateIntent
      else case actor_to_json al a of
        None \<Rightarrow> Err ActorSerialize
      | Some payload \<Rightarrow>
          map_err MeshFailure (from_message (al_mesh al) reg src target h scheme proof
            \<lparr>message_id = actor_id a, msg_sender = actor_sender a, msg_recipient = actor_recipient a,
             msg_payload = payload, msg_timestamp = created_at a\<rparr>))"

definition same_parameters :: "actor \<Rightarrow> actor \<Rightarrow> bool" where
  "same_parameters a b \<longleftrightarrow> actor_sender a = actor_sender b \<and>
     actor_recipient a = actor_recipient b \<and> actor_amount a = actor_amount b"

definition process_attestation ::
  "actor_lib \<Rightarrow> validator_registry \<Rightarrow> actor \<Rightarrow> mesh_packet \<Rightarrow> (actor, actor_error) outcome" where
  "process_attestation al reg a packet =
     and_then (map_err MeshFailure (extract_message (al_mesh al) reg packet)) (\<lambda>message.
       if message_id message \<noteq> actor_id a then Err MessageIdMismatch
       else case actor_from_json al (msg_payload message) of
         None \<Rightarrow> Err ActorDeserialize
       | Some remote \<Rightarrow>
           if \<not> same_parameters remote a then Err ParametersMismatch
           else (case actor_st a of
               InitiateIntent \<Rightarrow> prepare a
             | PrepareExecution \<Rightarrow> commit a
             | Commit \<Rightarrow> Err TerminalState
             | Rollback \<Rightarrow> Err TerminalState))"

definition process_attestation_with_committee ::
  "actor_lib \<Rightarrow> (string \<Rightarrow> (string \<times> bytes option) list option) \<Rightarrow> validator_registry \<Rightarrow> actor
    \<Rightarrow> mesh_packet \<Rightarrow> orchestrator_committee \<Rightarrow> saga_intent \<Rightarrow> bool \<Rightarrow> (actor, actor_error) outcome" where
  "process_attestation_with_committee al resolver reg a packet committee intent qt =
     and_then (map_err CommitteeFailure
         (verify_consensus (ml_crypto (al_mesh al)) resolver reg intent committee qt)) (\<lambda>_.
       process_attestation al reg a packet)"

section \<open>Runs\<close>

datatype actor_event =
    Delivered mesh_packet | TimePassed u64 | CalledPrepare | CalledCommit | CalledRollback

text \<open>A step is an operation that changed the actor or returned success.\<close>

inductive actor_step ::
  "actor_lib \<Rightarrow> validator_registry \<Rightarrow> actor \<Rightarrow> actor_event \<Rightarrow> actor \<Rightarrow> bool"
  for al :: actor_lib and reg :: validator_registry where
  step_deliver: "process_attestation al reg a p = Ok a' \<Longrightarrow> actor_step al reg a (Delivered p) a'"
| step_timeout: "evaluate_timeout reg a t = (True, a') \<Longrightarrow> actor_step al reg a (TimePassed t) a'"
| step_prepare: "prepare a = Ok a' \<Longrightarrow> actor_step al reg a CalledPrepare a'"
| step_commit: "commit a = Ok a' \<Longrightarrow> actor_step al reg a CalledCommit a'"
| step_rollback: "actor_step al reg a CalledRollback (rollback a)"

inductive actor_run ::
  "actor_lib \<Rightarrow> validator_registry \<Rightarrow> actor \<Rightarrow> actor_event list \<Rightarrow> actor \<Rightarrow> bool"
  for al :: actor_lib and reg :: validator_registry where
  run_nil: "actor_run al reg a [] a"
| run_snoc: "actor_run al reg a es b \<Longrightarrow> actor_step al reg b e c \<Longrightarrow> actor_run al reg a (es @ [e]) c"

inductive_cases actor_step_elim: "actor_step al reg a e a'"

lemma process_attestation_step:
  "process_attestation al reg a p = Ok a' \<Longrightarrow>
     (actor_st a = InitiateIntent \<and> a' = a\<lparr>actor_st := PrepareExecution\<rparr>) \<or>
     (actor_st a = PrepareExecution \<and> a' = a\<lparr>actor_st := Commit\<rparr>)"
  by (auto simp: process_attestation_def prepare_def commit_def outcome_simps
      split: if_splits option.splits actor_state.splits)

lemma evaluate_timeout_step:
  "evaluate_timeout reg a t = (True, a') \<Longrightarrow> actor_st a \<noteq> Commit \<and> a' = rollback a"
  by (auto simp: evaluate_timeout_def Let_def split: if_splits)

text \<open>What a step can do to the state.\<close>

lemma actor_step_cases:
  assumes "actor_step al reg a e a'"
  shows "(actor_st a = InitiateIntent \<and> a' = a\<lparr>actor_st := PrepareExecution\<rparr> \<and>
            (e = CalledPrepare \<or> (\<exists>p. e = Delivered p))) \<or>
    (actor_st a = PrepareExecution \<and> a' = a\<lparr>actor_st := Commit\<rparr> \<and>
            (e = CalledCommit \<or> (\<exists>p. e = Delivered p))) \<or>
    (actor_st a \<noteq> Commit \<and> a' = rollback a \<and> (\<exists>t. e = TimePassed t)) \<or>
    (a' = rollback a \<and> e = CalledRollback)"
  using assms
  by (cases rule: actor_step.cases)
    (auto dest: process_attestation_step evaluate_timeout_step
      simp: prepare_def commit_def split: if_splits)

definition actor_identity :: "actor \<Rightarrow> b256 \<times> address \<times> address \<times> u256 \<times> u64" where
  "actor_identity a = (actor_id a, actor_sender a, actor_recipient a, actor_amount a, created_at a)"

lemma actor_step_identity: "actor_step al reg a e a' \<Longrightarrow> actor_identity a' = actor_identity a"
  by (drule actor_step_cases) (auto simp: actor_identity_def rollback_def)

lemma actor_run_identity: "actor_run al reg a es b \<Longrightarrow> actor_identity b = actor_identity a"
  by (induction rule: actor_run.induct) (simp_all add: actor_step_identity)

text \<open>The number of advancing events that a state has behind it.\<close>

definition is_advance :: "actor_event \<Rightarrow> bool" where
  "is_advance e \<longleftrightarrow> e = CalledPrepare \<or> e = CalledCommit \<or> (\<exists>p. e = Delivered p)"

fun advances :: "actor_state \<Rightarrow> nat" where
  "advances InitiateIntent = 0"
| "advances PrepareExecution = 1"
| "advances Commit = 2"
| "advances Rollback = 0"

text \<open>The order of the phases, in which no step goes back.\<close>

instantiation actor_state :: linorder
begin

definition less_eq_actor_state :: "actor_state \<Rightarrow> actor_state \<Rightarrow> bool" where
  "less_eq_actor_state s t \<longleftrightarrow>
     s = t \<or> t = Rollback \<or> s = InitiateIntent \<or> (s = PrepareExecution \<and> t = Commit)"

definition less_actor_state :: "actor_state \<Rightarrow> actor_state \<Rightarrow> bool" where
  "less_actor_state s t \<longleftrightarrow> s \<le> t \<and> \<not> t \<le> (s :: actor_state)"

instance
proof
  fix s t u :: actor_state
  show "s < t \<longleftrightarrow> s \<le> t \<and> \<not> t \<le> s" by (rule less_actor_state_def)
  show "s \<le> s" by (simp add: less_eq_actor_state_def)
  show "s \<le> t \<or> t \<le> s" by (cases s; cases t) (simp_all add: less_eq_actor_state_def)
  show "s \<le> t \<Longrightarrow> t \<le> s \<Longrightarrow> s = t" by (cases s; cases t) (simp_all add: less_eq_actor_state_def)
  show "s \<le> t \<Longrightarrow> t \<le> u \<Longrightarrow> s \<le> u"
    by (cases s; cases t; cases u) (simp_all add: less_eq_actor_state_def)
qed

end

lemma actor_step_mono: "actor_step al reg a e a' \<Longrightarrow> actor_st a \<le> actor_st a'"
  by (drule actor_step_cases) (auto simp: less_eq_actor_state_def rollback_def)

lemma actor_run_mono: "actor_run al reg a es b \<Longrightarrow> actor_st a \<le> actor_st b"
  by (induction rule: actor_run.induct) (auto dest: actor_step_mono)

lemma actor_run_advances:
  assumes "actor_run al reg a es b" and "actor_st a = InitiateIntent"
  shows "actor_st b \<noteq> Rollback \<longrightarrow>
    length es = advances (actor_st b) \<and> (\<forall>e \<in> set es. is_advance e)"
  using assms
proof (induction rule: actor_run.induct)
  case (run_snoc a es b e c)
  from actor_step_cases [OF run_snoc.hyps(2)] show ?case
    using run_snoc.IH run_snoc.prems by (auto simp: rollback_def is_advance_def)
qed simp

text \<open>After a terminal state only an explicit rollback acts.\<close>

lemma actor_run_terminal:
  assumes "actor_run al reg a es b" and "actor_st a \<in> {Commit, Rollback}"
    and "CalledRollback \<notin> set es"
  shows "actor_st b = actor_st a"
  using assms
proof (induction rule: actor_run.induct)
  case (run_snoc a es b e c)
  from actor_step_cases [OF run_snoc.hyps(2)] show ?case
    using run_snoc.IH run_snoc.prems by (auto simp: rollback_def)
qed simp

section \<open>Properties\<close>

definition actor_codec_ok :: "actor_lib \<Rightarrow> bool" where
  "actor_codec_ok al \<longleftrightarrow> (\<forall>a js. actor_to_json al a = Some js \<longrightarrow> actor_from_json al js = Some a)"


definition waiting_actor :: actor where
  "waiting_actor = actor_new validator_registry_default 1 2 3 4 5"

definition waiting_actor_lib :: actor_lib where
  "waiting_actor_lib = \<lparr>al_mesh = sample_mesh_lib,
     actor_to_json = (\<lambda>a. if a = waiting_actor then Some [1] else None),
     actor_from_json = (\<lambda>js. if js = [1] then Some waiting_actor else None)\<rparr>"


text \<open>C22: the state machine of a saga. Over every run of packets, timeouts and calls the parties,
  the amount and the creation time stay and the phases only go forward; an actor that started waiting and has not rolled back
  has made exactly the advances its state stands for, so two before it commits; and once it
  has committed or rolled back, nothing but an explicit rollback changes its state.\<close>

theorem saga_state_machine:
  assumes "actor_run al reg a es b"
  shows "actor_identity b = actor_identity a \<and> actor_st a \<le> actor_st b \<and>
    (actor_st a = InitiateIntent \<and> actor_st b \<noteq> Rollback \<longrightarrow>
      length es = advances (actor_st b) \<and> (\<forall>e \<in> set es. is_advance e)) \<and>
    (actor_st a \<in> {Commit, Rollback} \<and> CalledRollback \<notin> set es \<longrightarrow> actor_st b = actor_st a)"
  using actor_run_identity [OF assms] actor_run_mono [OF assms] actor_run_advances [OF assms] actor_run_terminal [OF assms] by blast

lemma two_calls_commit:
  "actor_run al reg (actor_new reg 1 2 3 4 5) [CalledPrepare, CalledCommit]
     ((actor_new reg 1 2 3 4 5)\<lparr>actor_st := Commit\<rparr>)"
proof -
  let ?a = "actor_new reg 1 2 3 4 5"
  have "actor_step al reg ?a CalledPrepare (?a\<lparr>actor_st := PrepareExecution\<rparr>)"
    by (rule step_prepare) (simp add: prepare_def actor_new_def)
  from run_snoc [OF run_nil this]
  have "actor_run al reg ?a [CalledPrepare] (?a\<lparr>actor_st := PrepareExecution\<rparr>)" by simp
  moreover have "actor_step al reg (?a\<lparr>actor_st := PrepareExecution\<rparr>) CalledCommit (?a\<lparr>actor_st := Commit\<rparr>)"
    by (rule step_commit) (simp add: commit_def)
  ultimately show ?thesis using run_snoc by fastforce
qed

definition sample_actor_lib :: actor_lib where
  "sample_actor_lib = \<lparr>al_mesh = sample_mesh_lib, actor_to_json = (\<lambda>a. None), actor_from_json = (\<lambda>js. None)\<rparr>"

lemma saga_state_machine_witness:
  "length [CalledPrepare, CalledCommit] = advances Commit \<and>
   actor_identity ((actor_new validator_registry_default 1 2 3 4 5)\<lparr>actor_st := Commit\<rparr>) =
     actor_identity (actor_new validator_registry_default 1 2 3 4 5)"
  using saga_state_machine [OF two_calls_commit [of sample_actor_lib validator_registry_default]]
  by (simp add: actor_new_def)

end
