(* ===== verification/Hw_Offload.thy ===== *)
theory Hw_Offload
  imports Prelude
begin

text \<open>
  The hardware offload interface (\<open>crates/consensus/src/hw_offload.rs\<close>): a driver is a record of
  the trait's operations on its table, \<open>mock_driver\<close> is the in-memory driver of the source,
  and the locale states the contract that the router relies on, interpreted for it.
\<close>

record 's driver =
  push_route :: "'s \<Rightarrow> b256 \<Rightarrow> b256 \<Rightarrow> u64 \<Rightarrow> 's \<times> (unit, string) outcome"
  hw_remove_route :: "'s \<Rightarrow> b256 \<Rightarrow> 's \<times> (unit, string) outcome"
  update_rate_limit :: "'s \<Rightarrow> b256 \<Rightarrow> u64 \<Rightarrow> 's \<times> (unit, string) outcome"

type_synonym hardware_table = "b256 \<rightharpoonup> b256 \<times> u64"

definition has_route :: "hardware_table \<Rightarrow> b256 \<Rightarrow> bool" where
  "has_route t h \<longleftrightarrow> h \<in> dom t"

definition hw_get_route :: "hardware_table \<Rightarrow> b256 \<Rightarrow> (b256 \<times> u64) option" where
  "hw_get_route t h = t h"

definition mock_push_route ::
  "hardware_table \<Rightarrow> b256 \<Rightarrow> b256 \<Rightarrow> u64 \<Rightarrow> hardware_table \<times> (unit, string) outcome" where
  "mock_push_route t dest next_hop rate = (t(dest \<mapsto> (next_hop, rate)), Ok ())"

definition mock_remove_route ::
  "hardware_table \<Rightarrow> b256 \<Rightarrow> hardware_table \<times> (unit, string) outcome" where
  "mock_remove_route t dest = (t(dest := None), Ok ())"

definition mock_update_rate_limit ::
  "hardware_table \<Rightarrow> b256 \<Rightarrow> u64 \<Rightarrow> hardware_table \<times> (unit, string) outcome" where
  "mock_update_rate_limit t dest rate =
     (case t dest of
        Some (next_hop, _) \<Rightarrow> (t(dest \<mapsto> (next_hop, rate)), Ok ())
      | None \<Rightarrow> (t, Err ''Route not found in hardware table''))"

definition mock_driver :: "hardware_table driver" where
  "mock_driver = \<lparr>push_route = mock_push_route, hw_remove_route = mock_remove_route,
     update_rate_limit = mock_update_rate_limit\<rparr>"

text \<open>The contract, with the driver's table observed by \<open>lookup\<close>.\<close>

locale data_plane_driver =
  fixes drv :: "'s driver"
    and lookup :: "'s \<Rightarrow> b256 \<Rightarrow> (b256 \<times> u64) option"
  assumes push_lookup: "lookup (fst (push_route drv s h k r)) = (lookup s)(h \<mapsto> (k, r))"
    and remove_lookup: "lookup (fst (hw_remove_route drv s h)) = (lookup s)(h := None)"
    and update_lookup: "lookup (fst (update_rate_limit drv s h r)) =
      (case lookup s h of None \<Rightarrow> lookup s | Some (k, _) \<Rightarrow> (lookup s)(h \<mapsto> (k, r)))"
    and update_error: "is_err (snd (update_rate_limit drv s h r)) \<longleftrightarrow> lookup s h = None"
begin

lemma push_then_remove: "lookup (fst (hw_remove_route drv (fst (push_route drv s h k r)) h)) = (lookup s)(h := None)"
  by (simp add: push_lookup remove_lookup)

lemma update_keeps_next_hop:
  "map_option fst (lookup (fst (update_rate_limit drv s h r)) g) = map_option fst (lookup s g)"
  by (cases "lookup s h") (auto simp: update_lookup)

end

interpretation mock: data_plane_driver mock_driver hw_get_route
  by unfold_locales
    (auto simp: mock_driver_def mock_push_route_def mock_remove_route_def mock_update_rate_limit_def
      hw_get_route_def fun_eq_iff split: option.splits)

end
