(* ===== verification/Bgp.thy ===== *)
theory Bgp
  imports Hw_Offload Based_Mesh Stateless
begin

text \<open>
  The router (\<open>crates/consensus/src/bgp.rs\<close>): the routing table with its hardware copy, the
  speculative route set-up, and the WireGuard tunnels over the third-party \<open>boringtun\<close>
  tunnel (\<open>tunn_lib\<close>). The router keeps its table and the hardware table equal under every
  operation but one: a failed speculative update of a destination that already had a route.
\<close>

section \<open>State\<close>

record route_info =
  next_hop :: b256
  forwarding_rate :: u64
  supported_assets :: "b256 list"

datatype tunn_result = TunnDone | TunnErr | WriteToNetwork bytes | WriteToTunnel bytes

record 't tunn_lib =
  tunn_new :: "bytes \<Rightarrow> b256 \<Rightarrow> 't"
  encapsulate :: "'t \<Rightarrow> bytes \<Rightarrow> 't \<times> tunn_result"
  decapsulate :: "'t \<Rightarrow> bytes \<Rightarrow> 't \<times> tunn_result"

record ('s, 't) bgp_router =
  adjacent_validators :: "u64 \<rightharpoonup> address set"
  local_private_key :: bytes
  tunnels :: "b256 \<rightharpoonup> 't"
  routing_table :: "b256 \<rightharpoonup> route_info"
  hw_state :: 's

text \<open>The private key is a fixed sequence: byte \<open>i\<close> is \<open>7 i + 42\<close>.\<close>

definition initial_private_key :: bytes where
  "initial_private_key = map (\<lambda>i. word_of_nat i * 7 + 42) [0..<32]"

definition new_with_driver :: "'s \<Rightarrow> ('s, 't) bgp_router" where
  "new_with_driver hw =
     \<lparr>adjacent_validators = Map.empty, local_private_key = initial_private_key,
      tunnels = Map.empty, routing_table = Map.empty, hw_state = hw\<rparr>"

definition bgp_new :: "(hardware_table, 't) bgp_router" where
  "bgp_new = new_with_driver Map.empty"

definition sync_from_ipfs :: "('s, 't) bgp_router \<Rightarrow> string \<Rightarrow> ('s, 't) bgp_router" where
  "sync_from_ipfs r cid = r"

definition get_validators :: "('s, 't) bgp_router \<Rightarrow> u64 \<Rightarrow> address set option" where
  "get_validators r m = adjacent_validators r m"

section \<open>Tunnels\<close>

definition register_peer :: "'t tunn_lib \<Rightarrow> ('s, 't) bgp_router \<Rightarrow> b256 \<Rightarrow> ('s, 't) bgp_router" where
  "register_peer tn r peer =
     r\<lparr>tunnels := (tunnels r)(peer \<mapsto> tunn_new tn (local_private_key r) peer)\<rparr>"

text \<open>Tunnels of inactive peers are dropped, missing ones are created, the others are kept.\<close>

definition sync_peers_from_registry ::
  "'t tunn_lib \<Rightarrow> iteration \<Rightarrow> validator_registry \<Rightarrow> ('s, 't) bgp_router \<Rightarrow> ('s, 't) bgp_router" where
  "sync_peers_from_registry tn it reg r =
     (let active = active_peers it reg;
          retained = tunnels r |` dom active
      in r\<lparr>tunnels := (\<lambda>k. if k \<in> dom active \<and> retained k = None
                            then Some (tunn_new tn (local_private_key r) k) else retained k)\<rparr>)"

datatype bgp_error =
    PeerNotRegistered | DecryptionError | EncryptionError
  | RawDecode mesh_error | BlobDecode mesh_error | ProofRejected mesh_error

definition handle_packet ::
  "'t tunn_lib \<Rightarrow> ('s, 't) bgp_router \<Rightarrow> b256 \<Rightarrow> bytes
    \<Rightarrow> ('s, 't) bgp_router \<times> (bytes, bgp_error) outcome" where
  "handle_packet tn r peer packet =
     (case tunnels r peer of
        None \<Rightarrow> (r, Err PeerNotRegistered)
      | Some t \<Rightarrow>
          (let (t', res) = decapsulate tn t packet; r' = r\<lparr>tunnels := (tunnels r)(peer \<mapsto> t')\<rparr>
           in (r', case res of
                 TunnDone \<Rightarrow> Ok []
               | TunnErr \<Rightarrow> Err DecryptionError
               | WriteToNetwork bs \<Rightarrow> Ok bs
               | WriteToTunnel bs \<Rightarrow> Ok bs)))"

definition send_data ::
  "'t tunn_lib \<Rightarrow> ('s, 't) bgp_router \<Rightarrow> b256 \<Rightarrow> bytes
    \<Rightarrow> ('s, 't) bgp_router \<times> (bytes, bgp_error) outcome" where
  "send_data tn r peer data =
     (case tunnels r peer of
        None \<Rightarrow> (r, Err PeerNotRegistered)
      | Some t \<Rightarrow>
          (let (t', res) = encapsulate tn t data; r' = r\<lparr>tunnels := (tunnels r)(peer \<mapsto> t')\<rparr>
           in (r', case res of
                 WriteToNetwork bs \<Rightarrow> Ok bs
               | TunnErr \<Rightarrow> Err EncryptionError
               | _ \<Rightarrow> Ok [])))"

section \<open>Routes\<close>

definition dest_hash :: "crypto_lib \<Rightarrow> string \<Rightarrow> b256" where
  "dest_hash cl did = keccak256 cl (as_bytes did)"

definition update_route ::
  "crypto_lib \<Rightarrow> 's driver \<Rightarrow> ('s, 't) bgp_router \<Rightarrow> string \<Rightarrow> route_info \<Rightarrow> ('s, 't) bgp_router" where
  "update_route cl drv r did info =
     (let h = dest_hash cl did in
      r\<lparr>hw_state := fst (push_route drv (hw_state r) h (next_hop info) (forwarding_rate info)),
        routing_table := (routing_table r)(h \<mapsto> info)\<rparr>)"

definition abuse_slashing_penalty :: u256 where
  "abuse_slashing_penalty = 500000"

definition speculative_update_route ::
  "crypto_lib \<Rightarrow> 's driver \<Rightarrow> ('s, 't) bgp_router \<Rightarrow> string \<Rightarrow> route_info
    \<Rightarrow> account_witness \<Rightarrow> account_witness \<Rightarrow> u64 \<Rightarrow> u256 \<Rightarrow> u256 \<Rightarrow> velocity_engine \<Rightarrow> bandwidth_request
    \<Rightarrow> ('s, 't) bgp_router \<times> account_witness \<times> (u256, sovereign_error) outcome" where
  "speculative_update_route cl drv r did info caller contract gas_limit gas_price tx_value velocity req =
     (let h = dest_hash cl did;
          r1 = r\<lparr>hw_state := fst (push_route drv (hw_state r) h (next_hop info) (forwarding_rate info))\<rparr>
      in case pre_flight_execute caller contract gas_limit gas_price tx_value velocity (Some req) of
           Ok (penalty, caller') \<Rightarrow>
             (r1\<lparr>routing_table := (routing_table r1)(h \<mapsto> info)\<rparr>, caller', Ok penalty)
         | Err e \<Rightarrow>
             (r1\<lparr>hw_state := fst (hw_remove_route drv (hw_state r1) h)\<rparr>,
              caller\<lparr>aw_balance := saturating_sub (aw_balance caller) abuse_slashing_penalty\<rparr>, Err e)
         | Panic \<Rightarrow> (r1, caller, Panic))"

definition remove_route ::
  "crypto_lib \<Rightarrow> 's driver \<Rightarrow> ('s, 't) bgp_router \<Rightarrow> string \<Rightarrow> ('s, 't) bgp_router" where
  "remove_route cl drv r did =
     (let h = dest_hash cl did in
      r\<lparr>hw_state := fst (hw_remove_route drv (hw_state r) h),
        routing_table := (routing_table r)(h := None)\<rparr>)"

definition get_route :: "crypto_lib \<Rightarrow> ('s, 't) bgp_router \<Rightarrow> string \<Rightarrow> route_info option" where
  "get_route cl r did = routing_table r (dest_hash cl did)"

definition verify_did_namespace :: "string \<Rightarrow> string \<Rightarrow> bool" where
  "verify_did_namespace did expected \<longleftrightarrow>
     (if \<not> starts_with did ''did:peer:4'' then False else contains did expected)"

section \<open>Packets over tunnels\<close>

text \<open>\<open>peers\<close> lists the keys of the tunnel map in iteration order.\<close>

fun broadcast_to ::
  "'t tunn_lib \<Rightarrow> bytes \<Rightarrow> b256 list \<Rightarrow> ('s, 't) bgp_router
    \<Rightarrow> ('s, 't) bgp_router \<times> (b256 \<times> bytes) list" where
  "broadcast_to tn raw [] r = (r, [])"
| "broadcast_to tn raw (k # ks) r =
     (case send_data tn r k raw of
        (r', Ok wg) \<Rightarrow>
          (let (r'', out) = broadcast_to tn raw ks r' in (r'', if wg \<noteq> [] then (k, wg) # out else out))
      | (r', _) \<Rightarrow> broadcast_to tn raw ks r')"

definition broadcast_based_mesh_packet ::
  "mesh_lib \<Rightarrow> 't tunn_lib \<Rightarrow> b256 list \<Rightarrow> ('s, 't) bgp_router \<Rightarrow> mesh_packet
    \<Rightarrow> ('s, 't) bgp_router \<times> (b256 \<times> bytes) list" where
  "broadcast_based_mesh_packet ml tn peers r packet = broadcast_to tn (mesh_encode ml packet) peers r"

definition decode_tunnel_payload ::
  "mesh_lib \<Rightarrow> validator_registry \<Rightarrow> bytes \<Rightarrow> (mesh_packet option, bgp_error) outcome" where
  "decode_tunnel_payload ml reg payload =
     (if payload = [] then Ok None
      else and_then (if length payload = 131072
                     then map_err BlobDecode (from_blob_bytes ml payload)
                     else map_err RawDecode (mesh_from_bytes ml payload)) (\<lambda>packet.
           and_then (map_err ProofRejected (verify_validity_proof ml reg packet)) (\<lambda>_. Ok (Some packet))))"

definition receive_based_mesh_packet ::
  "mesh_lib \<Rightarrow> 't tunn_lib \<Rightarrow> validator_registry \<Rightarrow> ('s, 't) bgp_router \<Rightarrow> b256 \<Rightarrow> bytes
    \<Rightarrow> ('s, 't) bgp_router \<times> (mesh_packet option, bgp_error) outcome" where
  "receive_based_mesh_packet ml tn reg r peer wg_packet =
     (case handle_packet tn r peer wg_packet of
        (r', res) \<Rightarrow> (r', and_then res (decode_tunnel_payload ml reg)))"

section \<open>The hardware copy\<close>

text \<open>What the hardware table has to hold.\<close>

definition expected_hw :: "('s, 't) bgp_router \<Rightarrow> b256 \<Rightarrow> (b256 \<times> u64) option" where
  "expected_hw r h = map_option (\<lambda>i. (next_hop i, forwarding_rate i)) (routing_table r h)"

context data_plane_driver
begin

definition in_sync :: "('s, 't) bgp_router \<Rightarrow> bool" where
  "in_sync r \<longleftrightarrow> lookup (hw_state r) = expected_hw r"

lemma update_route_in_sync: "in_sync r \<Longrightarrow> in_sync (update_route cl drv r did info)"
  by (auto simp: in_sync_def update_route_def expected_hw_def push_lookup fun_eq_iff Let_def)

lemma remove_route_in_sync: "in_sync r \<Longrightarrow> in_sync (remove_route cl drv r did)"
  by (auto simp: in_sync_def remove_route_def expected_hw_def remove_lookup fun_eq_iff Let_def)

lemma speculative_in_sync:
  assumes "in_sync r"
    and "speculative_update_route cl drv r did info c k gl gp v vel req = (r', c', res)"
    and "get_route cl r did = None \<or> is_ok res"
  shows "in_sync r'"
  using assms
  by (auto simp: in_sync_def speculative_update_route_def expected_hw_def push_lookup remove_lookup
      get_route_def fun_eq_iff Let_def pre_flight_execute_def split: if_splits)

lemma speculative_failure_drops_hw:
  assumes "speculative_update_route cl drv r did info c k gl gp v vel req = (r', c', Err e)"
  shows "lookup (hw_state r') (dest_hash cl did) = None \<and> routing_table r' = routing_table r"
  using assms
  by (auto simp: speculative_update_route_def remove_lookup Let_def
      split: outcome.splits prod.splits)

end

lemma dom_sync_peers:
  "dom (tunnels (sync_peers_from_registry tn it reg r)) = dom (active_peers it reg)"
  by (auto simp: sync_peers_from_registry_def Let_def restrict_map_def split: if_splits)

section \<open>Properties\<close>

datatype route_op =
    UpdateRoute string route_info
  | RemoveRoute string
  | SpeculativeRoute string route_info account_witness account_witness u64 u256 u256 velocity_engine bandwidth_request

fun run_route_op ::
  "crypto_lib \<Rightarrow> route_op \<Rightarrow> (hardware_table, 't) bgp_router \<Rightarrow> (hardware_table, 't) bgp_router" where
  "run_route_op cl (UpdateRoute did info) r = update_route cl mock_driver r did info"
| "run_route_op cl (RemoveRoute did) r = remove_route cl mock_driver r did"
| "run_route_op cl (SpeculativeRoute did info c k gl gp v vel req) r =
     fst (speculative_update_route cl mock_driver r did info c k gl gp v vel req)"

text \<open>A speculative update that the pre-flight check refuses, of a destination with a route.\<close>

fun refused_update :: "crypto_lib \<Rightarrow> route_op \<Rightarrow> (hardware_table, 't) bgp_router \<Rightarrow> bool" where
  "refused_update cl (SpeculativeRoute did info c k gl gp v vel req) r \<longleftrightarrow>
     get_route cl r did \<noteq> None \<and> \<not> is_ok (pre_flight_execute c k gl gp v vel (Some req))"
| "refused_update cl _ r \<longleftrightarrow> False"

definition table_matches :: "(hardware_table, 't) bgp_router \<Rightarrow> bool" where
  "table_matches r \<longleftrightarrow> (\<forall>h. hw_get_route (hw_state r) h = expected_hw r h)"

lemma table_matches_in_sync: "table_matches r \<longleftrightarrow> mock.in_sync r"
  by (auto simp: table_matches_def mock.in_sync_def fun_eq_iff)

lemma pre_flight_not_Panic: "pre_flight_execute c k gl gp v vel req \<noteq> Panic"
  by (simp add: pre_flight_execute_def Let_def)


lemma bgp_new_matches: "table_matches bgp_new"
  by (simp add: table_matches_def bgp_new_def new_with_driver_def expected_hw_def hw_get_route_def)


end
