(* ===== verification/Nmt.thy ===== *)
theory Nmt
  imports Prelude
begin

text \<open>
  Namespaced Merkle trees (\<open>crates/consensus/src/nmt.rs\<close>): the namespace identifier of a
  manifold and the wrapper around the third-party tree, which is the parameter \<open>nmt_lib\<close>.
  Lemma: the identifiers are ordered as the manifold numbers are.
\<close>

definition NS_ID_SIZE :: nat where
  "NS_ID_SIZE = 29"

definition namespace_of_u64 :: "u64 \<Rightarrow> bytes" where
  "namespace_of_u64 v = replicate (NS_ID_SIZE - 8) 0 @ u64_be_bytes v"

record nmt_leaf =
  leaf_namespace :: bytes
  leaf_data :: bytes

record ('n, 'r, 'p) nmt_lib =
  nmt_with_hasher :: 'n
  nmt_push :: "'n \<Rightarrow> bytes \<Rightarrow> bytes \<Rightarrow> ('n, string) outcome"
  nmt_root :: "'n \<Rightarrow> 'r"
  nmt_range :: "'n \<Rightarrow> nat \<Rightarrow> nat \<Rightarrow> bytes list \<times> 'p"

record 'p namespace_range_result =
  range_leaves :: "bytes list"
  range_proof :: 'p

definition nmt_new :: "('n, 'r, 'p) nmt_lib \<Rightarrow> 'n" where
  "nmt_new nl = nmt_with_hasher nl"

definition push_leaf :: "('n, 'r, 'p) nmt_lib \<Rightarrow> 'n \<Rightarrow> nmt_leaf \<Rightarrow> ('n, string) outcome" where
  "push_leaf nl tree leaf = nmt_push nl tree (leaf_data leaf) (leaf_namespace leaf)"

definition get_range_with_proof ::
  "('n, 'r, 'p) nmt_lib \<Rightarrow> 'n \<Rightarrow> nat \<Rightarrow> nat \<Rightarrow> 'p namespace_range_result" where
  "get_range_with_proof nl tree lo hi =
     (let (leaves, proof) = nmt_range nl tree lo hi
      in \<lparr>range_leaves = leaves, range_proof = proof\<rparr>)"

lemma be_nat_replicate_0 [simp]: "be_nat (replicate k 0 @ bs) = be_nat bs"
  by (induction k) simp_all

lemma namespace_order: "be_nat (namespace_of_u64 v) = unat v"
  using unat_less [of v]
  by (simp add: namespace_of_u64_def u64_be_bytes_def be_nat_be_bytes)

lemma namespace_of_u64_inject: "namespace_of_u64 v = namespace_of_u64 w \<longleftrightarrow> v = w"
  by (metis namespace_order word_unat_eq_iff)

lemma length_namespace: "length (namespace_of_u64 v) = NS_ID_SIZE"
  by (simp add: namespace_of_u64_def NS_ID_SIZE_def)

end
