(* ===== verification/Archival.thy ===== *)
theory Archival
  imports Nmt Based_Mesh Stateless
begin

text \<open>
  Archival pinning (\<open>crates/consensus/src/archival.rs\<close>). The backend trait is a record of its
  operations on the backend's storage; the locale states the contract of a content-addressed
  store and proves the daemon's round trips once; it is interpreted for the local cluster
  and for the mock backend.
\<close>

section \<open>Backends\<close>

record 's backend =
  pin_blob :: "'s \<Rightarrow> u64 \<Rightarrow> bytes \<Rightarrow> 's \<times> (string, string) outcome"
  fetch_blob :: "'s \<Rightarrow> string \<Rightarrow> (bytes, string) outcome"
  is_pinned :: "'s \<Rightarrow> string \<Rightarrow> (bool, string) outcome"

type_synonym blob_storage = "string \<rightharpoonup> bytes"

definition cluster_cid :: "crypto_lib \<Rightarrow> bytes \<Rightarrow> string" where
  "cluster_cid cl data = ''Qm'' @ hex_string (b256_bytes (keccak256 cl data))"

definition mock_cid :: "crypto_lib \<Rightarrow> bytes \<Rightarrow> string" where
  "mock_cid cl data = ''mock_cid_'' @ hex_string (b256_bytes (keccak256 cl data))"

text \<open>Both branches of the cluster's \<open>pin_blob\<close>, mock mode or not, store the blob locally.\<close>

definition cluster_pin_blob ::
  "crypto_lib \<Rightarrow> blob_storage \<Rightarrow> u64 \<Rightarrow> bytes \<Rightarrow> blob_storage \<times> (string, string) outcome" where
  "cluster_pin_blob cl s namespace_id data =
     (let cid = cluster_cid cl data in (s(cid \<mapsto> data), Ok cid))"

definition cluster_fetch_blob :: "blob_storage \<Rightarrow> string \<Rightarrow> (bytes, string) outcome" where
  "cluster_fetch_blob s cid =
     ok_or (''CID '' @ cid @ '' not found in local IPFS cluster archival storage'') (s cid)"

definition cluster_is_pinned :: "blob_storage \<Rightarrow> string \<Rightarrow> (bool, string) outcome" where
  "cluster_is_pinned s cid = Ok (cid \<in> dom s)"

definition mock_pin_blob ::
  "crypto_lib \<Rightarrow> blob_storage \<Rightarrow> u64 \<Rightarrow> bytes \<Rightarrow> blob_storage \<times> (string, string) outcome" where
  "mock_pin_blob cl s namespace_id data =
     (let cid = mock_cid cl data in (s(cid \<mapsto> data), Ok cid))"

definition mock_fetch_blob :: "blob_storage \<Rightarrow> string \<Rightarrow> (bytes, string) outcome" where
  "mock_fetch_blob s cid = ok_or (''Mock CID '' @ cid @ '' not found'') (s cid)"

definition mock_is_pinned :: "blob_storage \<Rightarrow> string \<Rightarrow> (bool, string) outcome" where
  "mock_is_pinned s cid = Ok (cid \<in> dom s)"

definition cluster_backend :: "crypto_lib \<Rightarrow> blob_storage backend" where
  "cluster_backend cl = \<lparr>pin_blob = cluster_pin_blob cl, fetch_blob = cluster_fetch_blob,
     is_pinned = cluster_is_pinned\<rparr>"

definition mock_backend :: "crypto_lib \<Rightarrow> blob_storage backend" where
  "mock_backend cl = \<lparr>pin_blob = mock_pin_blob cl, fetch_blob = mock_fetch_blob,
     is_pinned = mock_is_pinned\<rparr>"

section \<open>The daemon\<close>

record 's archival_daemon =
  ad_storage :: 's
  pinned_cids :: "u64 \<rightharpoonup> string list"

definition daemon_new :: "'s \<Rightarrow> 's archival_daemon" where
  "daemon_new s = \<lparr>ad_storage = s, pinned_cids = Map.empty\<rparr>"

datatype archival_error =
    NmtPartitioning string | BackendFailure string | ReconstructFailed mesh_error | WitnessDecode

definition register_cid :: "u64 \<Rightarrow> string \<Rightarrow> 's archival_daemon \<Rightarrow> 's archival_daemon" where
  "register_cid m cid d =
     d\<lparr>pinned_cids := (pinned_cids d)(m \<mapsto>
        (case pinned_cids d m of None \<Rightarrow> [] | Some cs \<Rightarrow> cs) @ [cid])\<rparr>"

definition pin_and_register ::
  "'s backend \<Rightarrow> 's archival_daemon \<Rightarrow> u64 \<Rightarrow> bytes
    \<Rightarrow> 's archival_daemon \<times> (string, archival_error) outcome" where
  "pin_and_register be d m raw =
     (case pin_blob be (ad_storage d) m raw of
        (s', Ok cid) \<Rightarrow> (register_cid m cid (d\<lparr>ad_storage := s'\<rparr>), Ok cid)
      | (s', Err e) \<Rightarrow> (d\<lparr>ad_storage := s'\<rparr>, Err (BackendFailure e))
      | (s', Panic) \<Rightarrow> (d\<lparr>ad_storage := s'\<rparr>, Panic))"

definition archive_based_mesh_packet ::
  "mesh_lib \<Rightarrow> ('n, 'r, 'p) nmt_lib \<Rightarrow> 's backend \<Rightarrow> 's archival_daemon \<Rightarrow> mesh_packet
    \<Rightarrow> 's archival_daemon \<times> (string, archival_error) outcome" where
  "archive_based_mesh_packet ml nl be d packet =
     (let raw = mesh_encode ml packet;
          leaf = \<lparr>leaf_namespace = namespace_of_u64 (source_manifold_id packet), leaf_data = raw\<rparr>
      in case push_leaf nl (nmt_new nl) leaf of
           Ok _ \<Rightarrow> pin_and_register be d (source_manifold_id packet) raw
         | Err e \<Rightarrow> (d, Err (NmtPartitioning e))
         | Panic \<Rightarrow> (d, Panic))"

definition recover_packet ::
  "mesh_lib \<Rightarrow> 's backend \<Rightarrow> 's archival_daemon \<Rightarrow> string \<Rightarrow> (mesh_packet, archival_error) outcome" where
  "recover_packet ml be d cid =
     and_then (map_err BackendFailure (fetch_blob be (ad_storage d) cid)) (\<lambda>raw.
       map_err ReconstructFailed (mesh_from_bytes ml raw))"

definition archive_account_witness ::
  "scale_lib \<Rightarrow> 's backend \<Rightarrow> 's archival_daemon \<Rightarrow> u64 \<Rightarrow> account_witness
    \<Rightarrow> 's archival_daemon \<times> (string, archival_error) outcome" where
  "archive_account_witness sl be d manifold witness =
     pin_and_register be d manifold (account_witness_encode sl witness)"

definition resolve_account_witness ::
  "scale_lib \<Rightarrow> 's backend \<Rightarrow> 's archival_daemon \<Rightarrow> string \<Rightarrow> (account_witness, archival_error) outcome" where
  "resolve_account_witness sl be d cid =
     and_then (map_err BackendFailure (fetch_blob be (ad_storage d) cid)) (\<lambda>raw.
       map_err (\<lambda>_. WitnessDecode)
         (map_err (\<lambda>_. ()) (and_then (ok_or () (account_witness_decode sl raw)) (\<lambda>(w, _). Ok w))))"

section \<open>The contract of a content-addressed backend\<close>

locale archival_backend =
  fixes be :: "'s backend"
    and cid_of :: "bytes \<Rightarrow> string"
  assumes pin_ok: "snd (pin_blob be s m data) = Ok (cid_of data)"
    and fetch_pinned: "fetch_blob be (fst (pin_blob be s m data)) (cid_of data) = Ok data"
    and fetch_other: "cid \<noteq> cid_of data \<Longrightarrow>
      fetch_blob be (fst (pin_blob be s m data)) cid = fetch_blob be s cid"
    and pinned_iff: "is_pinned be s cid = Ok (is_ok (fetch_blob be s cid))"
begin

lemma pin_and_register_ok:
  "snd (pin_and_register be d m raw) = Ok (cid_of raw) \<and>
   fetch_blob be (ad_storage (fst (pin_and_register be d m raw))) (cid_of raw) = Ok raw"
proof -
  obtain s' where p: "pin_blob be (ad_storage d) m raw = (s', Ok (cid_of raw))"
    using pin_ok [of "ad_storage d" m raw] by (metis prod.collapse)
  then show ?thesis
    using fetch_pinned [of "ad_storage d" m raw] by (simp add: pin_and_register_def register_cid_def)
qed

lemma pin_and_register_other:
  "cid \<noteq> cid_of raw \<Longrightarrow>
   fetch_blob be (ad_storage (fst (pin_and_register be d m raw))) cid = fetch_blob be (ad_storage d) cid"
proof -
  obtain s' where p: "pin_blob be (ad_storage d) m raw = (s', Ok (cid_of raw))"
    using pin_ok [of "ad_storage d" m raw] by (metis prod.collapse)
  then show "cid \<noteq> cid_of raw \<Longrightarrow> ?thesis"
    using fetch_other [of cid raw "ad_storage d" m] by (simp add: pin_and_register_def register_cid_def)
qed

text \<open>Pinning is a function of the content, so a later pin destroys nothing but on a collision.\<close>

lemma fetch_after_pins:
  assumes "fetch_blob be (ad_storage d) cid = Ok raw" and "\<forall>(m, r) \<in> set pins. cid_of r = cid \<longrightarrow> r = raw"
  shows "fetch_blob be (ad_storage (foldl (\<lambda>d (m, r). fst (pin_and_register be d m r)) d pins)) cid = Ok raw"
  using assms
proof (induction pins arbitrary: d)
  case (Cons p pins)
  obtain m r where p: "p = (m, r)" by fastforce
  have "fetch_blob be (ad_storage (fst (pin_and_register be d m r))) cid = Ok raw"
  proof (cases "cid_of r = cid")
    case True
    then have "r = raw" using Cons.prems(2) by (simp add: p)
    then show ?thesis using True pin_and_register_ok by blast
  next
    case False
    then show ?thesis using pin_and_register_other [of cid r d m] Cons.prems(1) by simp
  qed
  with Cons show ?case by (simp add: p)
qed simp

lemma recover_archived:
  assumes "mesh_lib_ok ml" and "mesh_valid packet" and "mp_version packet = 1"
    and "fetch_blob be (ad_storage d) cid = Ok (mesh_encode ml packet)"
  shows "recover_packet ml be d cid = Ok packet"
  using mesh_from_bytes_encode [OF assms(1,2)] assms(3,4) by (simp add: recover_packet_def)

lemma resolve_archived:
  assumes "scale_ok sl" and "length (aw_code w) < vec_bound"
    and "fetch_blob be (ad_storage d) cid = Ok (account_witness_encode sl w)"
  shows "resolve_account_witness sl be d cid = Ok w"
  using account_witness_decode_encode [OF assms(1,2), of "[]"] assms(3)
  by (simp add: resolve_account_witness_def)

end

interpretation cluster: archival_backend "cluster_backend cl" "cluster_cid cl" for cl
  by unfold_locales
    (auto simp: cluster_backend_def cluster_pin_blob_def cluster_fetch_blob_def
      cluster_is_pinned_def Let_def dom_def outcome_simps)

interpretation mock_store: archival_backend "mock_backend cl" "mock_cid cl" for cl
  by unfold_locales
    (auto simp: mock_backend_def mock_pin_blob_def mock_fetch_blob_def
      mock_is_pinned_def Let_def dom_def outcome_simps)

text \<open>Equal identifiers come from equal hashes.\<close>

lemma cluster_cid_inject:
  "cluster_cid cl a = cluster_cid cl b \<longleftrightarrow> keccak256 cl a = keccak256 cl b"
  by (auto simp: cluster_cid_def dest: hex_string_inject)

section \<open>Properties\<close>

text \<open>C25: an archived packet can be recovered. When the namespace tree takes its leaf, a packet is
  archived under the hash of its bytes, and by this identifier the packet is recovered, also
  after any number of other blobs were pinned, of which none collides with it.\<close>

theorem archived_packet_recovered:
  assumes "mesh_lib_ok ml" and "mesh_valid packet" and "mp_version packet = 1"
    and "is_ok (push_leaf nl (nmt_new nl)
      \<lparr>leaf_namespace = namespace_of_u64 (source_manifold_id packet), leaf_data = mesh_encode ml packet\<rparr>)"
    and "\<forall>(m, r) \<in> set pins. keccak256 cl r = keccak256 cl (mesh_encode ml packet) \<longrightarrow> r = mesh_encode ml packet"
  shows "\<exists>d'. archive_based_mesh_packet ml nl (cluster_backend cl) d packet = (d', Ok (cluster_cid cl (mesh_encode ml packet))) \<and>
    recover_packet ml (cluster_backend cl)
      (foldl (\<lambda>d (m, r). fst (pin_and_register (cluster_backend cl) d m r)) d' pins)
      (cluster_cid cl (mesh_encode ml packet)) = Ok packet"
proof -
  let ?raw = "mesh_encode ml packet"
  let ?pin = "pin_and_register (cluster_backend cl) d (source_manifold_id packet) ?raw"
  have a: "archive_based_mesh_packet ml nl (cluster_backend cl) d packet = ?pin"
    using assms(4) by (auto simp: archive_based_mesh_packet_def Let_def split: outcome.splits)
  obtain d' where p: "?pin = (d', Ok (cluster_cid cl ?raw))"
    and f: "fetch_blob (cluster_backend cl) (ad_storage d') (cluster_cid cl ?raw) = Ok ?raw"
    using cluster.pin_and_register_ok [of cl d "source_manifold_id packet" ?raw] by (metis prod.collapse fst_conv)
  have "\<forall>(m, r) \<in> set pins. cluster_cid cl r = cluster_cid cl ?raw \<longrightarrow> r = ?raw"
    using assms(5) by (simp add: cluster_cid_inject)
  from cluster.recover_archived [OF assms(1-3) cluster.fetch_after_pins [OF f this]] a p show ?thesis by auto
qed

definition sample_nmt :: "(unit, unit, unit) nmt_lib" where
  "sample_nmt = \<lparr>nmt_with_hasher = (), nmt_push = (\<lambda>t d n. Ok ()), nmt_root = (\<lambda>t. ()), nmt_range = (\<lambda>t a b. ([], ()))\<rparr>"

definition length_hash :: crypto_lib where
  "length_hash = sample_crypto\<lparr>keccak256 := (\<lambda>bs. word_of_nat (length bs))\<rparr>"

lemma archived_packet_recovered_witness:
  "\<exists>d. recover_packet sample_mesh_lib (cluster_backend length_hash)
     (fst (pin_and_register (cluster_backend length_hash) d 3 [7]))
     (cluster_cid length_hash (mesh_encode sample_mesh_lib sample_packet)) = Ok sample_packet"
proof -
  have "length (mesh_encode sample_mesh_lib sample_packet) = 152"
    by (simp add: sample_mesh_eval sample_packet_def mesh_packet_default_def)
  then have "keccak256 length_hash [7] \<noteq> keccak256 length_hash (mesh_encode sample_mesh_lib sample_packet)"
    by (simp add: length_hash_def)
  then have "\<forall>(m, r) \<in> set [(3, [7])]. keccak256 length_hash r =
      keccak256 length_hash (mesh_encode sample_mesh_lib sample_packet) \<longrightarrow>
      r = mesh_encode sample_mesh_lib sample_packet" by simp
  from archived_packet_recovered [OF sample_mesh_lib_ok sample_packet_valid _ this,
      of sample_nmt "daemon_new Map.empty"] show ?thesis
    by (auto simp: push_leaf_def sample_nmt_def)
qed

end
