(* ===== verification/Kzg.thy ===== *)
theory Kzg
  imports Crypto F64 "HOL-Library.Char_ord" "HOL-Library.List_Lexorder"
begin

text \<open>
  KZG commitments to the reputation vector (\<open>crates/consensus/src/kzg.rs\<close>): the blob built from
  the sorted DIDs and the evaluation point of a proof. The KZG library and the bit pattern
  of a double are parameters. Lemmas: every field element of the blob is canonical, and
  the blob does not depend on the iteration order of the reputation map.
\<close>

record kzg_lib =
  kzg_crypto :: crypto_lib
  f64_bytes :: "f64 \<Rightarrow> bytes"
  kzg_blob_ok :: "bytes \<Rightarrow> bool"
  kzg_commit :: "bytes \<Rightarrow> bytes option"
  kzg_prove :: "bytes \<Rightarrow> bytes \<Rightarrow> (bytes \<times> bytes) option"
  kzg_check :: "bytes \<Rightarrow> bytes \<Rightarrow> bytes \<Rightarrow> bytes \<Rightarrow> bool option"

record page_rank_kzg =
  pk_commitment :: bytes
  pk_blob :: bytes

text \<open>The hash of a DID and its score, with the two top bits cleared.\<close>

definition score_scalar :: "kzg_lib \<Rightarrow> string \<Rightarrow> f64 \<Rightarrow> bytes" where
  "score_scalar kl did score =
     (let scalar = b256_bytes (b256_of_bytes (sha256 (kzg_crypto kl) (as_bytes did @ f64_bytes kl score)))
      in scalar[0 := scalar ! 0 AND 0x3f])"

text \<open>\<open>dids\<close> lists the keys of the reputation map in iteration order; the code sorts them.\<close>

definition reputation_blob ::
  "kzg_lib \<Rightarrow> string list \<Rightarrow> (string \<Rightarrow> f64) \<Rightarrow> bytes" where
  "reputation_blob kl dids score =
     (let scalars = map (\<lambda>did. score_scalar kl did (score did)) (take 4096 (sort dids))
      in concat scalars @ replicate (131072 - 32 * length scalars) 0)"

definition page_rank_kzg_new ::
  "kzg_lib \<Rightarrow> string list \<Rightarrow> (string \<Rightarrow> f64) \<Rightarrow> page_rank_kzg option" where
  "page_rank_kzg_new kl dids score =
     (let blob = reputation_blob kl dids score in
      if \<not> kzg_blob_ok kl blob then None
      else map_option (\<lambda>c. \<lparr>pk_commitment = c, pk_blob = blob\<rparr>) (kzg_commit kl blob))"

definition position :: "'a \<Rightarrow> 'a list \<Rightarrow> nat option" where
  "position x xs = (let n = length (takeWhile (\<lambda>y. y \<noteq> x) xs) in if n < length xs then Some n else None)"

definition evaluation_point :: "nat \<Rightarrow> bytes" where
  "evaluation_point index = replicate 28 0 @ be_bytes 4 (min index (2 ^ 32 - 1))"

definition generate_proof ::
  "kzg_lib \<Rightarrow> page_rank_kzg \<Rightarrow> string \<Rightarrow> string list \<Rightarrow> (bytes \<times> bytes) option" where
  "generate_proof kl k did dids =
     (let index = (case position did (sort dids) of None \<Rightarrow> 0 | Some i \<Rightarrow> i)
      in kzg_prove kl (pk_blob k) (evaluation_point index))"

definition verify_proof :: "kzg_lib \<Rightarrow> bytes \<Rightarrow> nat \<Rightarrow> bytes \<Rightarrow> bytes \<Rightarrow> bool option" where
  "verify_proof kl commitment index y proof =
     kzg_check kl commitment (evaluation_point index) y proof"

lemma length_score_scalar [simp]: "length (score_scalar kl did s) = 32"
  by (simp add: score_scalar_def Let_def)

lemma score_scalar_canonical: "be_nat (score_scalar kl did s) < 2 ^ 254"
proof -
  obtain b bs where bs: "b256_bytes (b256_of_bytes (sha256 (kzg_crypto kl) (as_bytes did @ f64_bytes kl s))) = b # bs"
    by (metis length_value_bytes(2) length_0_conv neq_Nil_conv zero_neq_numeral)
  have "length (b # bs) = 32" by (simp only: bs [symmetric] length_value_bytes)
  then have len: "length bs = 31" by simp
  have "b AND 0x3f \<le> 0x3f" by (rule word_and_le1)
  then have "unat (b AND 0x3f) \<le> 63" by (simp add: word_le_nat_alt)
  moreover have "be_nat bs < 256 ^ 31" using be_nat_less [of bs] len by simp
  ultimately have "unat (b AND 0x3f) * 256 ^ 31 + be_nat bs < 64 * 256 ^ 31" by simp
  then show ?thesis by (simp add: score_scalar_def bs len)
qed

lemma reputation_blob_order_independent:
  assumes "set dids = set dids'" and "distinct dids" and "distinct dids'"
  shows "reputation_blob kl dids score = reputation_blob kl dids' score"
proof -
  have "sort dids = sort dids'"
    using assms by (intro sorted_distinct_set_unique) simp_all
  then show ?thesis by (simp add: reputation_blob_def)
qed

lemma length_concat_scalars:
  "length (concat (map (\<lambda>did. score_scalar kl did (score did)) dids)) = 32 * length dids"
  by (induction dids) simp_all

lemma length_reputation_blob: "length (reputation_blob kl dids score) = 131072"
  by (simp add: reputation_blob_def length_concat_scalars del: map_map)

end
