(* ===== verification/Json.thy ===== *)
theory Json
  imports Text
begin

text \<open>
  JSON values as the RPC proxy handles them (\<open>serde_json::Value\<close>), with the accessors that the
  source uses: indexing gives null where there is nothing, \<open>as_str\<close> and its kin give an option.
  Parsing and printing are parameters of the components that use them. Also the number
  formats of the proxy: hexadecimal with a prefix, padded, and their lenient reader.
\<close>

datatype json =
    JNull
  | JBool bool
  | JInt int
  | JFloat rat
  | JStr string
  | JArr "json list"
  | JObj "(string \<times> json) list"

section \<open>Access\<close>

text \<open>\<open>v["key"]\<close> and \<open>v.get("key")\<close>\<close>

definition json_get :: "json \<Rightarrow> string \<Rightarrow> json option" where
  "json_get v k = (case v of JObj kvs \<Rightarrow> map_of kvs k | _ \<Rightarrow> None)"

definition json_field :: "json \<Rightarrow> string \<Rightarrow> json" where
  "json_field v k = (case json_get v k of Some x \<Rightarrow> x | None \<Rightarrow> JNull)"

text \<open>\<open>v.get(i)\<close> and \<open>v[i]\<close>\<close>

definition json_nth :: "json \<Rightarrow> nat \<Rightarrow> json option" where
  "json_nth v i = (case v of JArr xs \<Rightarrow> if i < length xs then Some (xs ! i) else None | _ \<Rightarrow> None)"

definition json_index :: "json \<Rightarrow> nat \<Rightarrow> json" where
  "json_index v i = (case json_nth v i of Some x \<Rightarrow> x | None \<Rightarrow> JNull)"

fun as_str :: "json \<Rightarrow> string option" where
  "as_str (JStr s) = Some s"
| "as_str _ = None"

fun as_bool :: "json \<Rightarrow> bool option" where
  "as_bool (JBool b) = Some b"
| "as_bool _ = None"

fun as_array :: "json \<Rightarrow> json list option" where
  "as_array (JArr xs) = Some xs"
| "as_array _ = None"

fun as_u64 :: "json \<Rightarrow> u64 option" where
  "as_u64 (JInt n) = (if 0 \<le> n \<and> n < 2 ^ 64 then Some (word_of_int n) else None)"
| "as_u64 _ = None"

definition str_or :: "string \<Rightarrow> json \<Rightarrow> string" where
  "str_or d v = (case as_str v of Some s \<Rightarrow> s | None \<Rightarrow> d)"

text \<open>\<open>v["key"] = x\<close> on an object\<close>

definition json_set :: "string \<Rightarrow> json \<Rightarrow> json \<Rightarrow> json" where
  "json_set k x v = (case v of JObj kvs \<Rightarrow> JObj (AList.update k x kvs) | _ \<Rightarrow> v)"

lemma json_get_set [simp]: "json_get (json_set k x (JObj kvs)) k' = (if k' = k then Some x else map_of kvs k')"
  by (simp add: json_get_def json_set_def update_conv')

section \<open>Numbers and hashes in texts\<close>

text \<open>\<open>{:#x}\<close> of a hash and of an address, which print all their digits\<close>

definition prefixed_hash :: "b256 \<Rightarrow> string" where
  "prefixed_hash h = ''0x'' @ hex_string (b256_bytes h)"

definition prefixed_address :: "address \<Rightarrow> string" where
  "prefixed_address a = ''0x'' @ hex_string (address_bytes a)"

text \<open>\<open>{:0>64}\<close>\<close>

definition pad64 :: "string \<Rightarrow> string" where
  "pad64 s = replicate (64 - length s) (CHR ''0'') @ s"

text \<open>\<open>u64::from_str_radix(s, 16)\<close>, with the optional plus sign and the overflow check\<close>

fun hex_digits :: "nat \<Rightarrow> string \<Rightarrow> nat option" where
  "hex_digits acc [] = Some acc"
| "hex_digits acc (c # s) =
     (case hex_value c of None \<Rightarrow> None | Some d \<Rightarrow> hex_digits (16 * acc + d) s)"

definition u64_from_hex :: "string \<Rightarrow> u64 option" where
  "u64_from_hex s =
     (let digits = (case s of [] \<Rightarrow> [] | c # r \<Rightarrow> if c = CHR ''+'' then r else s)
      in if digits = [] then None
         else case hex_digits 0 digits of
                None \<Rightarrow> None
              | Some n \<Rightarrow> if n < 2 ^ 64 then Some (word_of_nat n) else None)"

definition block_num :: "string \<Rightarrow> u64" where
  "block_num s = (case u64_from_hex (trim_start_matches ''0x'' s) of Some n \<Rightarrow> n | None \<Rightarrow> 0)"

definition eq_ignore_ascii_case :: "string \<Rightarrow> string \<Rightarrow> bool" where
  "eq_ignore_ascii_case s t \<longleftrightarrow> to_lowercase s = to_lowercase t"

section \<open>Reading what was printed\<close>

lemma hex_digits_append: "hex_digits acc (s @ t) = Option.bind (hex_digits acc s) (\<lambda>a. hex_digits a t)"
  by (induction s arbitrary: acc) (auto split: option.splits)

lemma hex_digits_lower_hex: "hex_digits 0 (lower_hex n) = Some n"
proof (induction n rule: lower_hex.induct)
  case (1 n)
  show ?case
  proof (cases "n < 16")
    case False
    then show ?thesis
      using 1 by (subst lower_hex.simps) (simp add: hex_digits_append)
  qed (subst lower_hex.simps, simp)
qed

lemma lower_hex_hd: "\<exists>c s. lower_hex n = c # s \<and> c \<in> hex_char ` {0..<16}"
proof (induction n rule: lower_hex.induct)
  case (1 n)
  show ?case
  proof (cases "n < 16")
    case False
    then obtain c s where "lower_hex (n div 16) = c # s" "c \<in> hex_char ` {0..<16}"
      using 1 by blast
    with False show ?thesis by (subst lower_hex.simps) auto
  qed (subst lower_hex.simps, auto)
qed

lemma set_lower_hex: "set (lower_hex n) \<subseteq> hex_char ` {0..<16}"
proof (induction n rule: lower_hex.induct)
  case (1 n)
  show ?case
    using 1 by (subst lower_hex.simps) auto
qed

lemma hex_char_not:
  assumes "(of_char c :: nat) < 48 \<or> 57 < (of_char c :: nat) \<and> (of_char c :: nat) < 97 \<or> 102 < (of_char c :: nat)"
  shows "c \<notin> hex_char ` {0..<16}"
proof
  assume "c \<in> hex_char ` {0..<16}"
  then obtain d where "d < 16" "c = hex_char d" by auto
  with assms show False by (simp only: of_char_hex_char split: if_splits) linarith+
qed

lemma u64_from_hex_lower_hex: "u64_from_hex (lower_hex (unat (w :: u64))) = Some w"
proof -
  obtain c s where h: "lower_hex (unat w) = c # s" "c \<in> hex_char ` {0..<16}"
    using lower_hex_hd by blast
  have "CHR ''+'' \<notin> hex_char ` {0..<16}" by (rule hex_char_not) simp
  with h(2) have "c \<noteq> CHR ''+''" by metis
  then show ?thesis
    using hex_digits_lower_hex [of "unat w"] unat_less [of w] h(1) by (simp add: u64_from_hex_def Let_def)
qed

lemma trim_lower_hex: "trim_start_matches ''0x'' (''0x'' @ lower_hex n) = lower_hex n"
proof -
  have "CHR ''x'' \<notin> set (lower_hex n)"
    using set_lower_hex [of n] hex_char_not [of "CHR ''x''"] by auto
  then have "\<not> starts_with (lower_hex n) ''0x''"
    by (auto simp: starts_with_def) (metis in_set_takeD list.set_intros)
  then show ?thesis
    using trim_start_matches_append [of "''0x''" "lower_hex n"] by (simp add: trim_start_matches_id)
qed

text \<open>A block number survives its text.\<close>

lemma block_num_lower_hex: "block_num (''0x'' @ lower_hex (unat n)) = n"
  by (simp only: block_num_def trim_lower_hex u64_from_hex_lower_hex) simp

lemma prefixed_hash_inject: "prefixed_hash g = prefixed_hash h \<longleftrightarrow> g = h"
  by (auto simp: prefixed_hash_def dest: hex_string_inject)

lemma char_lower_hex: "c \<in> hex_char ` {0..<16} \<Longrightarrow> char_lower c = c"
  by (auto simp: char_lower_def of_char_hex_char)

lemma to_lowercase_prefixed_hash [simp]: "to_lowercase (prefixed_hash h) = prefixed_hash h"
proof -
  have "map char_lower (hex_string bs) = hex_string bs" for bs
    using set_hex_string by (intro map_idI) (auto intro!: char_lower_hex)
  moreover have "char_lower (CHR ''0'') = CHR ''0''" "char_lower (CHR ''x'') = CHR ''x''"
    by (simp_all add: char_lower_def)
  ultimately show ?thesis by (simp add: to_lowercase_def prefixed_hash_def)
qed

end
