(* ===== verification/Http_Frame.thy ===== *)
theory Http_Frame
  imports Json
begin

text \<open>
  Reading requests off a connection (\<open>run_proxy\<close> of \<open>crates/node/src/caip_rpc.rs\<close>): the header is
  read until its blank line, the body by its content length, and what was read beyond stays in the
  buffer for the next request. A connection is the list of what its reads return; an empty
  read or the end of the list is a closed connection, on which the task returns. Bytes are
  taken as ASCII characters. Lemma: how the network cuts a stream into reads does not matter.
\<close>

section \<open>Lines and numbers\<close>

definition crlf2 :: string where
  "crlf2 = [CHR 0x0D, CHR 0x0A, CHR 0x0D, CHR 0x0A]"

definition strip_cr :: "string \<Rightarrow> string" where
  "strip_cr l = (if l \<noteq> [] \<and> last l = CHR 0x0D then butlast l else l)"

text \<open>\<open>s.lines()\<close>: the last line counts only when it is not empty and keeps a bare carriage return.\<close>

definition str_lines :: "string \<Rightarrow> string list" where
  "str_lines s = (let ls = split_on (CHR 0x0A) s in
     map strip_cr (butlast ls) @ (if last ls = [] then [] else [last ls]))"

definition dec_value :: "char \<Rightarrow> nat option" where
  "dec_value c = (let n = of_char c :: nat in if 48 \<le> n \<and> n \<le> 57 then Some (n - 48) else None)"

fun dec_digits :: "nat \<Rightarrow> string \<Rightarrow> nat option" where
  "dec_digits acc [] = Some acc"
| "dec_digits acc (c # s) =
     (case dec_value c of None \<Rightarrow> None | Some d \<Rightarrow> dec_digits (10 * acc + d) s)"

text \<open>\<open>s.parse::<usize>()\<close>\<close>

definition parse_usize :: "string \<Rightarrow> nat option" where
  "parse_usize s =
     (let digits = (case s of [] \<Rightarrow> [] | c # r \<Rightarrow> if c = CHR ''+'' then r else s)
      in if digits = [] then None
         else case dec_digits 0 digits of
                None \<Rightarrow> None
              | Some n \<Rightarrow> if n < 2 ^ 64 then Some n else None)"

section \<open>Headers\<close>

text \<open>The first line that names the header decides, even when its value does not parse.\<close>

fun content_length :: "string list \<Rightarrow> nat" where
  "content_length [] = 0"
| "content_length (l # ls) =
     (if starts_with (to_lowercase l) ''content-length:'' then
        (case split_on (CHR '':'') l of
           _ # v # _ \<Rightarrow> (case parse_usize (trim v) of Some n \<Rightarrow> n | None \<Rightarrow> 0)
         | _ \<Rightarrow> 0)
      else content_length ls)"

fun extract_header_line :: "string \<Rightarrow> string list \<Rightarrow> string option" where
  "extract_header_line name [] = None"
| "extract_header_line name (l # ls) =
     (if starts_with (to_lowercase l) name then
        (case splitn 2 (CHR '':'') l of
           _ # v # _ \<Rightarrow> Some (trim v)
         | _ \<Rightarrow> extract_header_line name ls)
      else extract_header_line name ls)"

definition extract_header :: "string \<Rightarrow> string \<Rightarrow> string option" where
  "extract_header request name = extract_header_line name (str_lines request)"

section \<open>Reading\<close>

definition header_cap :: nat where
  "header_cap = 65536"

definition body_cap :: nat where
  "body_cap = 1048576"

fun read_header :: "string \<Rightarrow> string list \<Rightarrow> (string \<times> string list) option" where
  "read_header buf [] = (if contains buf crlf2 then Some (buf, []) else None)"
| "read_header buf (c # cs) =
     (if contains buf crlf2 then Some (buf, c # cs)
      else if header_cap < length buf then None
      else if c = [] then None
      else read_header (buf @ c) cs)"

fun read_body :: "nat \<Rightarrow> string \<Rightarrow> string list \<Rightarrow> (string \<times> string list) option" where
  "read_body want buf [] = (if want \<le> length buf then Some (buf, []) else None)"
| "read_body want buf (c # cs) =
     (if want \<le> length buf then Some (buf, c # cs)
      else if c = [] then None
      else read_body want (buf @ c) cs)"

text \<open>The request, the rest of the buffer and the reads to come; nothing when the task returns.\<close>

definition next_request :: "string \<Rightarrow> string list \<Rightarrow> (string \<times> string \<times> string list) option" where
  "next_request buf reads =
     (case read_header buf reads of
        None \<Rightarrow> None
      | Some (buf, reads) \<Rightarrow>
          (case find_sub buf crlf2 of
             None \<Rightarrow> None
           | Some pos \<Rightarrow>
               (let header_len = pos + 4;
                    len = content_length (str_lines (take header_len buf));
                    want = header_len + len
                in if body_cap < len then None
                   else case read_body want buf reads of
                          None \<Rightarrow> None
                        | Some (buf, reads) \<Rightarrow> Some (take want buf, drop want buf, reads))))"

section \<open>Substring search\<close>

lemma find_sub_Some_iff:
  "find_sub s p = Some i \<longleftrightarrow> i \<le> length s \<and> starts_with (drop i s) p \<and> (\<forall>j < i. \<not> starts_with (drop j s) p)"
proof (induction s arbitrary: i)
  case Nil
  then show ?case by (auto simp: starts_with_def)
next
  case (Cons c s)
  show ?case
  proof (cases i)
    case 0
    then show ?thesis by simp
  next
    case (Suc k)
    have "(\<forall>j < Suc k. \<not> starts_with (drop j (c # s)) p) \<longleftrightarrow>
        \<not> starts_with (c # s) p \<and> (\<forall>j < k. \<not> starts_with (drop j s) p)"
      by (auto simp: less_Suc_eq_0_disj)
    then show ?thesis using Cons.IH [of k] by (auto simp: Suc)
  qed
qed

lemma contains_iff: "contains s p \<longleftrightarrow> find_sub s p \<noteq> None"
  by (induction s) auto

lemma starts_with_prefix_drop:
  "i + length p \<le> length s \<Longrightarrow> starts_with (drop i (s @ t)) p = starts_with (drop i s) p"
  by (simp add: starts_with_def)

lemma starts_with_length: "starts_with s p \<Longrightarrow> length p \<le> length s"
  by (auto simp: starts_with_def) (metis length_take min.cobounded1 min.commute)

text \<open>The first occurrence in a stream is found as soon as it has been read.\<close>

lemma find_sub_prefix:
  assumes "find_sub (s @ t) p = Some i"
  shows "find_sub s p = (if i + length p \<le> length s then Some i else None)"
proof (cases "find_sub s p")
  case None
  have "\<not> i + length p \<le> length s"
  proof
    assume l: "i + length p \<le> length s"
    have "\<not> starts_with (drop j s) p" if "j < i" for j
      using assms l that starts_with_prefix_drop [of j p s t] by (simp add: find_sub_Some_iff)
    moreover have "starts_with (drop i s) p"
      using assms l starts_with_prefix_drop [of i p s t] by (simp add: find_sub_Some_iff)
    ultimately have "find_sub s p = Some i" using l by (simp add: find_sub_Some_iff)
    with None show False by simp
  qed
  with None show ?thesis by simp
next
  case (Some k)
  then have k: "k \<le> length s" "starts_with (drop k s) p" "\<forall>j < k. \<not> starts_with (drop j s) p"
    by (simp_all add: find_sub_Some_iff)
  from starts_with_length [OF k(2)] k(1) have kl: "k + length p \<le> length s" by simp
  have "starts_with (drop k (s @ t)) p" using k(2) starts_with_prefix_drop [OF kl] by blast
  moreover have "\<not> starts_with (drop j (s @ t)) p" if "j < k" for j
    using k(3) kl that starts_with_prefix_drop [of j p s t] by simp
  ultimately have "find_sub (s @ t) p = Some k" using k(1) by (auto simp: find_sub_Some_iff)
  with assms Some kl show ?thesis by simp
qed

section \<open>The cuts do not matter\<close>

lemma read_header_stream:
  assumes "find_sub (buf @ concat reads) crlf2 = Some p" and "p + 4 \<le> header_cap" and "[] \<notin> set reads"
  shows "\<exists>buf' reads'. read_header buf reads = Some (buf', reads') \<and>
    buf' @ concat reads' = buf @ concat reads \<and> [] \<notin> set reads' \<and> p + 4 \<le> length buf'"
  using assms
proof (induction buf reads rule: read_header.induct)
  case (1 buf)
  then have f: "find_sub buf crlf2 = Some p" by simp
  then have "p + 4 \<le> length buf"
    using find_sub_prefix [of buf "[]" crlf2 p] by (auto simp: crlf2_def split: if_splits)
  with f show ?case by (simp add: contains_iff)
next
  case (2 buf c cs)
  note pre = find_sub_prefix [OF 2(2)]
  show ?case
  proof (cases "p + 4 \<le> length buf")
    case True
    then have "contains buf crlf2" using pre by (simp add: contains_iff crlf2_def)
    with True 2 show ?thesis by simp
  next
    case False
    then have "\<not> contains buf crlf2" "\<not> header_cap < length buf" "c \<noteq> []"
      using pre 2 by (auto simp: contains_iff crlf2_def)
    with 2 show ?thesis by simp
  qed
qed

lemma read_body_stream:
  assumes "want \<le> length (buf @ concat reads)" and "[] \<notin> set reads"
  shows "\<exists>buf' reads'. read_body want buf reads = Some (buf', reads') \<and>
    buf' @ concat reads' = buf @ concat reads \<and> [] \<notin> set reads' \<and> want \<le> length buf'"
  using assms by (induction want buf reads rule: read_body.induct) auto

lemma next_request_stream:
  assumes stream: "buf @ concat reads = stream" and "[] \<notin> set reads"
    and p: "find_sub stream crlf2 = Some p" "p + 4 \<le> header_cap"
    and len: "content_length (str_lines (take (p + 4) stream)) = len" "len \<le> body_cap"
    and "p + 4 + len \<le> length stream"
  shows "\<exists>buf' reads'. next_request buf reads = Some (take (p + 4 + len) stream, buf', reads') \<and>
    buf' @ concat reads' = drop (p + 4 + len) stream \<and> [] \<notin> set reads'"
proof -
  obtain b1 r1 where h: "read_header buf reads = Some (b1, r1)" "b1 @ concat r1 = stream"
      "[] \<notin> set r1" "p + 4 \<le> length b1"
    using read_header_stream [of buf reads p] assms by auto
  have f: "find_sub b1 crlf2 = Some p"
    using find_sub_prefix [of b1 "concat r1" crlf2 p] h(2,4) p(1) by (simp add: crlf2_def)
  have t: "take (p + 4) b1 = take (p + 4) stream" using h(2,4) by (auto simp: take_append)
  obtain b2 r2 where b: "read_body (p + 4 + len) b1 r1 = Some (b2, r2)" "b2 @ concat r2 = stream"
      "[] \<notin> set r2" "p + 4 + len \<le> length b2"
    using read_body_stream [of "p + 4 + len" b1 r1] h assms(7) by auto
  have "take (p + 4 + len) b2 = take (p + 4 + len) stream"
    "drop (p + 4 + len) b2 @ concat r2 = drop (p + 4 + len) stream"
    using b(2,4) by (auto simp: take_append drop_append)
  then show ?thesis
    using b(1,3) h(1) f len t by (simp add: next_request_def Let_def)
qed

end
