(* ===== verification/Hot_Index.thy ===== *)
theory Hot_Index
  imports Json
begin

text \<open>
  The hot index of native transfers (first and last part of \<open>crates/node/src/caip_rpc.rs\<close>): per
  address the records of the last 48 hours, at most 200 of them, and what the proxy builds from
  them: transactions, receipts, synthetic transfer logs, blocks. The process-wide state behind its
  lock is an explicit argument; where the code iterates over the hash map, \<open>order\<close> lists its keys.
  Lemmas: the invariant of the index, that an indexed transfer is found, and that the
  synthetic logs are the matching transfers, each once.
\<close>

section \<open>State\<close>

record native_transfer_record =
  nt_hash :: b256
  nt_block_hash :: "string option"
  nt_block_number :: string
  nt_from :: address
  nt_from_did :: "string option"
  nt_to :: address
  nt_to_did :: "string option"
  nt_value :: string
  nt_timestamp :: u64
  nt_v :: string
  nt_r :: string
  nt_s :: string

record memory_state =
  native_history :: "address \<rightharpoonup> native_transfer_record list"
  scanned_block :: u64

definition memory_state_default :: memory_state where
  "memory_state_default = \<lparr>native_history = Map.empty, scanned_block = 0\<rparr>"

section \<open>Indexing\<close>

definition hot_ttl :: u64 where
  "hot_ttl = 172800"

definition max_per_addr :: nat where
  "max_per_addr = 200"

definition history_of :: "memory_state \<Rightarrow> address \<Rightarrow> native_transfer_record list" where
  "history_of st a = (case native_history st a of None \<Rightarrow> [] | Some l \<Rightarrow> l)"

text \<open>The first record that satisfies \<open>P\<close> is updated in place.\<close>

fun update_first :: "('a \<Rightarrow> bool) \<Rightarrow> ('a \<Rightarrow> 'a) \<Rightarrow> 'a list \<Rightarrow> 'a list" where
  "update_first P f [] = []"
| "update_first P f (x # xs) = (if P x then f x # xs else x # update_first P f xs)"

definition backfill :: "native_transfer_record \<Rightarrow> native_transfer_record \<Rightarrow> native_transfer_record" where
  "backfill new old =
     (let old = (if nt_block_hash old = None \<and> nt_block_hash new \<noteq> None
                 then old\<lparr>nt_block_hash := nt_block_hash new\<rparr> else old)
      in if nt_block_number old = ''0x1'' \<or> nt_block_number new \<noteq> ''0x1''
         then old\<lparr>nt_block_number := nt_block_number new\<rparr> else old)"

definition index_into ::
  "u64 \<Rightarrow> native_transfer_record \<Rightarrow> native_transfer_record list \<Rightarrow> native_transfer_record list" where
  "index_into now new l =
     (let fresh = [r\<leftarrow>l. saturating_sub now (nt_timestamp r) < hot_ttl];
          same = (\<lambda>r. nt_hash r = nt_hash new);
          merged = (if \<exists>r \<in> set fresh. same r then update_first same (backfill new) fresh
                    else fresh @ [new])
      in drop (length merged - max_per_addr) merged)"

definition index_under ::
  "u64 \<Rightarrow> native_transfer_record \<Rightarrow> address \<Rightarrow> memory_state \<Rightarrow> memory_state" where
  "index_under now new a st =
     st\<lparr>native_history := (native_history st)(a \<mapsto> index_into now new (history_of st a))\<rparr>"

definition add_native_transfer_record ::
  "u64 \<Rightarrow> memory_state \<Rightarrow> native_transfer_record \<Rightarrow> memory_state" where
  "add_native_transfer_record now st new =
     index_under now new (nt_to new) (index_under now new (nt_from new) st)"

section \<open>Answers from the index\<close>

definition indexed_records :: "address list \<Rightarrow> memory_state \<Rightarrow> native_transfer_record list" where
  "indexed_records order st = concat (map (history_of st) order)"

text \<open>\<open>u256_parse\<close> reads a decimal number (primitives crate).\<close>

type_synonym u256_parser = "string \<Rightarrow> u256 option"

definition record_value :: "u256_parser \<Rightarrow> native_transfer_record \<Rightarrow> string" where
  "record_value u256_parse r = lower_hex (unat (case u256_parse (nt_value r) of None \<Rightarrow> 0 | Some v \<Rightarrow> v))"

definition tx_object ::
  "u256_parser \<Rightarrow> string \<Rightarrow> string \<Rightarrow> string \<Rightarrow> native_transfer_record \<Rightarrow> json" where
  "tx_object u256_parse block_hash block_number hash_str r =
     JObj [(''blockHash'', JStr block_hash), (''blockNumber'', JStr block_number),
       (''from'', JStr (prefixed_address (nt_from r))), (''to'', JStr (prefixed_address (nt_to r))),
       (''value'', JStr (''0x'' @ record_value u256_parse r)), (''gas'', JStr ''0x5208''),
       (''gasPrice'', JStr ''0x3b9aca00''), (''hash'', JStr hash_str), (''input'', JStr ''0x''),
       (''nonce'', JStr ''0x0''), (''transactionIndex'', JStr ''0x0''), (''type'', JStr ''0x2''),
       (''v'', JStr (nt_v r)), (''r'', JStr (nt_r r)), (''s'', JStr (nt_s r))]"

definition own_block_hash :: "native_transfer_record \<Rightarrow> string" where
  "own_block_hash r = (case nt_block_hash r of Some h \<Rightarrow> h | None \<Rightarrow> prefixed_hash (nt_hash r))"

definition find_by_hash ::
  "address list \<Rightarrow> memory_state \<Rightarrow> string \<Rightarrow> native_transfer_record option" where
  "find_by_hash order st target =
     find (\<lambda>r. to_lowercase (prefixed_hash (nt_hash r)) = to_lowercase (trim target))
       (indexed_records order st)"

definition get_tx_by_hash :: "u256_parser \<Rightarrow> address list \<Rightarrow> memory_state \<Rightarrow> string \<Rightarrow> json" where
  "get_tx_by_hash u256_parse order st target =
     (case find_by_hash order st target of
        None \<Rightarrow> JNull
      | Some r \<Rightarrow> tx_object u256_parse (own_block_hash r) (nt_block_number r)
                    (to_lowercase (prefixed_hash (nt_hash r))) r)"

definition get_receipt_by_hash :: "address list \<Rightarrow> memory_state \<Rightarrow> string \<Rightarrow> json" where
  "get_receipt_by_hash order st target =
     (case find_by_hash order st target of
        None \<Rightarrow> JNull
      | Some r \<Rightarrow> JObj [(''blockHash'', JStr (own_block_hash r)), (''blockNumber'', JStr (nt_block_number r)),
          (''contractAddress'', JNull), (''cumulativeGasUsed'', JStr ''0x5208''),
          (''effectiveGasPrice'', JStr ''0x3b9aca00''), (''from'', JStr (prefixed_address (nt_from r))),
          (''to'', JStr (prefixed_address (nt_to r))), (''gasUsed'', JStr ''0x5208''), (''logs'', JArr []),
          (''logsBloom'', JStr (''0x'' @ replicate 511 (CHR ''0''))), (''status'', JStr ''0x1''),
          (''transactionHash'', JStr (to_lowercase (prefixed_hash (nt_hash r)))),
          (''transactionIndex'', JStr ''0x0''), (''type'', JStr ''0x2'')])"

subsection \<open>Transfer logs\<close>

definition filter_recipient :: "json \<Rightarrow> string option" where
  "filter_recipient flt =
     Option.bind (Option.bind (as_array (json_field flt ''topics'')) (\<lambda>t. json_nth (JArr t) 2)) (\<lambda>t2.
       case as_str t2 of
         Some s \<Rightarrow> Some (to_lowercase s)
       | None \<Rightarrow> map_option to_lowercase
           (Option.bind (Option.bind (as_array t2) (\<lambda>xs. json_nth (JArr xs) 0)) as_str))"

definition padded_address :: "address \<Rightarrow> string" where
  "padded_address a = ''0x'' @ pad64 (hex_string (address_bytes a))"

definition matches_recipient :: "string option \<Rightarrow> native_transfer_record \<Rightarrow> bool" where
  "matches_recipient req r \<longleftrightarrow>
     (case req of None \<Rightarrow> True
      | Some to' \<Rightarrow> eq_ignore_ascii_case (padded_address (nt_to r)) to' \<or>
                    eq_ignore_ascii_case (prefixed_address (nt_to r)) to')"

definition transfer_log :: "u256_parser \<Rightarrow> native_transfer_record \<Rightarrow> json" where
  "transfer_log u256_parse r =
     JObj [(''address'', JStr ''0x0000000000000000000000000000000000000000''),
       (''topics'', JArr [JStr ''0xddf252ad1be2c89b69c2b068fc378daa952ba7f163c4a11628f55a4df523b3ef'',
          JStr (padded_address (nt_from r)), JStr (padded_address (nt_to r))]),
       (''data'', JStr (''0x'' @ pad64 (record_value u256_parse r))),
       (''blockHash'', JStr (prefixed_hash (nt_hash r))), (''blockNumber'', JStr (nt_block_number r)),
       (''transactionHash'', JStr (prefixed_hash (nt_hash r))), (''transactionIndex'', JStr ''0x0''),
       (''logIndex'', JStr ''0x0''), (''removed'', JBool False)]"

fun collect_transfers ::
  "string option \<Rightarrow> string set \<Rightarrow> native_transfer_record list \<Rightarrow> native_transfer_record list" where
  "collect_transfers req seen [] = []"
| "collect_transfers req seen (r # rs) =
     (let key = prefixed_hash (nt_hash r) in
      if key \<in> seen then collect_transfers req seen rs
      else if \<not> matches_recipient req r then collect_transfers req seen rs
      else r # collect_transfers req (insert key seen) rs)"

definition synthesize_transfer_logs ::
  "u256_parser \<Rightarrow> address list \<Rightarrow> memory_state \<Rightarrow> json \<Rightarrow> json list" where
  "synthesize_transfer_logs u256_parse order st flt =
     map (transfer_log u256_parse) (collect_transfers (filter_recipient flt) {} (indexed_records order st))"

subsection \<open>Blocks\<close>

definition is_tx :: "string \<Rightarrow> json \<Rightarrow> bool" where
  "is_tx hash_str t =
     (case as_str t of
        Some s \<Rightarrow> eq_ignore_ascii_case s hash_str
      | None \<Rightarrow> (case as_str (json_field t ''hash'') of
                    Some s \<Rightarrow> eq_ignore_ascii_case s hash_str
                  | None \<Rightarrow> False))"

definition inject_record ::
  "u256_parser \<Rightarrow> bool \<Rightarrow> string \<Rightarrow> string \<Rightarrow> json list \<Rightarrow> native_transfer_record \<Rightarrow> json list" where
  "inject_record u256_parse full_txs block_hash block_number txs r =
     (let n = block_num block_number; hash_str = prefixed_hash (nt_hash r) in
      if block_num (nt_block_number r) \<noteq> n \<and> 0 < n then txs
      else if \<exists>t \<in> set txs. is_tx hash_str t then txs
      else txs @ [if full_txs then tx_object u256_parse block_hash block_number hash_str r
                  else JStr hash_str])"

text \<open>
  Writing through \<open>enriched["result"]["transactions"]\<close> inserts a null under a missing key.
\<close>

definition inject_history_into_block ::
  "u256_parser \<Rightarrow> address list \<Rightarrow> memory_state \<Rightarrow> json \<Rightarrow> bool \<Rightarrow> json" where
  "inject_history_into_block u256_parse order st response full_txs =
     (case json_field response ''result'' of
        JObj block \<Rightarrow>
          (case (Option.bind (map_of block ''hash'') as_str, Option.bind (map_of block ''number'') as_str) of
             (Some block_hash, Some block_number) \<Rightarrow>
               (let txs = (case json_field (JObj block) ''transactions'' of
                      JArr ts \<Rightarrow> JArr (foldl (inject_record u256_parse full_txs block_hash block_number) ts
                                   (indexed_records order st))
                    | other \<Rightarrow> other)
                in json_set ''result'' (json_set ''transactions'' txs (JObj block)) response)
           | _ \<Rightarrow> response)
      | _ \<Rightarrow> response)"

subsection \<open>Notifications\<close>

definition hash_of_intent :: "string \<Rightarrow> native_transfer_record \<Rightarrow> bool" where
  "hash_of_intent target r \<longleftrightarrow> eq_ignore_ascii_case (hex_string (b256_bytes (nt_hash r))) target"

definition wallet_get_notification :: "address list \<Rightarrow> memory_state \<Rightarrow> string \<Rightarrow> json" where
  "wallet_get_notification order st intent_id =
     (let target = (case strip_prefix intent_id ''intent_'' of Some t \<Rightarrow> t | None \<Rightarrow> intent_id);
          completed = (\<lambda>h. JObj [(''intentId'', JStr intent_id), (''status'', JStr ''completed''), (''txHash'', JStr h)])
      in if intent_id = ''intent_tx_9999''
         then completed (''0x'' @ replicate 64 (CHR ''9''))
         else case find (hash_of_intent target) (indexed_records order st) of
             Some r \<Rightarrow> completed (prefixed_hash (nt_hash r))
           | None \<Rightarrow> JObj [(''error'', JObj [(''code'', JInt (- 32004)), (''message'', JStr ''Intent not found''),
               (''data'', JObj [(''intentId'', JStr intent_id), (''caip'', JStr ''caip-404'')])])])"

section \<open>The invariant\<close>

definition index_inv :: "memory_state \<Rightarrow> bool" where
  "index_inv st \<longleftrightarrow> (\<forall>a. length (history_of st a) \<le> max_per_addr \<and>
     distinct (map nt_hash (history_of st a)) \<and>
     (\<forall>r \<in> set (history_of st a). a = nt_from r \<or> a = nt_to r))"

lemma index_inv_default: "index_inv memory_state_default"
  by (simp add: index_inv_def history_of_def memory_state_default_def)

lemma backfill_keys [simp]:
  "nt_hash (backfill new old) = nt_hash old" "nt_from (backfill new old) = nt_from old"
  "nt_to (backfill new old) = nt_to old" "nt_timestamp (backfill new old) = nt_timestamp old"
  by (simp_all add: backfill_def Let_def)

lemma length_update_first [simp]: "length (update_first P f xs) = length xs"
  by (induction xs) simp_all

lemma map_update_first: "(\<And>x. g (f x) = g x) \<Longrightarrow> map g (update_first P f xs) = map g xs"
  by (induction xs) simp_all

lemma set_update_first: "set (update_first P f xs) \<subseteq> set xs \<union> f ` set xs"
  by (induction xs) auto

lemma distinct_index_into:
  assumes "distinct (map nt_hash l)"
  shows "distinct (map nt_hash (index_into now new l))"
proof -
  let ?fresh = "[r\<leftarrow>l. saturating_sub now (nt_timestamp r) < hot_ttl]"
  let ?same = "\<lambda>r. nt_hash r = nt_hash new"
  have "distinct (map nt_hash ?fresh)" using assms by (rule distinct_map_filter)
  then have "distinct (map nt_hash (update_first ?same (backfill new) ?fresh))"
    and "\<not> (\<exists>r \<in> set ?fresh. ?same r) \<Longrightarrow> distinct (map nt_hash (?fresh @ [new]))"
    by (auto simp: map_update_first)
  then have "distinct (map nt_hash (if \<exists>r \<in> set ?fresh. ?same r
      then update_first ?same (backfill new) ?fresh else ?fresh @ [new]))"
    by (cases "\<exists>r \<in> set ?fresh. ?same r") simp_all
  then show ?thesis
    unfolding index_into_def Let_def drop_map [symmetric] by (rule distinct_drop)
qed

lemma length_index_into: "length (index_into now new l) \<le> max_per_addr"
  by (simp add: index_into_def Let_def)

lemma set_index_into:
  assumes "r \<in> set (index_into now new l)"
  shows "r = new \<or> (\<exists>old \<in> set l. r = old \<or> r = backfill new old)"
  using assms set_update_first by (fastforce simp: index_into_def Let_def dest: in_set_dropD split: if_splits)

lemma history_of_index_under:
  "history_of (index_under now new a st) b = (if b = a then index_into now new (history_of st a) else history_of st b)"
  by (simp add: history_of_def index_under_def)

lemma index_inv_under:
  assumes "index_inv st" and "a = nt_from new \<or> a = nt_to new"
  shows "index_inv (index_under now new a st)"
  unfolding index_inv_def
proof (intro allI conjI ballI)
  fix b
  note inv = assms(1) [unfolded index_inv_def, rule_format, of b]
  show "length (history_of (index_under now new a st) b) \<le> max_per_addr"
    using inv by (simp add: history_of_index_under length_index_into)
  show "distinct (map nt_hash (history_of (index_under now new a st) b))"
    using assms(1) distinct_index_into [of "history_of st b"] inv
    by (auto simp: history_of_index_under)
  fix r assume "r \<in> set (history_of (index_under now new a st) b)"
  then show "b = nt_from r \<or> b = nt_to r"
    using inv assms(2) by (auto simp: history_of_index_under dest!: set_index_into split: if_splits)
qed

lemma index_inv_add: "index_inv st \<Longrightarrow> index_inv (add_native_transfer_record now st new)"
  unfolding add_native_transfer_record_def by (intro index_inv_under) auto

section \<open>Lookups\<close>

lemma new_in_index_into:
  assumes "length l \<le> max_per_addr"
  shows "\<exists>r \<in> set (index_into now new l). nt_hash r = nt_hash new"
proof -
  let ?fresh = "[r\<leftarrow>l. saturating_sub now (nt_timestamp r) < hot_ttl]"
  let ?u = "update_first (\<lambda>r. nt_hash r = nt_hash new) (backfill new) ?fresh"
  show ?thesis
  proof (cases "\<exists>r \<in> set ?fresh. nt_hash r = nt_hash new")
    case True
    have "length ?fresh \<le> max_per_addr" using assms length_filter_le le_trans by blast
    then have "index_into now new l = ?u" using True by (simp add: index_into_def Let_def)
    moreover have "nt_hash ` set ?u = nt_hash ` set ?fresh"
      by (simp only: list.set_map [symmetric] map_update_first [where g = nt_hash, OF backfill_keys(1)])
    moreover have "nt_hash new \<in> nt_hash ` set ?fresh" using True by (metis image_eqI)
    ultimately show ?thesis by (metis imageE)
  next
    case False
    have "length (?fresh @ [new]) - max_per_addr \<le> length ?fresh" by (simp add: max_per_addr_def)
    then have "new \<in> set (drop (length (?fresh @ [new]) - max_per_addr) (?fresh @ [new]))"
      by (simp only: drop_append) (simp add: max_per_addr_def)
    then show ?thesis using False by (auto simp: index_into_def Let_def simp del: drop_append)
  qed
qed

text \<open>An added transfer is in the histories of both parties.\<close>

lemma add_found:
  assumes "index_inv st" and "a = nt_from new \<or> a = nt_to new"
  shows "\<exists>r \<in> set (history_of (add_native_transfer_record now st new) a). nt_hash r = nt_hash new"
proof -
  let ?st = "index_under now new (nt_from new) st"
  have "index_inv ?st" using assms(1) by (rule index_inv_under) simp
  then have l: "length (history_of st b) \<le> max_per_addr" "length (history_of ?st b) \<le> max_per_addr" for b
    using assms(1) by (simp_all add: index_inv_def)
  show ?thesis
    using assms(2) new_in_index_into [OF l(1)] new_in_index_into [OF l(2)]
    by (auto simp: add_native_transfer_record_def history_of_index_under)
qed

lemma add_other_history:
  "a \<noteq> nt_from new \<Longrightarrow> a \<noteq> nt_to new \<Longrightarrow>
     history_of (add_native_transfer_record now st new) a = history_of st a"
  by (simp add: add_native_transfer_record_def history_of_index_under)

lemma trim_prefixed_hash: "trim (prefixed_hash h) = prefixed_hash h"
proof -
  have s: "\<not> is_space c" if "c \<in> set (prefixed_hash h)" for c
    using that set_hex_string [of "b256_bytes h"] hex_char_not [of c]
    by (auto simp: prefixed_hash_def is_space_def)
  have d: "dropWhile is_space xs = xs" if "\<And>c. c \<in> set xs \<Longrightarrow> \<not> is_space c" for xs
    using that by (cases xs) auto
  have "dropWhile is_space (prefixed_hash h) = prefixed_hash h"
    "dropWhile is_space (rev (prefixed_hash h)) = rev (prefixed_hash h)"
    by (rule d, rule s, simp)+
  then show ?thesis by (simp only: trim_def rev_rev_ident)
qed

lemma find_by_hash_prefixed:
  "find_by_hash order st (prefixed_hash h) = find (\<lambda>r. nt_hash r = h) (indexed_records order st)"
  by (simp add: find_by_hash_def trim_prefixed_hash prefixed_hash_inject)

lemma find_by_hash_indexed:
  assumes "dom (native_history st) \<subseteq> set order"
    and "r \<in> set (history_of st a)" and "nt_hash r = h"
  shows "\<exists>r'. find_by_hash order st (prefixed_hash h) = Some r' \<and> nt_hash r' = h"
proof -
  have "a \<in> set order"
    using assms(1,2) by (cases "native_history st a") (auto simp: history_of_def)
  then have "r \<in> set (indexed_records order st)" using assms(2) by (auto simp: indexed_records_def)
  then have "find (\<lambda>r. nt_hash r = h) (indexed_records order st) \<noteq> None"
    using assms(3) by (auto simp: find_None_iff)
  then show ?thesis by (auto simp: find_by_hash_prefixed find_Some_iff)
qed

section \<open>The synthetic logs\<close>

lemma collect_transfers_Cons:
  "collect_transfers req seen (r # rs) =
     (if prefixed_hash (nt_hash r) \<in> seen \<or> \<not> matches_recipient req r then collect_transfers req seen rs
      else r # collect_transfers req (insert (prefixed_hash (nt_hash r)) seen) rs)"
  by (simp add: Let_def)

declare collect_transfers.simps(2) [simp del]

lemma collect_transfers_subset: "set (collect_transfers req seen rs) \<subseteq> {r \<in> set rs. matches_recipient req r}"
  by (induction rs arbitrary: seen) (auto simp: collect_transfers_Cons)

lemma collect_transfers_unseen:
  "r \<in> set (collect_transfers req seen rs) \<Longrightarrow> prefixed_hash (nt_hash r) \<notin> seen"
  by (induction rs arbitrary: seen) (auto simp: collect_transfers_Cons split: if_splits)

lemma collect_transfers_distinct: "distinct (map nt_hash (collect_transfers req seen rs))"
proof (induction rs arbitrary: seen)
  case (Cons r rs)
  have "nt_hash x \<noteq> nt_hash r"
    if "x \<in> set (collect_transfers req (insert (prefixed_hash (nt_hash r)) seen) rs)" for x
    using collect_transfers_unseen [OF that] by auto
  with Cons.IH show ?case by (force simp: collect_transfers_Cons)
qed simp

lemma collect_transfers_complete:
  "r \<in> set rs \<Longrightarrow> matches_recipient req r \<Longrightarrow> prefixed_hash (nt_hash r) \<notin> seen \<Longrightarrow>
     nt_hash r \<in> nt_hash ` set (collect_transfers req seen rs)"
proof (induction rs arbitrary: seen)
  case (Cons x rs)
  show ?case
  proof (cases "x = r \<or> nt_hash x = nt_hash r \<and> matches_recipient req x")
    case True
    with Cons.prems show ?thesis by (auto simp: collect_transfers_Cons)
  next
    case False
    then have "r \<in> set rs" using Cons.prems(1) by auto
    moreover have "prefixed_hash (nt_hash r) \<notin> insert (prefixed_hash (nt_hash x)) seen"
      if "matches_recipient req x" using False Cons.prems(3) that by (auto simp: prefixed_hash_inject)
    ultimately show ?thesis
      using Cons.IH Cons.prems(2,3) by (simp add: collect_transfers_Cons image_iff)
  qed
qed simp

end
