(* ===== verification/Caip_Rpc.thy ===== *)
theory Caip_Rpc
  imports Http_Frame Hot_Index Archival
begin

text \<open>
  The RPC proxy (\<open>crates/node/src/caip_rpc.rs\<close>): the node's shared state is the registry, the hot
  index and the chain identifier; a request is the text that was read off a connection, and a
  reply the JSON body that is sent. Locks are held for single accesses in the source; here a
  request runs as one step. The execution client, the clock, the iteration orders of the
  hash maps, the parsers and the transaction codec are parameters.
\<close>

section \<open>Parameters and state\<close>

text \<open>\<open>TxEnvelope\<close> of the consensus crate, by what the proxy reads of it.\<close>

datatype tx_kind = LegacyTx | Eip2930Tx | Eip1559Tx | Eip4844Tx | OtherTx

record tx_envelope =
  env_kind :: tx_kind
  env_chain_id :: "u64 option"
  env_to :: "address option"
  env_value :: u256
  env_input :: bytes
  env_parity :: bool
  env_r :: u256
  env_s :: u256

record rpc_lib =
  rl_did :: did_lib
  rl_scale :: scale_lib
  rl_json :: "string \<Rightarrow> json option"
  rl_address :: address_parser
  rl_hash :: "string \<Rightarrow> b256 option"
  rl_u256 :: u256_parser
  rl_u256_hex :: u256_parser
  rl_hex :: "string \<Rightarrow> bytes option"
  rl_tx :: "bytes \<Rightarrow> tx_envelope option"
  rl_signer :: "tx_envelope \<Rightarrow> address option"
  rl_prehash_verify :: "bytes \<Rightarrow> b256 \<Rightarrow> bytes \<Rightarrow> bool"
  rl_checksum :: "address \<Rightarrow> string"
  rl_u256_show :: "u256 \<Rightarrow> string"

text \<open>What surrounds one request; \<open>reth\<close> is the execution client's answer to a body.\<close>

record rpc_env =
  now_ms :: u64
  now_s :: u64
  nanos :: nat
  reg_order :: "validator_registry \<Rightarrow> iteration"
  hot_order :: "memory_state \<Rightarrow> address list"
  reth :: "json \<Rightarrow> (json, string) outcome"

record rpc_node =
  rn_registry :: validator_registry
  rn_hot :: memory_state
  rn_chain_id :: u64

text \<open>The start of \<open>run_proxy\<close>, and the answer to its chain identifier query.\<close>

definition set_chain_id :: "u64 \<Rightarrow> rpc_node \<Rightarrow> rpc_node" where
  "set_chain_id c node = node\<lparr>rn_chain_id := c, rn_registry := (rn_registry node)\<lparr>vr_chain_id := c\<rparr>\<rparr>"

definition chain_id_answer :: "json \<Rightarrow> u64 option" where
  "chain_id_answer res =
     Option.bind (as_str (json_field res ''result'')) (\<lambda>s. u64_from_hex (trim_start_matches ''0x'' s))"

section \<open>Replies\<close>

datatype reply = OptionsReply | JsonReply json

definition send_error :: "json \<Rightarrow> int \<Rightarrow> string \<Rightarrow> reply" where
  "send_error rid code msg = JsonReply (JObj [(''jsonrpc'', JStr ''2.0''),
     (''error'', JObj [(''code'', JInt code), (''message'', JStr msg)]), (''id'', rid)])"

definition reply_with :: "json \<Rightarrow> json \<Rightarrow> reply" where
  "reply_with rid result = JsonReply (JObj [(''jsonrpc'', JStr ''2.0''), (''result'', result), (''id'', rid)])"

definition send_result :: "json \<Rightarrow> json \<Rightarrow> reply" where
  "send_result rid result =
     (case json_get result ''error'' of
        Some e \<Rightarrow> JsonReply (JObj [(''jsonrpc'', JStr ''2.0''), (''error'', e), (''id'', rid)])
      | None \<Rightarrow> reply_with rid result)"

definition extract_result :: "json \<Rightarrow> json" where
  "extract_result res = (if json_get res ''error'' \<noteq> None then res else json_field res ''result'')"

definition param :: "json \<Rightarrow> nat \<Rightarrow> json" where
  "param body i = json_index (json_field body ''params'') i"

section \<open>Registering a DID\<close>

definition registration_message :: "string \<Rightarrow> u64 \<Rightarrow> string" where
  "registration_message did nonce = ''registerDid:'' @ did @ '':'' @ decimal (unat nonce)"

definition nonce_distance :: "u64 \<Rightarrow> u64 \<Rightarrow> u64" where
  "nonce_distance now nonce = (if nonce < now then now - nonce else nonce - now)"

definition ownership_verified ::
  "rpc_lib \<Rightarrow> sovereign_did_document \<Rightarrow> string \<Rightarrow> u64 \<Rightarrow> bytes \<Rightarrow> bool" where
  "ownership_verified lib doc did nonce sig_bytes \<longleftrightarrow>
     (let sig = (if length sig_bytes = 65 then take 64 sig_bytes else sig_bytes);
          digest = keccak256 (dl_crypto (rl_did lib)) (as_bytes (registration_message did nonce))
      in k256_key_ok (dl_crypto (rl_did lib)) (secp256k1_pubkey doc) \<and>
         k256_sig_ok (dl_crypto (rl_did lib)) sig \<and>
         rl_prehash_verify lib (secp256k1_pubkey doc) digest sig)"

fun registry_error_text :: "registry_error \<Rightarrow> string" where
  "registry_error_text PeerTwoDeprecated =
     ''Sovereign DID Error: did:peer:2 is deprecated and no longer supported. Please use did:peer:4.''"
| "registry_error_text UnresolvableDid =
     ''Failed to resolve Sovereign DID document synchronously. Ensure it is a valid did:peer:4 or did:sovereign format.''"
| "registry_error_text MissingKeys =
     ''Sovereign DID Error: DID is missing required verification keys. A fully registered identity requires all 7 keys (Secp256k1, Ed25519, BLS, ML-DSA, SLH-DSA, Falcon, XMSS).''"
| "registry_error_text AddressAlreadyRegistered =
     ''Sovereign DID Error: EVM Address is already registered to a complete identity.''"

definition rpc_register_did ::
  "rpc_lib \<Rightarrow> rpc_env \<Rightarrow> rpc_node \<Rightarrow> json \<Rightarrow> json \<Rightarrow> rpc_node \<times> reply" where
  "rpc_register_did lib env node rid body =
     (let did = str_or '''' (param body 0);
          nonce = (case Option.bind (json_nth (json_field body ''params'') 1) as_u64 of Some n \<Rightarrow> n | None \<Rightarrow> 0);
          sig_hex = (case Option.bind (json_nth (json_field body ''params'') 2) as_str of Some s \<Rightarrow> s | None \<Rightarrow> '''')
      in case from_did_string (rl_did lib) did of
           None \<Rightarrow> (node, send_error rid (- 32603) ''Invalid DID URI string or multihash mismatch'')
         | Some doc \<Rightarrow>
             if 300000 < nonce_distance (now_ms env) nonce
             then (node, send_error rid (- 32002) ''Registration error: Nonce timestamp is expired or out of sync'')
             else (case rl_hex lib (case strip_prefix sig_hex ''0x'' of Some s \<Rightarrow> s | None \<Rightarrow> sig_hex) of
                 None \<Rightarrow> (node, send_error rid (- 32003) ''Registration error: Invalid signature hex'')
               | Some sig_bytes \<Rightarrow>
                   if \<not> ownership_verified lib doc did nonce sig_bytes
                   then (node, send_error rid (- 32003) ''Registration error: Signature verification failed. Key ownership proof mismatch.'')
                   else (case register_user_did (rl_did lib) (rl_address lib)
                                (reg_order env (rn_registry node)) (now_s env) (rn_registry node) did of
                       Ok (addr, reg) \<Rightarrow> (node\<lparr>rn_registry := reg\<rparr>,
                         send_result rid (JObj [(''status'', JStr ''success''), (''address'', JStr (rl_checksum lib addr))]))
                     | Err e \<Rightarrow> (node, send_error rid (- 32603) (registry_error_text e))
                     | Panic \<Rightarrow> (node, send_error rid (- 32603) []))))"

definition fully_registered :: "rpc_lib \<Rightarrow> rpc_env \<Rightarrow> rpc_node \<Rightarrow> string \<Rightarrow> bool" where
  "fully_registered lib env node did =
     is_did_fully_registered (rl_did lib) (rl_address lib) (reg_order env (rn_registry node))
       (rn_registry node) did"

definition wallet_request_permissions ::
  "rpc_lib \<Rightarrow> rpc_env \<Rightarrow> rpc_node \<Rightarrow> string \<Rightarrow> json \<Rightarrow> json \<Rightarrow> reply" where
  "wallet_request_permissions lib env node request rid body =
     (if (case extract_header request ''x-sovereign-did'' of
            Some did \<Rightarrow> fully_registered lib env node did | None \<Rightarrow> False)
      then send_result rid (JObj [(''sessionId'', JStr (''sess_'' @ decimal (nanos env))),
             (''permissions'', param body 0), (''status'', JStr ''authorized'')])
      else send_error rid (- 32001) ''Active DID not registered. Please onboard via sovereign_registerDid first.'')"

section \<open>Transactions\<close>

definition decode_tx :: "rpc_lib \<Rightarrow> string \<Rightarrow> tx_envelope option" where
  "decode_tx lib raw = Option.bind (strip_prefix raw ''0x'') (\<lambda>s. Option.bind (rl_hex lib s) (rl_tx lib))"

definition decode_sender :: "rpc_lib \<Rightarrow> string \<Rightarrow> address option" where
  "decode_sender lib raw = Option.bind (decode_tx lib raw) (rl_signer lib)"

definition signature_texts :: "tx_envelope \<Rightarrow> string \<times> string \<times> string" where
  "signature_texts tx =
     (let rs = (''0x'' @ lower_hex (unat (env_r tx)), ''0x'' @ lower_hex (unat (env_s tx))) in
      case env_kind tx of
        LegacyTx \<Rightarrow> (''0x'' @ lower_hex (if env_parity tx then 28 else 27), rs)
      | OtherTx \<Rightarrow> (''0x1c'', ''0x0'', ''0x0'')
      | _ \<Rightarrow> (''0x'' @ lower_hex (if env_parity tx then 1 else 0), rs))"

text \<open>An unknown recipient gets a placeholder DID with a zero peer key.\<close>

definition ensure_placeholder :: "u64 \<Rightarrow> address \<Rightarrow> validator_registry \<Rightarrow> validator_registry" where
  "ensure_placeholder chain a reg =
     (if a \<in> dom (address_to_did reg) then reg
      else (let p = ''did:sovereign:'' @ decimal (unat chain) @ '':'' @ hex_string (address_bytes a) in
        reg\<lparr>peer_keys := (peer_keys reg)(p \<mapsto> 0),
            address_to_did := (address_to_did reg)(a \<mapsto> p)\<rparr>))"

definition indexable :: "u64 \<Rightarrow> tx_envelope \<Rightarrow> address option" where
  "indexable chain tx =
     (if (case env_chain_id tx of Some c \<Rightarrow> c \<noteq> chain | None \<Rightarrow> False) then None
      else case env_to tx of
             None \<Rightarrow> None
           | Some a \<Rightarrow> if env_value tx = 0 \<or> env_input tx \<noteq> [] then None else Some a)"

definition index_from_raw_tx ::
  "rpc_lib \<Rightarrow> rpc_env \<Rightarrow> rpc_node \<Rightarrow> string \<Rightarrow> b256 \<Rightarrow> address \<Rightarrow> rpc_node" where
  "index_from_raw_tx lib env node raw h sender =
     (case decode_tx lib raw of
        None \<Rightarrow> node
      | Some tx \<Rightarrow>
          (case indexable (rn_chain_id node) tx of
             None \<Rightarrow> node
           | Some to' \<Rightarrow>
               (let (v, r, s) = signature_texts tx;
                    reg = ensure_placeholder (rn_chain_id node) to' (rn_registry node);
                    new = \<lparr>nt_hash = h, nt_block_hash = None,
                      nt_block_number = ''0x'' @ lower_hex (unat (scanned_block (rn_hot node) + 1)),
                      nt_from = sender, nt_from_did = get_did_by_address reg sender,
                      nt_to = to', nt_to_did = get_did_by_address reg to',
                      nt_value = rl_u256_show lib (env_value tx), nt_timestamp = now_s env,
                      nt_v = v, nt_r = r, nt_s = s\<rparr>
                in node\<lparr>rn_registry := reg, rn_hot := add_native_transfer_record (now_s env) (rn_hot node) new\<rparr>)))"

definition tx_authorized :: "rpc_lib \<Rightarrow> rpc_env \<Rightarrow> rpc_node \<Rightarrow> string \<Rightarrow> string \<Rightarrow> bool" where
  "tx_authorized lib env node request raw =
     (case extract_header request ''x-sovereign-did'' of
        Some did \<Rightarrow> fully_registered lib env node did
      | None \<Rightarrow>
          (case decode_sender lib raw of
             None \<Rightarrow> False
           | Some sender \<Rightarrow>
               (case get_did_by_address (rn_registry node) sender of
                  None \<Rightarrow> False
                | Some did \<Rightarrow> fully_registered lib env node did)))"

definition rpc_send_raw_transaction ::
  "rpc_lib \<Rightarrow> rpc_env \<Rightarrow> rpc_node \<Rightarrow> string \<Rightarrow> json \<Rightarrow> json \<Rightarrow> rpc_node \<times> reply" where
  "rpc_send_raw_transaction lib env node request rid body =
     (let raw = str_or '''' (param body 0) in
      case extract_header request ''x-sovereign-chain-id'' of
        Some ns \<Rightarrow> (node, send_result rid (JObj [(''relayedTo'', JStr ns),
            (''intentId'', JStr (''intent_'' @ hex_string (b256_bytes (keccak256 (dl_crypto (rl_did lib)) (as_bytes raw))))),
            (''status'', JStr ''relayed'')]))
      | None \<Rightarrow>
          if \<not> tx_authorized lib env node request raw
          then (node, send_error rid (- 32001) ''Sovereign Wallet Error: Active DID not registered. Please onboard via sovereign_registerDid first.'')
          else (case reth env body of
              Ok r \<Rightarrow>
                (let result = extract_result r;
                     node' = (case (Option.bind (as_str result) (rl_hash lib), decode_sender lib raw) of
                         (Some h, Some sender) \<Rightarrow> index_from_raw_tx lib env node raw h sender
                       | _ \<Rightarrow> node)
                 in (node', send_result rid result))
            | Err e \<Rightarrow> (node, send_error rid (- 32603) (''Reth forward error: '' @ e))
            | Panic \<Rightarrow> (node, send_error rid (- 32603) [])))"

section \<open>Scanning blocks\<close>

definition address_or_zero :: "rpc_lib \<Rightarrow> json \<Rightarrow> address" where
  "address_or_zero lib v = (case rl_address lib (str_or '''' v) of Some a \<Rightarrow> a | None \<Rightarrow> 0)"

definition sync_tx ::
  "rpc_lib \<Rightarrow> rpc_env \<Rightarrow> validator_registry \<Rightarrow> string \<Rightarrow> string option \<Rightarrow> memory_state \<Rightarrow> json \<Rightarrow> memory_state" where
  "sync_tx lib env reg num_hex block_hash st tx =
     (let from' = address_or_zero lib (json_field tx ''from'');
          to' = address_or_zero lib (json_field tx ''to'');
          h = (case rl_hash lib (str_or '''' (json_field tx ''hash'')) of Some h \<Rightarrow> h | None \<Rightarrow> 0);
          v = (case rl_u256_hex lib (trim_start_matches ''0x'' (str_or ''0x0'' (json_field tx ''value''))) of
                 Some v \<Rightarrow> v | None \<Rightarrow> 0)
      in if 0 < v \<and> from' \<noteq> 0 \<and> to' \<noteq> 0 then
           add_native_transfer_record (now_s env) st
             \<lparr>nt_hash = h, nt_block_hash = block_hash, nt_block_number = num_hex,
              nt_from = from', nt_from_did = get_did_by_address reg from',
              nt_to = to', nt_to_did = get_did_by_address reg to',
              nt_value = rl_u256_show lib v, nt_timestamp = now_s env,
              nt_v = str_or ''0x1c'' (json_field tx ''v''), nt_r = str_or ''0x0'' (json_field tx ''r''),
              nt_s = str_or ''0x0'' (json_field tx ''s'')\<rparr>
         else st)"

definition block_request :: "u64 \<Rightarrow> json" where
  "block_request num = JObj [(''jsonrpc'', JStr ''2.0''), (''method'', JStr ''eth_getBlockByNumber''),
     (''params'', JArr [JStr (''0x'' @ lower_hex (unat num)), JBool True]), (''id'', JInt 9999)]"

text \<open>A block that cannot be fetched is skipped; the next one that can moves the mark past it.\<close>

definition sync_block ::
  "rpc_lib \<Rightarrow> rpc_env \<Rightarrow> validator_registry \<Rightarrow> memory_state \<Rightarrow> u64 \<Rightarrow> memory_state" where
  "sync_block lib env reg st num =
     (case reth env (block_request num) of
        Ok res \<Rightarrow>
          (let block = extract_result res in
           if block = JNull then st
           else (let st' = (case as_array (json_field block ''transactions'') of
                     Some txs \<Rightarrow> foldl (sync_tx lib env reg (''0x'' @ lower_hex (unat num))
                                   (as_str (json_field block ''hash''))) st txs
                   | None \<Rightarrow> st)
                 in st'\<lparr>scanned_block := num\<rparr>))
      | _ \<Rightarrow> st)"

definition block_number_request :: json where
  "block_number_request = JObj [(''jsonrpc'', JStr ''2.0''), (''method'', JStr ''eth_blockNumber''),
     (''params'', JArr []), (''id'', JInt 9999)]"

definition sync_hot_storage ::
  "rpc_lib \<Rightarrow> rpc_env \<Rightarrow> validator_registry \<Rightarrow> memory_state \<Rightarrow> memory_state" where
  "sync_hot_storage lib env reg st =
     (case reth env block_number_request of
        Ok res \<Rightarrow>
          (let latest = block_num (str_or ''0x0'' (json_field res ''result''));
               current = scanned_block st
           in if latest \<le> current then st
              else foldl (sync_block lib env reg) st
                     (map word_of_nat [unat current + 1..<unat latest + 1]))
      | _ \<Rightarrow> st)"

end
