(* ===== verification/Rpc_Proxy.thy ===== *)
theory Rpc_Proxy
  imports Caip_Rpc
begin

text \<open>
  The wallet methods, the dispatch of a request and runs of the proxy (\<open>handle_wallet_method\<close>
  and \<open>run_proxy\<close> of \<open>crates/node/src/caip_rpc.rs\<close>).
\<close>

section \<open>Wallet methods\<close>

definition encode_multibase :: "rpc_lib \<Rightarrow> bytes \<Rightarrow> bytes \<Rightarrow> json" where
  "encode_multibase lib prefix' key = JStr (''z'' @ bs58_encode (rl_did lib) (prefix' @ key))"

definition keys_of_identity :: "rpc_lib \<Rightarrow> validator_registry \<Rightarrow> string \<Rightarrow> json" where
  "keys_of_identity lib reg did =
     (case identities reg did of
        None \<Rightarrow> JNull
      | Some ident \<Rightarrow>
          (let doc = ri_doc ident in
           JObj [(''secp256k1'', encode_multibase lib [0xe7, 0x01] (secp256k1_pubkey doc)),
             (''ed25519'', encode_multibase lib [0xed, 0x01] (ed25519_pubkey doc)),
             (''bls12381'', encode_multibase lib [0xea, 0x01] (bls_pubkey doc)),
             (''mldsa65'', encode_multibase lib [0x93, 0x01] (ml_dsa_pubkey doc)),
             (''slhdsa'', encode_multibase lib [0x94, 0x01] (slh_dsa_pubkey doc)),
             (''falcon'', encode_multibase lib [0x92, 0x01] (falcon_pubkey doc)),
             (''xmss'', encode_multibase lib [0x95, 0x01] (xmss_pubkey doc))]))"

definition address_text :: "address option \<Rightarrow> json" where
  "address_text a = (case a of None \<Rightarrow> JNull | Some a \<Rightarrow> JStr (prefixed_address a))"

definition resolve_query :: "rpc_lib \<Rightarrow> iteration \<Rightarrow> validator_registry \<Rightarrow> string \<Rightarrow> string" where
  "resolve_query lib it reg did =
     (case find_identity_by_any_key (rl_did lib) it reg did of
        Some ident \<Rightarrow> ri_did ident
      | None \<Rightarrow>
          (case extract_address_from_did (rl_did lib) (rl_address lib) did of
             Some a \<Rightarrow> (case get_did_by_address reg a of Some d \<Rightarrow> d | None \<Rightarrow> did)
           | None \<Rightarrow> did))"

definition sovereign_get_did :: "rpc_lib \<Rightarrow> rpc_env \<Rightarrow> validator_registry \<Rightarrow> string \<Rightarrow> json" where
  "sovereign_get_did lib env reg input =
     (let it = reg_order env reg; did = normalize_query_did input; resolved = resolve_query lib it reg did
      in JObj [(''registered'', JBool (is_did_registered (rl_did lib) (rl_address lib) it reg did)),
           (''did'', JStr resolved),
           (''address'', address_text (get_address_by_did (rl_did lib) (rl_address lib) it reg did)),
           (''keys'', keys_of_identity lib reg resolved)])"

definition sovereign_get_did_by_address ::
  "rpc_lib \<Rightarrow> rpc_env \<Rightarrow> validator_registry \<Rightarrow> string \<Rightarrow> json" where
  "sovereign_get_did_by_address lib env reg addr_str =
     (case Option.bind (rl_address lib addr_str) (get_did_by_address reg) of
        Some did \<Rightarrow> JObj [(''registered'', JBool True), (''did'', JStr did),
          (''address'', address_text (get_address_by_did (rl_did lib) (rl_address lib) (reg_order env reg) reg did)),
          (''keys'', keys_of_identity lib reg did)]
      | None \<Rightarrow> JObj [(''registered'', JBool False), (''did'', JNull), (''address'', JStr addr_str), (''keys'', JNull)])"

definition demo_witness :: account_witness where
  "demo_witness = \<lparr>aw_balance = 7500000, aw_nonce = 42, aw_code_hash = b256_of_bytes (replicate 32 0xba),
     aw_code = as_bytes ''somerevmbytecode'', aw_q0 = 3, aw_q1 = 8, aw_q2 = 0, aw_q3 = 2\<rparr>"

text \<open>The daemon is a fresh one over the mock backend, which holds only the demonstration witness.\<close>

definition sovereign_get_stateless_witness :: "rpc_lib \<Rightarrow> string \<Rightarrow> json" where
  "sovereign_get_stateless_witness lib cid =
     (let be = mock_backend (dl_crypto (rl_did lib));
          daemon = fst (archive_account_witness (rl_scale lib) be (daemon_new Map.empty) 65001 demo_witness);
          w = (case resolve_account_witness (rl_scale lib) be daemon cid of Ok w \<Rightarrow> w | _ \<Rightarrow> demo_witness)
      in JObj [(''balance'', JStr (rl_u256_show lib (aw_balance w))), (''nonce'', JInt (uint (aw_nonce w))),
           (''codeHash'', JStr (prefixed_hash (aw_code_hash w))),
           (''quadrantMatrix'', JArr (map (\<lambda>q. JInt (uint q)) [aw_q0 w, aw_q1 w, aw_q2 w, aw_q3 w]))])"

definition wallet_get_asset_metadata :: "string \<Rightarrow> json" where
  "wallet_get_asset_metadata asset =
     (if asset = ''eip155:1/erc20:0xa0b86991c6218b36c1d19d4a2e9eb0ce3606eb48''
      then JObj [(''name'', JStr ''USD Coin''), (''symbol'', JStr ''USDC''), (''decimals'', JInt 6)]
      else JObj [(''error'', JObj [(''code'', JInt (- 32004)),
             (''message'', JStr ''Consensus Required / Saga Intent needed''),
             (''data'', JObj [(''assetId'', JStr asset), (''caip'', JStr ''caip-404'')])])])"

definition handle_wallet_method ::
  "rpc_lib \<Rightarrow> rpc_env \<Rightarrow> rpc_node \<Rightarrow> string \<Rightarrow> json \<Rightarrow> json option" where
  "handle_wallet_method lib env node meth body =
     (let arg = str_or '''' (param body 0) in
      if meth = ''wallet_getPermissions'' then
        Some (JObj [(''status'', JStr ''authorized''), (''scopes'', JArr [JStr ''eip155'', JStr ''solana''])])
      else if meth = ''wallet_revokeSession'' then Some (JBool True)
      else if meth = ''wallet_getSession'' then
        Some (JObj [(''status'', JStr ''active''),
          (''chains'', JArr [JStr ''eip155:1'', JStr ''solana:5eykt4UsFv8P8NJdTREpY1vzqKqZKvdp''])])
      else if meth = ''wallet_getNotification'' then
        Some (wallet_get_notification (hot_order env (rn_hot node)) (rn_hot node) arg)
      else if meth = ''wallet_pay'' then Some (JObj [(''status'', JStr ''paid'')])
      else if meth = ''wallet_signMessage'' then Some (JStr ''0x1234567890abcdef'')
      else if meth = ''wallet_getAssetMetadata'' then Some (wallet_get_asset_metadata arg)
      else if meth = ''sovereign_getDid'' then Some (sovereign_get_did lib env (rn_registry node) arg)
      else if meth = ''sovereign_getDidByAddress'' then
        Some (sovereign_get_did_by_address lib env (rn_registry node) arg)
      else if meth = ''sovereign_getStatelessWitness'' then Some (sovereign_get_stateless_witness lib arg)
      else if starts_with meth ''wallet_'' \<or> starts_with meth ''sovereign_'' then Some JNull
      else None)"

section \<open>Block parameters\<close>

definition normalize_block_param :: "string \<Rightarrow> string" where
  "normalize_block_param p =
     (if p \<in> {''latest'', ''earliest'', ''pending'', ''safe'', ''finalized''} then p
      else if starts_with p ''0x'' then
        (let digits = trim_start_matches ''0'' (trim_start_matches ''0x'' p)
         in if digits = [] then ''0x0'' else ''0x'' @ digits)
      else p)"

text \<open>\<open>body["params"][0] = x\<close>, where the parameter is known to be there\<close>

definition set_first_param :: "json \<Rightarrow> json \<Rightarrow> json" where
  "set_first_param x body =
     (case json_field body ''params'' of
        JArr (_ # ps) \<Rightarrow> json_set ''params'' (JArr (x # ps)) body
      | _ \<Rightarrow> body)"

section \<open>Dispatch\<close>

definition synced :: "rpc_lib \<Rightarrow> rpc_env \<Rightarrow> rpc_node \<Rightarrow> rpc_node" where
  "synced lib env node = node\<lparr>rn_hot := sync_hot_storage lib env (rn_registry node) (rn_hot node)\<rparr>"

definition rpc_get_block :: "rpc_lib \<Rightarrow> rpc_env \<Rightarrow> rpc_node \<Rightarrow> json \<Rightarrow> rpc_node \<times> reply" where
  "rpc_get_block lib env node body =
     (let node = synced lib env node;
          normalized = (case as_str (param body 0) of
              Some p \<Rightarrow> set_first_param (JStr (normalize_block_param p)) body | None \<Rightarrow> body);
          full_txs = (case Option.bind (json_nth (json_field body ''params'') 1) as_bool of
              Some b \<Rightarrow> b | None \<Rightarrow> False);
          res = (case reth env normalized of Ok r \<Rightarrow> r | _ \<Rightarrow> JNull)
      in (node, JsonReply (inject_history_into_block (rl_u256 lib) (hot_order env (rn_hot node))
                  (rn_hot node) res full_txs)))"

text \<open>The client's own answer when it has one, and what the index has otherwise.\<close>

definition rpc_with_fallback ::
  "rpc_lib \<Rightarrow> rpc_env \<Rightarrow> rpc_node \<Rightarrow> json \<Rightarrow> json \<Rightarrow> (rpc_node \<Rightarrow> string \<Rightarrow> json) \<Rightarrow> rpc_node \<times> reply" where
  "rpc_with_fallback lib env node rid body fallback =
     (let node = synced lib env node;
          local' = reply_with rid (fallback node (str_or '''' (param body 0)))
      in (node, case reth env body of
                  Ok r \<Rightarrow> (case json_get r ''result'' of
                      Some v \<Rightarrow> if v \<noteq> JNull then JsonReply r else local'
                    | None \<Rightarrow> local')
                | _ \<Rightarrow> local'))"

definition rpc_get_logs :: "rpc_lib \<Rightarrow> rpc_env \<Rightarrow> rpc_node \<Rightarrow> json \<Rightarrow> json \<Rightarrow> rpc_node \<times> reply" where
  "rpc_get_logs lib env node rid body =
     (let node = synced lib env node;
          real_logs = (case reth env body of
              Ok r \<Rightarrow> (case as_array (json_field r ''result'') of Some xs \<Rightarrow> xs | None \<Rightarrow> [])
            | _ \<Rightarrow> []);
          flt = (case json_nth (json_field body ''params'') 0 of Some f \<Rightarrow> f | None \<Rightarrow> JObj [])
      in (node, reply_with rid (JArr (real_logs @
            synthesize_transfer_logs (rl_u256 lib) (hot_order env (rn_hot node)) (rn_hot node) flt))))"

definition passthrough :: "rpc_env \<Rightarrow> json \<Rightarrow> json \<Rightarrow> reply" where
  "passthrough env rid body =
     (case reth env body of
        Ok r \<Rightarrow> JsonReply r
      | Err e \<Rightarrow> send_error rid (- 32603) (''Reth forward error: '' @ e)
      | Panic \<Rightarrow> send_error rid (- 32603) [])"

definition request_body :: "rpc_lib \<Rightarrow> string \<Rightarrow> json" where
  "request_body lib request =
     (let start = (case find_sub request crlf2 of Some i \<Rightarrow> i + 4 | None \<Rightarrow> 0)
      in case rl_json lib (drop start request) of Some v \<Rightarrow> v | None \<Rightarrow> JNull)"

definition rpc_handle :: "rpc_lib \<Rightarrow> rpc_env \<Rightarrow> rpc_node \<Rightarrow> string \<Rightarrow> rpc_node \<times> reply" where
  "rpc_handle lib env node request =
     (if starts_with request ''OPTIONS'' then (node, OptionsReply)
      else
        (let body = request_body lib request;
             meth = str_or '''' (json_field body ''method'');
             rid = json_field body ''id''
         in if meth = ''sovereign_registerDid'' then rpc_register_did lib env node rid body
            else if meth = ''wallet_requestPermissions'' then
              (node, wallet_request_permissions lib env node request rid body)
            else case handle_wallet_method lib env node meth body of
                Some result \<Rightarrow> (node, send_result rid result)
              | None \<Rightarrow>
                  if meth = ''eth_sendRawTransaction'' then rpc_send_raw_transaction lib env node request rid body
                  else if meth = ''eth_getBlockByNumber'' then rpc_get_block lib env node body
                  else if meth = ''eth_getTransactionByHash'' then
                    rpc_with_fallback lib env node rid body (\<lambda>node.
                      get_tx_by_hash (rl_u256 lib) (hot_order env (rn_hot node)) (rn_hot node))
                  else if meth = ''eth_getTransactionReceipt'' then
                    rpc_with_fallback lib env node rid body (\<lambda>node.
                      get_receipt_by_hash (hot_order env (rn_hot node)) (rn_hot node))
                  else if meth = ''eth_getLogs'' then rpc_get_logs lib env node rid body
                  else (node, passthrough env rid body)))"

section \<open>Runs\<close>

text \<open>
  What happens to a node: a request arrives in some environment, or the execution client
  answers the query for its chain identifier.
\<close>

datatype proxy_event = Request rpc_env string | ChainIdAnswer json

inductive proxy_step :: "rpc_lib \<Rightarrow> rpc_node \<Rightarrow> proxy_event \<Rightarrow> rpc_node \<Rightarrow> bool"
  for lib :: rpc_lib where
  step_request: "rpc_handle lib env node request = (node', r) \<Longrightarrow> proxy_step lib node (Request env request) node'"
| step_chain_id: "chain_id_answer res = Some c \<Longrightarrow> proxy_step lib node (ChainIdAnswer res) (set_chain_id c node)"

inductive proxy_run :: "rpc_lib \<Rightarrow> rpc_node \<Rightarrow> proxy_event list \<Rightarrow> rpc_node \<Rightarrow> bool"
  for lib :: rpc_lib where
  proxy_nil: "proxy_run lib node [] node"
| proxy_snoc: "proxy_run lib node es b \<Longrightarrow> proxy_step lib b e c \<Longrightarrow> proxy_run lib node (es @ [e]) c"

inductive_cases proxy_step_elim: "proxy_step lib node e node'"

definition initial_node :: "u64 \<Rightarrow> validator_registry \<Rightarrow> rpc_node" where
  "initial_node chain reg = set_chain_id chain
     \<lparr>rn_registry = reg, rn_hot = memory_state_default, rn_chain_id = 1337\<rparr>"

text \<open>An invariant of the registry's and the index's own operations is one of every run.\<close>

lemma rpc_handle_cases:
  assumes "rpc_handle lib env node request = (node', r)"
  shows "node' = node \<or>
    (\<exists>rid body. rpc_register_did lib env node rid body = (node', r)) \<or>
    (\<exists>rid body. rpc_send_raw_transaction lib env node request rid body = (node', r)) \<or>
    node' = synced lib env node"
proof -
  have s: "fst (rpc_get_block lib env node body) = synced lib env node"
    "fst (rpc_with_fallback lib env node rid body f) = synced lib env node"
    "fst (rpc_get_logs lib env node rid body) = synced lib env node" for body rid f
    by (simp_all add: rpc_get_block_def rpc_with_fallback_def rpc_get_logs_def Let_def)
  show ?thesis
  proof (cases "starts_with request ''OPTIONS''")
    case False
    let ?body = "request_body lib request"
    let ?meth = "str_or '''' (json_field ?body ''method'')"
    let ?rid = "json_field ?body ''id''"
    note h = assms [unfolded rpc_handle_def Let_def, simplified False if_False]
    show ?thesis
    proof (cases "?meth = ''sovereign_registerDid'' \<or> ?meth = ''wallet_requestPermissions''
        \<or> handle_wallet_method lib env node ?meth ?body \<noteq> None")
      case True
      then show ?thesis using h by (auto split: if_splits option.splits)
    next
      case False
      then have "handle_wallet_method lib env node ?meth ?body = None" by blast
      with h False show ?thesis
        by (auto split: if_splits dest: arg_cong [of _ _ fst] simp: s)
    qed
  qed (use assms in \<open>simp add: rpc_handle_def\<close>)
qed

lemma rpc_register_did_cases:
  assumes "rpc_register_did lib env node rid body = (node', r)"
  shows "node' = node \<or>
    (\<exists>did doc nonce sig addr reg. from_did_string (rl_did lib) did = Some doc \<and>
       nonce_distance (now_ms env) nonce \<le> 300000 \<and> ownership_verified lib doc did nonce sig \<and>
       register_user_did (rl_did lib) (rl_address lib) (reg_order env (rn_registry node)) (now_s env)
         (rn_registry node) did = Ok (addr, reg) \<and> node' = node\<lparr>rn_registry := reg\<rparr>)"
proof -
  define did where "did = str_or '''' (param body 0)"
  define nonce where "nonce = (case Option.bind (json_nth (json_field body ''params'') 1) as_u64 of
      Some n \<Rightarrow> n | None \<Rightarrow> 0)"
  define sig_hex where "sig_hex = (case Option.bind (json_nth (json_field body ''params'') 2) as_str of
      Some s \<Rightarrow> s | None \<Rightarrow> '''')"
  define clean where "clean = (case strip_prefix sig_hex ''0x'' of Some s \<Rightarrow> s | None \<Rightarrow> sig_hex)"
  note h = assms [unfolded rpc_register_did_def Let_def, folded did_def nonce_def sig_hex_def, folded clean_def]
  show ?thesis
  proof (cases "node' = node")
    case False
    with h obtain doc sig addr reg where "from_did_string (rl_did lib) did = Some doc"
      "nonce_distance (now_ms env) nonce \<le> 300000" "ownership_verified lib doc did nonce sig"
      "register_user_did (rl_did lib) (rl_address lib) (reg_order env (rn_registry node)) (now_s env)
         (rn_registry node) did = Ok (addr, reg)" "node' = node\<lparr>rn_registry := reg\<rparr>"
      by (auto simp: not_less split: option.splits if_splits outcome.splits prod.splits)
    then show ?thesis by blast
  qed simp
qed

lemma rpc_send_raw_cases:
  assumes "rpc_send_raw_transaction lib env node request rid body = (node', r)"
  shows "node' = node \<or> (\<exists>raw h sender. tx_authorized lib env node request raw \<and>
    node' = index_from_raw_tx lib env node raw h sender)"
  using assms unfolding rpc_send_raw_transaction_def Let_def
  by (auto split: option.splits if_splits outcome.splits prod.splits)

lemma index_from_raw_cases:
  "index_from_raw_tx lib env node raw h sender = node \<or>
   (\<exists>a new. index_from_raw_tx lib env node raw h sender =
     node\<lparr>rn_registry := ensure_placeholder (rn_chain_id node) a (rn_registry node),
          rn_hot := add_native_transfer_record (now_s env) (rn_hot node) new\<rparr>)"
  unfolding index_from_raw_tx_def Let_def
  by (auto split: option.splits prod.splits)

lemma sync_tx_cases:
  "sync_tx lib env reg n h st tx = st \<or>
     (\<exists>new. sync_tx lib env reg n h st tx = add_native_transfer_record (now_s env) st new)"
  unfolding sync_tx_def Let_def by auto

section \<open>What a run preserves\<close>

text \<open>
  The contract of an invariant of the node: the four operations that change a node keep it. Then
  every step and every run keep it.
\<close>

locale proxy_invariant =
  fixes lib :: rpc_lib and I :: "rpc_node \<Rightarrow> bool"
  assumes register: "\<And>n (env :: rpc_env) did addr reg. I n \<Longrightarrow>
      register_user_did (rl_did lib) (rl_address lib) (reg_order env (rn_registry n)) (now_s env)
        (rn_registry n) did = Ok (addr, reg) \<Longrightarrow> I (n\<lparr>rn_registry := reg\<rparr>)"
    and index: "\<And>n (env :: rpc_env) a new. I n \<Longrightarrow>
      I (n\<lparr>rn_registry := ensure_placeholder (rn_chain_id n) a (rn_registry n),
           rn_hot := add_native_transfer_record (now_s env) (rn_hot n) new\<rparr>)"
    and sync: "\<And>n (env :: rpc_env). I n \<Longrightarrow> I (synced lib env n)"
    and chain: "\<And>n c. I n \<Longrightarrow> I (set_chain_id c n)"
begin

lemma registered: "rpc_register_did lib env n rid body = (n', r) \<Longrightarrow> I n \<Longrightarrow> I n'"
  using rpc_register_did_cases [of lib env n rid body n' r] register by blast

lemma submitted: "rpc_send_raw_transaction lib env n request rid body = (n', r) \<Longrightarrow> I n \<Longrightarrow> I n'"
  using rpc_send_raw_cases [of lib env n request rid body n' r] index by (metis index_from_raw_cases)

lemma step:
  assumes "proxy_step lib n e n'" and I: "I n"
  shows "I n'"
  using assms(1)
proof (cases rule: proxy_step.cases)
  case (step_request env request r)
  from rpc_handle_cases [OF step_request(2)] consider
      "n' = n" | rid body where "rpc_register_did lib env n rid body = (n', r)"
    | rid body where "rpc_send_raw_transaction lib env n request rid body = (n', r)"
    | "n' = synced lib env n"
    by blast
  then show ?thesis using I registered submitted sync by cases blast+
qed (use I chain in simp_all)

lemma run: "proxy_run lib n es n' \<Longrightarrow> I n \<Longrightarrow> I n'"
  by (induction rule: proxy_run.induct) (auto dest: step)

end

lemma scanned_history [simp]: "history_of (st\<lparr>scanned_block := n\<rparr>) a = history_of st a"
  by (simp add: history_of_def)

lemma foldl_invariant: "I s \<Longrightarrow> (\<And>s x. I s \<Longrightarrow> I (f s x)) \<Longrightarrow> I (foldl f s xs)"
  by (induction xs arbitrary: s) simp_all

lemma index_inv_sync_tx: "index_inv st \<Longrightarrow> index_inv (sync_tx lib env reg n h st tx)"
  using sync_tx_cases [of lib env reg n h st tx] index_inv_add by metis

lemma index_inv_sync_block: "index_inv st \<Longrightarrow> index_inv (sync_block lib env reg st n)"
proof -
  assume inv: "index_inv st"
  have "index_inv (foldl (sync_tx lib env reg num h) st txs)" for num h txs
    using inv index_inv_sync_tx by (rule foldl_invariant)
  with inv show ?thesis
    unfolding sync_block_def Let_def
    by (auto simp: index_inv_def split: outcome.splits option.splits)
qed

lemma index_inv_synced: "index_inv (rn_hot node) \<Longrightarrow> index_inv (rn_hot (synced lib env node))"
proof -
  assume inv: "index_inv (rn_hot node)"
  have "index_inv (foldl (sync_block lib env reg) (rn_hot node) ns)" for reg ns
    using inv index_inv_sync_block by (rule foldl_invariant)
  with inv show ?thesis
    unfolding synced_def sync_hot_storage_def Let_def by (simp split: outcome.splits)
qed

definition holds_address :: "string \<Rightarrow> address \<Rightarrow> validator_registry \<Rightarrow> bool" where
  "holds_address did a reg \<longleftrightarrow> address_to_did reg a = Some did \<and> peer_keys reg did = Some full_key"

lemma holds_address_register:
  assumes "holds_address did a reg" and "trim did = did" and "starts_with did ''did:peer:4''"
    and "register_user_did dl pa it now reg did2 = Ok (a2, reg')"
  shows "holds_address did a reg'"
proof -
  have "is_did_fully_registered dl pa it reg did"
    using assms(1) by (simp add: is_did_fully_registered_def Let_def normalize_peer4 [OF assms(2,3)] holds_address_def)
  with assms(1,4) have "a2 \<noteq> a"
    by (auto simp: register_user_did_def Let_def holds_address_def split: if_splits option.splits)
  moreover have "peer_keys reg' did = Some full_key"
    using registered_state(2,4) [OF assms(4), of did] assms(1) by (auto simp: holds_address_def)
  ultimately show ?thesis
    using registered_state(1) [OF assms(4)] assms(1) by (simp add: holds_address_def)
qed

lemma holds_address_placeholder:
  assumes "holds_address did a reg" and "starts_with did ''did:peer:4''"
  shows "holds_address did a (ensure_placeholder c b reg)"
proof -
  have "did \<noteq> ''did:sovereign:'' @ decimal (unat c) @ '':'' @ hex_string (address_bytes b)"
    using assms(2) by (auto simp: starts_with_def)
  then show ?thesis
    using assms(1) by (auto simp: holds_address_def ensure_placeholder_def Let_def)
qed

lemma holds_address_set_chain [simp]:
  "holds_address did a (rn_registry (set_chain_id c node)) = holds_address did a (rn_registry node)"
  by (simp add: holds_address_def set_chain_id_def)

lemma rn_synced [simp]: "rn_registry (synced lib env node) = rn_registry node"
  by (simp add: synced_def)

lemma validators_placeholder [simp]: "validators (ensure_placeholder c a reg) = validators reg"
  by (simp add: ensure_placeholder_def Let_def)

end
