(* ===== verification/Proxy_Tasks.thy ===== *)
theory Proxy_Tasks
  imports Rpc_Proxy
begin

text \<open>
  The proxy with all its connections at once (\<open>run_proxy\<close> of \<open>crates/node/src/caip_rpc.rs\<close>). A task is
  a request on its way through its handler: a resumption whose actions are the sections that
  the source runs under a lock and the answers it waits for. Between two actions of a task any
  other task can act; each action finds its own clock, iteration orders and client.
  Lemmas: a task that nobody interrupts is the handler of \<open>Rpc_Proxy\<close>, and an invariant of the
  node survives every interleaving.
\<close>

section \<open>Tasks\<close>

datatype task = Finish "reply option" | Act "rpc_env \<Rightarrow> rpc_node \<Rightarrow> rpc_node" "rpc_env \<Rightarrow> rpc_node \<Rightarrow> task"

text \<open>An action that only looks, and one that only writes\<close>

abbreviation look :: "(rpc_env \<Rightarrow> rpc_node \<Rightarrow> task) \<Rightarrow> task" where
  "look k \<equiv> Act (\<lambda>env node. node) k"

abbreviation modify :: "(rpc_env \<Rightarrow> rpc_node \<Rightarrow> rpc_node) \<Rightarrow> task \<Rightarrow> task" where
  "modify f k \<equiv> Act f (\<lambda>env node. k)"

abbreviation answer :: "reply \<Rightarrow> task" where
  "answer r \<equiv> Finish (Some r)"

section \<open>Scanning blocks\<close>

fun sync_txs_task :: "rpc_lib \<Rightarrow> string \<Rightarrow> string option \<Rightarrow> json list \<Rightarrow> task \<Rightarrow> task" where
  "sync_txs_task lib num_hex block_hash [] k = k"
| "sync_txs_task lib num_hex block_hash (tx # txs) k =
     modify (\<lambda>env node. node\<lparr>rn_hot := sync_tx lib env (rn_registry node) num_hex block_hash (rn_hot node) tx\<rparr>)
       (sync_txs_task lib num_hex block_hash txs k)"

fun sync_blocks_task :: "rpc_lib \<Rightarrow> u64 list \<Rightarrow> task \<Rightarrow> task" where
  "sync_blocks_task lib [] k = k"
| "sync_blocks_task lib (num # nums) k =
     look (\<lambda>env node.
       case reth env (block_request num) of
         Ok res \<Rightarrow>
           (let block = extract_result res in
            if block = JNull then sync_blocks_task lib nums k
            else sync_txs_task lib (''0x'' @ lower_hex (unat num)) (as_str (json_field block ''hash''))
                   (case as_array (json_field block ''transactions'') of Some txs \<Rightarrow> txs | None \<Rightarrow> [])
                   (modify (\<lambda>env node. node\<lparr>rn_hot := (rn_hot node)\<lparr>scanned_block := num\<rparr>\<rparr>)
                     (sync_blocks_task lib nums k)))
       | _ \<Rightarrow> sync_blocks_task lib nums k)"

definition sync_task :: "rpc_lib \<Rightarrow> task \<Rightarrow> task" where
  "sync_task lib k =
     look (\<lambda>env node.
       case reth env block_number_request of
         Ok res \<Rightarrow>
           (let latest = block_num (str_or ''0x0'' (json_field res ''result'')) in
            look (\<lambda>env node.
              let current = scanned_block (rn_hot node) in
              if latest \<le> current then k
              else sync_blocks_task lib (map word_of_nat [unat current + 1..<unat latest + 1]) k))
       | _ \<Rightarrow> k)"

section \<open>Handlers\<close>

definition register_task :: "rpc_lib \<Rightarrow> json \<Rightarrow> json \<Rightarrow> task" where
  "register_task lib rid body =
     (let did = str_or '''' (param body 0);
          nonce = (case Option.bind (json_nth (json_field body ''params'') 1) as_u64 of Some n \<Rightarrow> n | None \<Rightarrow> 0);
          sig_hex = (case Option.bind (json_nth (json_field body ''params'') 2) as_str of Some s \<Rightarrow> s | None \<Rightarrow> '''')
      in case from_did_string (rl_did lib) did of
           None \<Rightarrow> answer (send_error rid (- 32603) ''Invalid DID URI string or multihash mismatch'')
         | Some doc \<Rightarrow> look (\<lambda>env node.
             if 300000 < nonce_distance (now_ms env) nonce
             then answer (send_error rid (- 32002) ''Registration error: Nonce timestamp is expired or out of sync'')
             else (case rl_hex lib (case strip_prefix sig_hex ''0x'' of Some s \<Rightarrow> s | None \<Rightarrow> sig_hex) of
                 None \<Rightarrow> answer (send_error rid (- 32003) ''Registration error: Invalid signature hex'')
               | Some sig_bytes \<Rightarrow>
                   if \<not> ownership_verified lib doc did nonce sig_bytes
                   then answer (send_error rid (- 32003) ''Registration error: Signature verification failed. Key ownership proof mismatch.'')
                   else
                     Act (\<lambda>env node. case register_user_did (rl_did lib) (rl_address lib)
                              (reg_order env (rn_registry node)) (now_s env) (rn_registry node) did of
                            Ok (addr, reg) \<Rightarrow> node\<lparr>rn_registry := reg\<rparr> | _ \<Rightarrow> node)
                       (\<lambda>env node. case register_user_did (rl_did lib) (rl_address lib)
                              (reg_order env (rn_registry node)) (now_s env) (rn_registry node) did of
                            Ok (addr, reg) \<Rightarrow> answer (send_result rid (JObj [(''status'', JStr ''success''),
                              (''address'', JStr (rl_checksum lib addr))]))
                          | Err e \<Rightarrow> answer (send_error rid (- 32603) (registry_error_text e))
                          | Panic \<Rightarrow> answer (send_error rid (- 32603) [])))))"

text \<open>The record is composed of what three sections read, and written in a fourth.\<close>

definition index_task :: "rpc_lib \<Rightarrow> string \<Rightarrow> b256 \<Rightarrow> address \<Rightarrow> task \<Rightarrow> task" where
  "index_task lib raw h sender k =
     (case decode_tx lib raw of
        None \<Rightarrow> k
      | Some tx \<Rightarrow> look (\<lambda>env node.
          case indexable (rn_chain_id node) tx of
             None \<Rightarrow> k
           | Some to' \<Rightarrow>
               modify (\<lambda>env node. node\<lparr>rn_registry := ensure_placeholder (rn_chain_id node) to' (rn_registry node)\<rparr>)
                (look (\<lambda>env node. let from_did = get_did_by_address (rn_registry node) sender;
                                      to_did = get_did_by_address (rn_registry node) to'
                 in look (\<lambda>env node. let num = scanned_block (rn_hot node) + 1; stamp = now_s env
                 in modify (\<lambda>env node.
                      let (v, r, s) = signature_texts tx in
                      node\<lparr>rn_hot := add_native_transfer_record (now_s env) (rn_hot node)
                        \<lparr>nt_hash = h, nt_block_hash = None, nt_block_number = ''0x'' @ lower_hex (unat num),
                         nt_from = sender, nt_from_did = from_did, nt_to = to', nt_to_did = to_did,
                         nt_value = rl_u256_show lib (env_value tx), nt_timestamp = stamp,
                         nt_v = v, nt_r = r, nt_s = s\<rparr>\<rparr>) k)))))"

definition send_raw_task :: "rpc_lib \<Rightarrow> string \<Rightarrow> json \<Rightarrow> json \<Rightarrow> task" where
  "send_raw_task lib request rid body =
     (let raw = str_or '''' (param body 0) in
      case extract_header request ''x-sovereign-chain-id'' of
        Some ns \<Rightarrow> answer (send_result rid (JObj [(''relayedTo'', JStr ns),
            (''intentId'', JStr (''intent_'' @ hex_string (b256_bytes (keccak256 (dl_crypto (rl_did lib)) (as_bytes raw))))),
            (''status'', JStr ''relayed'')]))
      | None \<Rightarrow> look (\<lambda>env node.
          if \<not> tx_authorized lib env node request raw
          then answer (send_error rid (- 32001) ''Sovereign Wallet Error: Active DID not registered. Please onboard via sovereign_registerDid first.'')
          else look (\<lambda>env node. case reth env body of
              Ok r \<Rightarrow>
                (let result = extract_result r; k = answer (send_result rid result)
                 in case (Option.bind (as_str result) (rl_hash lib), decode_sender lib raw) of
                      (Some h, Some sender) \<Rightarrow> index_task lib raw h sender k
                    | _ \<Rightarrow> k)
            | Err e \<Rightarrow> answer (send_error rid (- 32603) (''Reth forward error: '' @ e))
            | Panic \<Rightarrow> answer (send_error rid (- 32603) []))))"

definition get_block_task :: "rpc_lib \<Rightarrow> json \<Rightarrow> task" where
  "get_block_task lib body =
     (let normalized = (case as_str (param body 0) of
              Some p \<Rightarrow> set_first_param (JStr (normalize_block_param p)) body | None \<Rightarrow> body);
          full_txs = (case Option.bind (json_nth (json_field body ''params'') 1) as_bool of
              Some b \<Rightarrow> b | None \<Rightarrow> False)
      in sync_task lib
           (look (\<lambda>env node. let res = (case reth env normalized of Ok r \<Rightarrow> r | _ \<Rightarrow> JNull)
             in look (\<lambda>env node. answer (JsonReply (inject_history_into_block (rl_u256 lib)
                  (hot_order env (rn_hot node)) (rn_hot node) res full_txs))))))"

definition fallback_task ::
  "rpc_lib \<Rightarrow> json \<Rightarrow> json \<Rightarrow> (rpc_env \<Rightarrow> rpc_node \<Rightarrow> string \<Rightarrow> json) \<Rightarrow> task" where
  "fallback_task lib rid body fallback =
     (let local' = look (\<lambda>env node. answer (reply_with rid (fallback env node (str_or '''' (param body 0)))))
      in sync_task lib
           (look (\<lambda>env node. case reth env body of
              Ok r \<Rightarrow> (case json_get r ''result'' of
                  Some v \<Rightarrow> if v \<noteq> JNull then answer (JsonReply r) else local'
                | None \<Rightarrow> local')
            | _ \<Rightarrow> local')))"

definition get_logs_task :: "rpc_lib \<Rightarrow> json \<Rightarrow> json \<Rightarrow> task" where
  "get_logs_task lib rid body =
     (let flt = (case json_nth (json_field body ''params'') 0 of Some f \<Rightarrow> f | None \<Rightarrow> JObj [])
      in sync_task lib
           (look (\<lambda>env node. let real_logs = (case reth env body of
                Ok r \<Rightarrow> (case as_array (json_field r ''result'') of Some xs \<Rightarrow> xs | None \<Rightarrow> [])
              | _ \<Rightarrow> [])
             in look (\<lambda>env node. answer (reply_with rid (JArr (real_logs @
                  synthesize_transfer_logs (rl_u256 lib) (hot_order env (rn_hot node)) (rn_hot node) flt)))))))"

definition rpc_task :: "rpc_lib \<Rightarrow> string \<Rightarrow> task" where
  "rpc_task lib request =
     (if starts_with request ''OPTIONS'' then answer OptionsReply
      else
        (let body = request_body lib request;
             meth = str_or '''' (json_field body ''method'');
             rid = json_field body ''id''
         in if meth = ''sovereign_registerDid'' then register_task lib rid body
            else if meth = ''wallet_requestPermissions'' then
              look (\<lambda>env node. answer (wallet_request_permissions lib env node request rid body))
            else look (\<lambda>env node. case handle_wallet_method lib env node meth body of
                Some result \<Rightarrow> answer (send_result rid result)
              | None \<Rightarrow>
                  if meth = ''eth_sendRawTransaction'' then send_raw_task lib request rid body
                  else if meth = ''eth_getBlockByNumber'' then get_block_task lib body
                  else if meth = ''eth_getTransactionByHash'' then
                    fallback_task lib rid body (\<lambda>env node.
                      get_tx_by_hash (rl_u256 lib) (hot_order env (rn_hot node)) (rn_hot node))
                  else if meth = ''eth_getTransactionReceipt'' then
                    fallback_task lib rid body (\<lambda>env node.
                      get_receipt_by_hash (hot_order env (rn_hot node)) (rn_hot node))
                  else if meth = ''eth_getLogs'' then get_logs_task lib rid body
                  else look (\<lambda>env node. answer (passthrough env rid body)))))"

text \<open>The background query for the chain identifier, with the tries it has left\<close>

fun chain_id_task :: "nat \<Rightarrow> task" where
  "chain_id_task 0 = Finish None"
| "chain_id_task (Suc n) =
     look (\<lambda>env node.
       case reth env (JObj [(''jsonrpc'', JStr ''2.0''), (''method'', JStr ''eth_chainId''),
           (''params'', JArr []), (''id'', JInt 1)]) of
         Ok res \<Rightarrow> (case chain_id_answer res of
             Some c \<Rightarrow> modify (\<lambda>env node. node\<lparr>rn_chain_id := c\<rparr>)
                (modify (\<lambda>env node. node\<lparr>rn_registry := (rn_registry node)\<lparr>vr_chain_id := c\<rparr>\<rparr>) (Finish None))
           | None \<Rightarrow> chain_id_task n)
       | _ \<Rightarrow> chain_id_task n)"

section \<open>A task nobody interrupts\<close>

primrec run_task :: "task \<Rightarrow> rpc_env \<Rightarrow> rpc_node \<Rightarrow> rpc_node \<times> reply option" where
  "run_task (Finish r) env node = (node, r)"
| "run_task (Act f k) env node = run_task (k env node) env (f env node)"

lemma run_sync_txs:
  "run_task (sync_txs_task lib num bh txs k) env node =
     run_task k env (node\<lparr>rn_hot := foldl (sync_tx lib env (rn_registry node) num bh) (rn_hot node) txs\<rparr>)"
  by (induction txs arbitrary: node) simp_all

lemma run_sync_blocks:
  "run_task (sync_blocks_task lib nums k) env node =
     run_task k env (node\<lparr>rn_hot := foldl (sync_block lib env (rn_registry node)) (rn_hot node) nums\<rparr>)"
proof (induction nums arbitrary: node)
  case (Cons num nums)
  show ?case
    by (cases "reth env (block_request num)")
      (auto simp: Cons run_sync_txs sync_block_def Let_def split: option.splits)
qed simp

lemma run_sync: "run_task (sync_task lib k) env node = run_task k env (synced lib env node)"
  by (auto simp: sync_task_def synced_def sync_hot_storage_def run_sync_blocks Let_def split: outcome.splits)

lemma run_index: "run_task (index_task lib raw h sender k) env node =
    run_task k env (index_from_raw_tx lib env node raw h sender)"
  by (auto simp: index_task_def index_from_raw_tx_def Let_def split: option.splits prod.splits)

lemma run_register: "run_task (register_task lib rid body) env node =
    map_prod id Some (rpc_register_did lib env node rid body)"
  by (auto simp: register_task_def rpc_register_did_def Let_def split: option.splits outcome.splits prod.splits)

lemma run_send_raw: "run_task (send_raw_task lib request rid body) env node =
    map_prod id Some (rpc_send_raw_transaction lib env node request rid body)"
  by (auto simp: send_raw_task_def rpc_send_raw_transaction_def run_index Let_def
      split: option.splits outcome.splits prod.splits)

lemma run_get_block: "run_task (get_block_task lib body) env node = map_prod id Some (rpc_get_block lib env node body)"
  by (simp add: get_block_task_def rpc_get_block_def run_sync Let_def)

lemma run_fallback: "run_task (fallback_task lib rid body f) env node =
    map_prod id Some (rpc_with_fallback lib env node rid body (f env))"
  by (auto simp: fallback_task_def rpc_with_fallback_def run_sync Let_def split: option.splits outcome.splits)

lemma run_get_logs: "run_task (get_logs_task lib rid body) env node =
    map_prod id Some (rpc_get_logs lib env node rid body)"
  by (simp add: get_logs_task_def rpc_get_logs_def run_sync Let_def)

lemma run_rpc_task: "run_task (rpc_task lib request) env node = map_prod id Some (rpc_handle lib env node request)"
proof (cases "starts_with request ''OPTIONS''")
  case True
  then show ?thesis by (simp add: rpc_task_def rpc_handle_def)
next
  case False
  define body meth rid where "body = request_body lib request"
    and "meth = str_or '''' (json_field body ''method'')" and "rid = json_field body ''id''"
  show ?thesis
    unfolding rpc_task_def rpc_handle_def Let_def
    unfolding body_def [symmetric] unfolding meth_def [symmetric] rid_def [symmetric]
    using False
    by (simp add: run_register run_send_raw run_get_block run_fallback run_get_logs split: option.splits)
qed

section \<open>All tasks at once\<close>

text \<open>
  The node, the tasks that were started, in order, and what happens next: a connection hands in
  a request, or one task acts in some environment.
\<close>

datatype task_event = Accept string | Advance nat rpc_env

inductive tasks_step ::
  "rpc_lib \<Rightarrow> rpc_node \<times> task list \<Rightarrow> task_event \<Rightarrow> rpc_node \<times> task list \<Rightarrow> bool"
  for lib :: rpc_lib where
  accept: "tasks_step lib (node, ts) (Accept request) (node, ts @ [rpc_task lib request])"
| advance: "i < length ts \<Longrightarrow> ts ! i = Act f k \<Longrightarrow>
    tasks_step lib (node, ts) (Advance i env) (f env node, ts[i := k env node])"

inductive tasks_run ::
  "rpc_lib \<Rightarrow> rpc_node \<times> task list \<Rightarrow> task_event list \<Rightarrow> rpc_node \<times> task list \<Rightarrow> bool"
  for lib :: rpc_lib where
  tasks_nil: "tasks_run lib c [] c"
| tasks_snoc: "tasks_run lib c es c' \<Longrightarrow> tasks_step lib c' e c'' \<Longrightarrow> tasks_run lib c (es @ [e]) c''"

inductive_cases tasks_step_elim: "tasks_step lib c e c'"

text \<open>The node as \<open>run_proxy\<close> starts it, with the background query\<close>

definition tasks_start :: "u64 \<Rightarrow> validator_registry \<Rightarrow> rpc_node \<times> task list" where
  "tasks_start chain reg = (initial_node chain reg, [chain_id_task 30])"

section \<open>Invariants under interleaving\<close>

primrec keeps :: "(rpc_node \<Rightarrow> bool) \<Rightarrow> task \<Rightarrow> bool" where
  "keeps I (Finish r) \<longleftrightarrow> True"
| "keeps I (Act f k) \<longleftrightarrow> (\<forall>env node. (I node \<longrightarrow> I (f env node)) \<and> keeps I (k env node))"

lemma keeps_tasks_run:
  assumes "tasks_run lib c es c'" and "\<And>request. keeps I (rpc_task lib request)" and "\<forall>t \<in> set (snd c). keeps I t"
  shows "(\<forall>t \<in> set (snd c'). keeps I t) \<and> (I (fst c) \<longrightarrow> I (fst c'))"
  using assms(1,3)
proof (induction rule: tasks_run.induct)
  case (tasks_snoc c es c' e c'')
  then have ts: "\<forall>t \<in> set (snd c'). keeps I t" by simp
  from tasks_snoc.hyps(2) show ?case
  proof (cases rule: tasks_step.cases)
    case (accept node ts request)
    then show ?thesis using tasks_snoc.IH tasks_snoc.prems assms(2) by simp
  next
    case (advance i ts f k node env)
    then have "keeps I (Act f k)" using ts by (metis nth_mem snd_conv)
    then have "I node \<longrightarrow> I (f env node)" "keeps I (k env node)" by simp_all
    then show ?thesis
      using advance tasks_snoc.IH tasks_snoc.prems by (auto dest: set_update_subset_insert [THEN subsetD])
  qed
qed simp

lemma keeps_run_task: "keeps I t \<Longrightarrow> I node \<Longrightarrow> I (fst (run_task t env node))"
proof (induction t arbitrary: node)
  case (Act f k)
  then show ?case using Act.IH [OF rangeI rangeI] by simp
qed simp

text \<open>The contract at the level of single actions: what each of them writes keeps the invariant.\<close>

locale task_invariant =
  fixes lib :: rpc_lib and I :: "rpc_node \<Rightarrow> bool"
  assumes register: "\<And>n (env :: rpc_env) did addr reg. I n \<Longrightarrow>
      register_user_did (rl_did lib) (rl_address lib) (reg_order env (rn_registry n)) (now_s env)
        (rn_registry n) did = Ok (addr, reg) \<Longrightarrow> I (n\<lparr>rn_registry := reg\<rparr>)"
    and placeholder: "\<And>n c a. I n \<Longrightarrow> I (n\<lparr>rn_registry := ensure_placeholder c a (rn_registry n)\<rparr>)"
    and add: "\<And>n now new. I n \<Longrightarrow> I (n\<lparr>rn_hot := add_native_transfer_record now (rn_hot n) new\<rparr>)"
    and mark: "\<And>n b. I n \<Longrightarrow> I (n\<lparr>rn_hot := (rn_hot n)\<lparr>scanned_block := b\<rparr>\<rparr>)"
    and chain: "\<And>n c. I n \<Longrightarrow> I (n\<lparr>rn_chain_id := c\<rparr>)"
    and registry_chain: "\<And>n c. I n \<Longrightarrow> I (n\<lparr>rn_registry := (rn_registry n)\<lparr>vr_chain_id := c\<rparr>\<rparr>)"
begin

lemma sync_tx: "I n \<Longrightarrow> I (n\<lparr>rn_hot := sync_tx lib env reg num bh (rn_hot n) tx\<rparr>)"
  using sync_tx_cases [of lib env reg num bh "rn_hot n" tx] add [of n] by auto

lemma keeps_sync_txs: "keeps I k \<Longrightarrow> keeps I (sync_txs_task lib num bh txs k)"
  by (induction txs) (simp_all add: sync_tx)

lemma keeps_sync_blocks: "keeps I k \<Longrightarrow> keeps I (sync_blocks_task lib nums k)"
  by (induction nums) (auto simp: Let_def mark intro!: keeps_sync_txs split: outcome.splits)

lemma keeps_sync: "keeps I k \<Longrightarrow> keeps I (sync_task lib k)"
  by (auto simp: sync_task_def Let_def intro!: keeps_sync_blocks split: outcome.splits)

lemma keeps_index: "keeps I k \<Longrightarrow> keeps I (index_task lib raw h sender k)"
  by (auto simp: index_task_def Let_def placeholder add split: option.splits prod.splits)

lemma keeps_register: "keeps I (register_task lib rid body)"
  by (auto simp: register_task_def Let_def intro: register split: option.splits outcome.splits prod.splits)

lemma keeps_send_raw: "keeps I (send_raw_task lib request rid body)"
  by (auto simp: send_raw_task_def Let_def intro!: keeps_index split: option.splits outcome.splits)

lemma keeps_reads:
  "keeps I (get_block_task lib body)" "keeps I (fallback_task lib rid body f)" "keeps I (get_logs_task lib rid body)"
  by (auto simp: get_block_task_def fallback_task_def get_logs_task_def Let_def intro!: keeps_sync
      split: option.splits outcome.splits)

lemma keeps_rpc_task: "keeps I (rpc_task lib request)"
  by (simp add: rpc_task_def Let_def keeps_register keeps_send_raw keeps_reads split: option.splits)

lemma keeps_chain_id: "keeps I (chain_id_task n)"
  by (induction n) (auto simp: chain registry_chain split: outcome.splits option.splits)

text \<open>Whatever tasks are under way, from a node with the invariant on it goes on holding.\<close>

lemma interleaved:
  assumes "tasks_run lib (tasks_start c reg) es (node0, ts)" and "tasks_run lib (node, ts) es' (node', ts')"
    and "I node"
  shows "I node'"
proof -
  have "\<forall>t \<in> set (snd (tasks_start c reg)). keeps I t" by (simp add: tasks_start_def keeps_chain_id)
  from keeps_tasks_run [OF assms(1) keeps_rpc_task this] have "\<forall>t \<in> set ts. keeps I t" by simp
  with keeps_tasks_run [OF assms(2) keeps_rpc_task] assms(3) show ?thesis by simp
qed

lemma interleaved_start:
  "tasks_run lib (tasks_start c reg) es (node, ts) \<Longrightarrow> I (initial_node c reg) \<Longrightarrow> I node"
  using keeps_tasks_run [of lib "tasks_start c reg" es "(node, ts)" I] keeps_rpc_task keeps_chain_id
  by (simp add: tasks_start_def)

end

sublocale task_invariant \<subseteq> seq: proxy_invariant
proof unfold_locales
  fix n :: rpc_node and env :: rpc_env and did addr reg a new c
  assume I: "I n"
  show "register_user_did (rl_did lib) (rl_address lib) (reg_order env (rn_registry n)) (now_s env)
      (rn_registry n) did = Ok (addr, reg) \<Longrightarrow> I (n\<lparr>rn_registry := reg\<rparr>)"
    by (rule register [OF I])
  show "I (n\<lparr>rn_registry := ensure_placeholder (rn_chain_id n) a (rn_registry n),
           rn_hot := add_native_transfer_record (now_s env) (rn_hot n) new\<rparr>)"
    using add [OF placeholder [OF I]] by simp
  show "I (synced lib env n)"
    using keeps_run_task [OF keeps_sync [of "Finish None"] I] by (simp add: run_sync)
  show "I (set_chain_id c n)"
    using registry_chain [OF chain [OF I]] by (simp add: set_chain_id_def)
qed

lemma index_inv_scanned [simp]: "index_inv (st\<lparr>scanned_block := b\<rparr>) = index_inv st"
  by (simp add: index_inv_def)

lemma holds_address_chain [simp]: "holds_address did a (reg\<lparr>vr_chain_id := c\<rparr>) = holds_address did a reg"
  by (simp add: holds_address_def)

interpretation index_safe: task_invariant lib "\<lambda>n. index_inv (rn_hot n)" for lib
  by unfold_locales (simp_all add: index_inv_add index_inv_scanned)

interpretation validators_safe: task_invariant lib "\<lambda>n. validators (rn_registry n) = Map.empty" for lib
  by unfold_locales (auto dest: registered_state(5))

interpretation address_safe: task_invariant lib
    "\<lambda>n. trim did = did \<and> starts_with did ''did:peer:4'' \<and> holds_address did a (rn_registry n)" for lib did a
  by unfold_locales (auto intro: holds_address_register holds_address_placeholder)

end
