(* ===== verification/Proxy_Runs.thy ===== *)
theory Proxy_Runs
  imports Proxy_Tasks
begin

text \<open>
  What the proxy guarantees when its requests follow one another, proved from the invariants of
  \<open>Proxy_Tasks\<close>, and a concrete node on which the properties are applied.
\<close>

section \<open>A concrete node\<close>

definition sample_identity :: sovereign_did_document where
  "sample_identity = ok_value (derive_from_seed sample_did_lib 5)"

lemma sample_identity_derived: "derive_from_seed sample_did_lib 5 = Ok sample_identity"
  by (simp add: sample_identity_def derive_from_seed_def sample_did_lib_def Let_def)

lemma sample_identity_address: "evm_address sample_identity = 5"
proof -
  have "be_nat (b256_bytes 5 @ b256_bytes 5) = 5 * 256 ^ 32 + 5"
    by (simp add: b256_bytes_def be_bytes_def upt_rec)
  then have "(word_of_nat (be_nat (b256_bytes 5 @ b256_bytes 5)) :: b256) = 5"
    by simp
  then show ?thesis
    by (simp add: sample_identity_def derive_from_seed_def sample_did_lib_def Let_def
        evm_address_of_point_def sample_crypto_def)
      (simp add: b256_bytes_def be_bytes_def upt_rec address_of_bytes_def)
qed

lemma sample_identity_keys: "has_all_keys sample_identity"
  by (simp add: has_all_keys_def sample_identity_address)
    (simp add: sample_identity_def derive_from_seed_def sample_did_lib_def Let_def)

lemma sample_identity_uri:
  "starts_with (did_uri sample_identity) ''did:peer:4''" "trim (did_uri sample_identity) = did_uri sample_identity"
proof -
  define bs where "bs = [0x80, 0x04] @ as_bytes (did_json_print sample_did_lib
      (seed_verification_methods sample_did_lib (2 # b256_bytes 5)))"
  define t where "t = peer_hash sample_did_lib (''z'' @ hex_string bs) @ '':z''"
  have p: "secp_point sample_did_lib 5 = Some (2 # b256_bytes 5, 4 # b256_bytes 5 @ b256_bytes 5)"
    "bs58_encode sample_did_lib = hex_string"
    by (simp_all add: sample_did_lib_def)
  have u: "did_uri sample_identity = ''did:peer:4'' @ t @ hex_string bs"
    by (simp add: sample_identity_def derive_from_seed_def p Let_def multibase_def t_def bs_def)
  have "length (hex_string bs) \<noteq> 0" by (simp add: bs_def)
  then have ne: "hex_string bs \<noteq> []" by force
  show "starts_with (did_uri sample_identity) ''did:peer:4''" unfolding u by (rule starts_with_append)
  have "last (did_uri sample_identity) \<in> set (hex_string bs)" using ne by (simp add: u)
  then have "\<not> is_space (last (did_uri sample_identity))" using hex_string_no_space by blast
  moreover have "\<not> is_space (hd (did_uri sample_identity))" by (simp add: u is_space_def)
  ultimately show "trim (did_uri sample_identity) = did_uri sample_identity" by (intro trim_id) blast
qed

lemma sample_registration:
  "\<exists>reg. register_user_did sample_did_lib pa it now validator_registry_default (did_uri sample_identity) = Ok (5, reg)"
proof -
  have d: "address_to_did validator_registry_default = Map.empty"
    by (simp add: validator_registry_default_def validator_registry_new_def)
  have "\<not> starts_with (did_uri sample_identity) ''did:peer:2''"
  proof -
    obtain x where "did_uri sample_identity = ''did:peer:4'' @ x"
      using sample_identity_uri(1) unfolding starts_with_def by (metis append_take_drop_id)
    then show ?thesis by (simp add: starts_with_def)
  qed
  then show ?thesis
    using resolve_derive_from_seed [OF sample_did_lib_ok sample_identity_derived] sample_identity_keys
    by (simp add: register_user_did_def d sample_identity_address Let_def)
qed

definition sample_tx :: tx_envelope where
  "sample_tx = \<lparr>env_kind = LegacyTx, env_chain_id = Some 1337, env_to = Some 9, env_value = 5,
     env_input = [], env_parity = False, env_r = 1, env_s = 2\<rparr>"

definition sample_body :: "string \<Rightarrow> json list \<Rightarrow> json" where
  "sample_body meth ps = JObj [(''method'', JStr meth), (''params'', JArr ps), (''id'', JInt 1)]"

definition sample_rpc_lib :: rpc_lib where
  "sample_rpc_lib =
     \<lparr>rl_did = sample_did_lib, rl_scale = scale_ref,
      rl_json = (\<lambda>s. Some (sample_body ''eth_sendRawTransaction'' [JStr ''0x01''])),
      rl_address = (\<lambda>s. None), rl_hash = (\<lambda>s. Some 3), rl_u256 = (\<lambda>s. None), rl_u256_hex = (\<lambda>s. None),
      rl_hex = hex_parse, rl_tx = (\<lambda>bs. Some sample_tx), rl_signer = (\<lambda>tx. Some 7),
      rl_prehash_verify = (\<lambda>pk d s. True), rl_checksum = prefixed_address,
      rl_u256_show = (\<lambda>v. decimal (unat v))\<rparr>"

definition sample_env :: rpc_env where
  "sample_env = \<lparr>now_ms = 1000, now_s = 1, nanos = 0, reg_order = (\<lambda>r. empty_iteration),
     hot_order = (\<lambda>st. [7, 9]), reth = (\<lambda>body. Ok (JObj [(''result'', JStr ''0x03'')]))\<rparr>"

definition sample_node :: rpc_node where
  "sample_node = initial_node 1337 (validator_registry_default\<lparr>peer_keys := [''did:peer:v'' \<mapsto> 1]\<rparr>)"

definition sample_request :: string where
  "sample_request = ''x-sovereign-did: v''"

lemma step_rpc_handle: "proxy_run lib node [Request env request] (fst (rpc_handle lib env node request))"
proof -
  have "proxy_step lib node (Request env request) (fst (rpc_handle lib env node request))"
    by (rule step_request [OF prod.collapse [symmetric]])
  from proxy_snoc [OF proxy_nil this] show ?thesis by simp
qed

definition registration_body :: json where
  "registration_body = sample_body ''sovereign_registerDid''
     [JStr (did_uri sample_identity), JInt 900, JStr (''0x'' @ hex_string (replicate 65 1))]"

lemma json_simps:
  "param (sample_body meth ps) i = (if i < length ps then ps ! i else JNull)"
  "json_nth (json_field (sample_body meth ps) ''params'') i = (if i < length ps then Some (ps ! i) else None)"
  by (simp_all add: sample_body_def param_def json_field_def json_get_def json_index_def json_nth_def)

section \<open>Blocks and addresses\<close>

lemma no_validator_no_block:
  assumes "validators reg = Map.empty"
  shows "validate_implicit_state_block cl reg prev diff sigs height \<noteq> Ok r"
proof
  assume "validate_implicit_state_block cl reg prev diff sigs height = Ok r"
  then have "sigs \<noteq> []" "\<forall>s \<in> set sigs. check_block_signature cl reg
      (zero_latency_quantum_trigger (vr_dynamic_cfg reg))
      (profile_or_ethereum (active_profile_name (vr_dynamic_cfg reg) height))
      (transition_hash cl prev diff) s = Ok ()"
    by (simp_all add: validate_Ok_iff)
  with check_block_signature_no_validators [OF assms] show False by (cases sigs) auto
qed

lemma holds_address_registered:
  assumes "holds_address did a reg" and "trim did = did" and "starts_with did ''did:peer:4''"
  shows "get_did_by_address reg a = Some did \<and> is_did_fully_registered dl pa it reg did"
  using assms(1) by (simp add: holds_address_def get_did_by_address_def is_did_fully_registered_def Let_def
      normalize_peer4 [OF assms(2,3)])

section \<open>Requests one after the other\<close>

lemma hot_index_invariant:
  "proxy_run lib (initial_node chain reg) es node \<Longrightarrow> index_inv (rn_hot node)"
  by (erule index_safe.seq.run) (simp add: initial_node_def set_chain_id_def index_inv_default)

lemma no_block_accepted:
  assumes "proxy_run lib (initial_node chain (validator_registry_new static dyn)) es node"
  shows "validate_implicit_state_block cl (rn_registry node) prev diff sigs height \<noteq> Ok r"
  using validators_safe.seq.run [OF assms]
  by (intro no_validator_no_block) (simp add: initial_node_def set_chain_id_def validator_registry_new_def)

lemma registered_address_is_held:
  assumes "register_user_did dl pa it now reg did = Ok (a, reg')"
    and "trim did = did" and "starts_with did ''did:peer:4''"
    and "proxy_run lib (node\<lparr>rn_registry := reg'\<rparr>) es node'"
  shows "get_did_by_address (rn_registry node') a = Some did \<and>
    is_did_fully_registered dl pa it' (rn_registry node') did"
proof -
  have "holds_address did a reg'"
    using registered_state(1,2) [OF assms(1)] by (simp add: holds_address_def)
  with address_safe.seq.run [OF assms(4), of did a] assms(2,3)
  have "holds_address did a (rn_registry node')" by simp
  then show ?thesis by (rule holds_address_registered [OF _ assms(2,3)])
qed

section \<open>Properties\<close>







text \<open>C11: the synthetic transfer logs are the indexed transfers that match the filter's recipient,
  each transaction once: they come from pairwise different transactions, and every matching
  transaction has one.\<close>

theorem logs_are_matching_transfers:
  "\<exists>rs. synthesize_transfer_logs u256_parse order st flt = map (transfer_log u256_parse) rs \<and>
     distinct (map nt_hash rs) \<and>
     set rs \<subseteq> {r \<in> set (indexed_records order st). matches_recipient (filter_recipient flt) r} \<and>
     nt_hash ` set rs = nt_hash ` {r \<in> set (indexed_records order st). matches_recipient (filter_recipient flt) r}"
proof -
  let ?rs = "collect_transfers (filter_recipient flt) {} (indexed_records order st)"
  note sub = collect_transfers_subset [of "filter_recipient flt" "{}" "indexed_records order st"]
  have "nt_hash ` set ?rs = nt_hash ` {r \<in> set (indexed_records order st). matches_recipient (filter_recipient flt) r}"
    using sub collect_transfers_complete [of _ "indexed_records order st" "filter_recipient flt" "{}"] by auto
  then show ?thesis
    using sub collect_transfers_distinct by (auto simp: synthesize_transfer_logs_def)
qed



end
