(* ===== verification/Did_Cli.thy ===== *)
theory Did_Cli
  imports Proxy_Runs
begin

text \<open>
  The onboarding tool (\<open>crates/node/src/did_cli.rs\<close>): it derives seven public keys from a seed,
  builds their DID, proves that it owns the first key and asks the node to register the DID.
  Key derivation, key generation, signing and the encoding of a transaction are the parameters
  \<open>cli_lib\<close>; \<open>cli_lib_ok\<close> says what is relied upon. Of what is printed, the outcome is.
  Lemmas: the DID of the tool resolves to the keys it was built from.
\<close>

record tx_legacy =
  tl_chain_id :: "u64 option"
  tl_nonce :: u64
  tl_gas_price :: nat
  tl_gas_limit :: u64
  tl_to :: address
  tl_value :: u256
  tl_input :: bytes

record cli_lib =
  cl_did :: did_lib
  cl_hex :: "string \<Rightarrow> (bytes, string) outcome"
  mnemonic_seed :: "string \<Rightarrow> (bytes, string) outcome"
  derive_path :: "bytes \<Rightarrow> string \<Rightarrow> (bytes, string) outcome"
  secp_keypair :: "bytes \<Rightarrow> (bytes \<times> bytes, string) outcome"  \<comment> \<open>compressed and uncompressed point\<close>
  ed_public :: "bytes \<Rightarrow> bytes"
  ml_dsa_public :: "bytes \<Rightarrow> bytes"
  slh_dsa_keygen :: "(bytes, string) outcome"
  falcon_keygen :: bytes
  sign_prehash :: "bytes \<Rightarrow> b256 \<Rightarrow> (bytes, string) outcome"
  document_json :: "verification_method list \<Rightarrow> string list \<Rightarrow> string list \<Rightarrow> string list \<Rightarrow> string"
  parse_address :: "string \<Rightarrow> (address, string) outcome"
  parse_u256 :: "string \<Rightarrow> nat \<Rightarrow> (u256, string) outcome"
  parse_signer :: "string \<Rightarrow> (bytes, string) outcome"
  sign_and_encode :: "bytes \<Rightarrow> tx_legacy \<Rightarrow> (bytes, string) outcome"

section \<open>Keys from a seed\<close>

definition seed_bytes :: "cli_lib \<Rightarrow> string option \<Rightarrow> string option \<Rightarrow> (bytes, string) outcome" where
  "seed_bytes cl set_seed set_phrase =
     (case set_seed of
        Some seed_hex \<Rightarrow>
          (case cl_hex cl (trim_start_matches ''0x'' seed_hex) of
             Ok bs \<Rightarrow> if length bs \<noteq> 32 then Err ''Seed must be exactly 32 bytes (64 hex characters)'' else Ok bs
           | Err e \<Rightarrow> Err (''Failed to parse hex seed: '' @ e)
           | Panic \<Rightarrow> Panic)
      | None \<Rightarrow>
          (case set_phrase of
             Some phrase \<Rightarrow>
               (case mnemonic_seed cl phrase of
                  Err e \<Rightarrow> Err (''Invalid mnemonic: '' @ e) | r \<Rightarrow> r)
           | None \<Rightarrow> Err ''Error: Must provide either --seed or --seedphrase''))"

record cli_keys =
  ck_private :: bytes
  ck_address :: address
  ck_secp :: bytes
  ck_ed :: bytes
  ck_bls :: bytes
  ck_ml :: bytes
  ck_slh :: bytes
  ck_falcon :: bytes
  ck_xmss :: bytes

definition derive_keys :: "cli_lib \<Rightarrow> bytes \<Rightarrow> (cli_keys, string) outcome" where
  "derive_keys cl seed =
     (let path = derive_path cl seed; keccak = (\<lambda>bs. b256_bytes (keccak256 (dl_crypto (cl_did cl)) bs)) in
      and_then (path ''m/44'/60'/0'/0/0'') (\<lambda>secp.
      and_then (secp_keypair cl secp) (\<lambda>(compressed, uncompressed).
      and_then (path ''m/44'/501'/0'/0/0'') (\<lambda>ed.
      and_then (path ''m/44'/12381'/0'/0/0'') (\<lambda>bls.
      and_then (path ''m/44'/5002052'/0'/0/0'') (\<lambda>ml.
      and_then (case slh_dsa_keygen cl of Ok pk \<Rightarrow> Ok pk | _ \<Rightarrow> Panic) (\<lambda>slh.
      and_then (path ''m/44'/5788243'/0'/0/0'') (\<lambda>xmss.
      Ok \<lparr>ck_private = secp,
          ck_address = address_of_bytes (drop 12 (keccak (drop 1 uncompressed))),
          ck_secp = compressed, ck_ed = ed_public cl ed, ck_bls = bls @ take 16 (keccak bls),
          ck_ml = ml_dsa_public cl ml, ck_slh = slh, ck_falcon = falcon_keygen cl,
          ck_xmss = xmss @ keccak xmss\<rparr>))))))))"

section \<open>The DID and its registration\<close>

definition key_methods :: "did_lib \<Rightarrow> cli_keys \<Rightarrow> verification_method list" where
  "key_methods dl ks =
     [\<lparr>vm_id = ''#key-secp256k1'', vm_key_type = ''EcdsaSecp256k1VerificationKey2019'',
       vm_multibase = multibase dl ([0xe7, 0x01] @ ck_secp ks)\<rparr>,
      \<lparr>vm_id = ''#key-ed25519'', vm_key_type = ''Ed25519VerificationKey2020'',
       vm_multibase = multibase dl ([0xed, 0x01] @ ck_ed ks)\<rparr>,
      \<lparr>vm_id = ''#key-bls'', vm_key_type = ''Bls12381G1Key2020'',
       vm_multibase = multibase dl ([0xea, 0x01] @ ck_bls ks)\<rparr>,
      \<lparr>vm_id = ''#key-mldsa'', vm_key_type = ''MlDsa65VerificationKey2024'',
       vm_multibase = multibase dl ([0x93, 0x01] @ ck_ml ks)\<rparr>,
      \<lparr>vm_id = ''#key-slhdsa'', vm_key_type = ''SlhDsaSha2128fVerificationKey2024'',
       vm_multibase = multibase dl ([0x94, 0x01] @ ck_slh ks)\<rparr>,
      \<lparr>vm_id = ''#key-falcon'', vm_key_type = ''Falcon512VerificationKey2024'',
       vm_multibase = multibase dl ([0x92, 0x01] @ ck_falcon ks)\<rparr>,
      \<lparr>vm_id = ''#key-xmss'', vm_key_type = ''XmssSha2256VerificationKey2024'',
       vm_multibase = multibase dl ([0x95, 0x01] @ ck_xmss ks)\<rparr>]"

definition cli_document :: "cli_lib \<Rightarrow> cli_keys \<Rightarrow> string" where
  "cli_document cl ks =
     multibase (cl_did cl) ([0x80, 0x04] @ as_bytes (document_json cl (key_methods (cl_did cl) ks)
       [''#key-secp256k1'', ''#key-ed25519'', ''#key-mldsa'', ''#key-slhdsa''] [''#key-bls''] [''#key-secp256k1'']))"

definition cli_did :: "cli_lib \<Rightarrow> cli_keys \<Rightarrow> string" where
  "cli_did cl ks =
     (let doc_comp = cli_document cl ks;
          hash_comp = multibase (cl_did cl) ([0x12, 0x20] @ hash (dl_crypto (cl_did cl)) Sha256 (as_bytes doc_comp))
      in ''did:peer:4'' @ hash_comp @ '':'' @ doc_comp)"

text \<open>\<open>nonce\<close> is the clock in milliseconds; \<open>json!\<close> panics on a number of more than 64 bits.\<close>

definition registration_request :: "cli_lib \<Rightarrow> cli_keys \<Rightarrow> nat \<Rightarrow> (json, string) outcome" where
  "registration_request cl ks nonce =
     (let did = cli_did cl ks;
          message = ''registerDid:'' @ did @ '':'' @ decimal nonce;
          digest = keccak256 (dl_crypto (cl_did cl)) (as_bytes message)
      in and_then (sign_prehash cl (ck_private ks) digest) (\<lambda>sig.
         if 2 ^ 64 \<le> nonce then Panic
         else Ok (JObj [(''jsonrpc'', JStr ''2.0''), (''method'', JStr ''sovereign_registerDid''),
           (''params'', JArr [JStr did, JInt (int nonce), JStr (''0x'' @ hex_encode (cl_did cl) sig)]),
           (''id'', JInt 1)])))"

definition cli_set :: "cli_lib \<Rightarrow> string option \<Rightarrow> string option \<Rightarrow> nat \<Rightarrow> (cli_keys \<times> json, string) outcome" where
  "cli_set cl set_seed set_phrase now =
     and_then (seed_bytes cl set_seed set_phrase) (\<lambda>seed.
     and_then (derive_keys cl seed) (\<lambda>ks.
     and_then (registration_request cl ks now) (\<lambda>body. Ok (ks, body))))"

section \<open>Queries and transactions\<close>

definition is_address_text :: "cli_lib \<Rightarrow> string \<Rightarrow> bool" where
  "is_address_text cl did \<longleftrightarrow>
     starts_with did ''0x'' \<or> length did = 40 \<and> is_ok (cl_hex cl (trim_start_matches ''0x'' did))"

definition cli_get :: "cli_lib \<Rightarrow> string \<Rightarrow> json" where
  "cli_get cl did =
     JObj [(''jsonrpc'', JStr ''2.0''),
       (''method'', JStr (if is_address_text cl did then ''sovereign_getDidByAddress'' else ''sovereign_getDid'')),
       (''params'', JArr [JStr did]), (''id'', JInt 1)]"

definition cli_sign_tx ::
  "cli_lib \<Rightarrow> string \<Rightarrow> string \<Rightarrow> string \<Rightarrow> u64 \<Rightarrow> u64 \<Rightarrow> u64 \<Rightarrow> u64 \<Rightarrow> (string, string) outcome" where
  "cli_sign_tx cl private_key to val nonce gas_limit gas_price chain_id =
     and_then (parse_signer cl private_key) (\<lambda>signer.
     and_then (parse_address cl to) (\<lambda>to_addr.
     and_then (case parse_u256 cl val 10 of
         Err _ \<Rightarrow> parse_u256 cl (trim_start_matches ''0x'' val) 16 | r \<Rightarrow> r) (\<lambda>v.
     and_then (sign_and_encode cl signer \<lparr>tl_chain_id = Some chain_id, tl_nonce = nonce,
         tl_gas_price = unat gas_price, tl_gas_limit = gas_limit, tl_to = to_addr, tl_value = v, tl_input = []\<rparr>)
       (\<lambda>buf. Ok (''0x'' @ hex_encode (cl_did cl) buf)))))"

section \<open>The command line\<close>

datatype cli_command =
    SetCmd "string option" "string option"
  | GetCmd string
  | SignTxCmd string string string u64 u64 u64 u64

record cli_args =
  ca_command :: "cli_command option"
  ca_seed :: "string option"
  ca_seedphrase :: "string option"
  ca_rpc_url :: string

text \<open>What the tool prints at the end, without the wording; keys are listed in the order of the object.\<close>

datatype cli_report =
    QueryFailed json
  | DidFound string string "(string \<times> string) list"
  | DidNotFound
  | InvalidResponse
  | SignedTx string
  | RegistrationFailed address string json
  | RegistrationSucceeded address string json

fun as_object :: "json \<Rightarrow> (string \<times> json) list option" where
  "as_object (JObj fs) = Some fs"
| "as_object _ = None"

definition get_report :: "json \<Rightarrow> cli_report" where
  "get_report res =
     (case json_get res ''error'' of
        Some e \<Rightarrow> QueryFailed e
      | None \<Rightarrow>
          (case json_get res ''result'' of
             None \<Rightarrow> InvalidResponse
           | Some result \<Rightarrow>
               if as_bool (json_field result ''registered'') = Some True
               then DidFound (str_or '''' (json_field result ''did'')) (str_or ''None'' (json_field result ''address''))
                 (case Option.bind (json_get result ''keys'') as_object of
                    Some keys \<Rightarrow> map (\<lambda>(curve, key). (curve, str_or '''' key)) keys
                  | None \<Rightarrow> [])
               else DidNotFound))"

definition set_report :: "cli_lib \<Rightarrow> cli_keys \<Rightarrow> json \<Rightarrow> cli_report" where
  "set_report cl ks res =
     (case json_get res ''error'' of
        Some e \<Rightarrow> RegistrationFailed (ck_address ks) (cli_did cl ks) e
      | None \<Rightarrow> RegistrationSucceeded (ck_address ks) (cli_did cl ks) (json_field res ''result''))"

text \<open>\<open>post\<close> sends a body to an endpoint and parses what comes back.\<close>

definition cli_main ::
  "cli_lib \<Rightarrow> (string \<Rightarrow> json \<Rightarrow> (json, string) outcome) \<Rightarrow> nat \<Rightarrow> cli_args \<Rightarrow> (cli_report, string) outcome" where
  "cli_main cl post now args =
     (let set = (\<lambda>seed phrase.
        and_then (cli_set cl seed phrase now) (\<lambda>(ks, body).
        and_then (post (ca_rpc_url args) body) (\<lambda>res. Ok (set_report cl ks res))))
      in case ca_command args of
           None \<Rightarrow> set (ca_seed args) (ca_seedphrase args)
         | Some (SetCmd seed phrase) \<Rightarrow> set seed phrase
         | Some (GetCmd did) \<Rightarrow>
             and_then (post (ca_rpc_url args) (cli_get cl did)) (\<lambda>res. Ok (get_report res))
         | Some (SignTxCmd private_key to val nonce gas_limit gas_price chain_id) \<Rightarrow>
             and_then (cli_sign_tx cl private_key to val nonce gas_limit gas_price chain_id)
               (\<lambda>text. Ok (SignedTx text)))"

section \<open>What the tool relies on\<close>

text \<open>Keys and signatures of the libraries on both sides fit together.\<close>

definition cli_lib_ok :: "cli_lib \<Rightarrow> rpc_lib \<Rightarrow> bool" where
  "cli_lib_ok cl lib \<longleftrightarrow>
     did_lib_ok (cl_did cl) \<and> rl_did lib = cl_did cl \<and>
     (\<forall>bs. rl_hex lib (hex_string bs) = Some bs) \<and>
     (\<forall>vms a k c. did_json_parse (cl_did cl) (as_bytes (document_json cl vms a k c)) = Some vms) \<and>
     (\<forall>priv pk u. secp_keypair cl priv = Ok (pk, u) \<longrightarrow>
        secp_uncompress (cl_did cl) pk = Some u \<and> k256_key_ok (dl_crypto (cl_did cl)) pk \<and>
        (\<forall>d sig. sign_prehash cl priv d = Ok sig \<longrightarrow> length sig = 64 \<and>
           k256_sig_ok (dl_crypto (cl_did cl)) sig \<and> rl_prehash_verify lib pk d sig))"

definition keys_present :: "cli_keys \<Rightarrow> bool" where
  "keys_present ks \<longleftrightarrow> ck_address ks \<noteq> 0 \<and> ck_ed ks \<noteq> [] \<and> ck_bls ks \<noteq> [] \<and> ck_ml ks \<noteq> [] \<and>
     ck_slh ks \<noteq> [] \<and> ck_falcon ks \<noteq> [] \<and> ck_xmss ks \<noteq> []"

lemma cli_lib_okD:
  assumes "cli_lib_ok cl lib"
  shows "did_lib_ok (cl_did cl)" "rl_did lib = cl_did cl" "rl_hex lib (hex_string bs) = Some bs"
    "did_json_parse (cl_did cl) (as_bytes (document_json cl vms a k c)) = Some vms"
  using assms by (simp_all add: cli_lib_ok_def)

definition cli_identity :: "cli_lib \<Rightarrow> cli_keys \<Rightarrow> sovereign_did_document" where
  "cli_identity cl ks =
     \<lparr>did_uri = cli_did cl ks, short_form = ''did:peer:4'' @ peer_hash (cl_did cl) (cli_document cl ks),
      ed25519_pubkey = ck_ed ks, evm_address = ck_address ks, secp256k1_pubkey = ck_secp ks,
      bls_pubkey = ck_bls ks, ml_dsa_pubkey = ck_ml ks, slh_dsa_pubkey = ck_slh ks,
      falcon_pubkey = ck_falcon ks, xmss_pubkey = ck_xmss ks, authority_path = [],
      trusted_authorities = {}, raw_document = Some (cli_document cl ks)\<rparr>"

lemma keys_of_key_methods:
  assumes "did_lib_ok dl" and "secp_uncompress dl (ck_secp ks) = Some u" and "ck_address ks = evm_address_of_point dl u"
  shows "foldl (add_verification_method dl) no_keys (key_methods dl ks) =
     \<lparr>dk_evm = Some (ck_address ks), dk_secp = ck_secp ks, dk_ed = ck_ed ks, dk_bls = ck_bls ks,
      dk_ml = ck_ml ks, dk_slh = ck_slh ks, dk_fal = ck_falcon ks, dk_xmss = ck_xmss ks\<rparr>"
  using decode_multibase_key_multibase [OF assms(1), of "[0xe7, 0x01]" "ck_secp ks"]
    decode_multibase_key_multibase [OF assms(1), of "[0xed, 0x01]" "ck_ed ks"]
    decode_multibase_key_multibase [OF assms(1), of "[0xea, 0x01]" "ck_bls ks"]
    decode_multibase_key_multibase [OF assms(1), of "[0x93, 0x01]" "ck_ml ks"]
    decode_multibase_key_multibase [OF assms(1), of "[0x94, 0x01]" "ck_slh ks"]
    decode_multibase_key_multibase [OF assms(1), of "[0x92, 0x01]" "ck_falcon ks"]
    decode_multibase_key_multibase [OF assms(1), of "[0x95, 0x01]" "ck_xmss ks"]
  by (simp add: key_methods_def add_verification_method_def no_keys_def assms(2,3))

lemma derive_keys_Ok:
  assumes "derive_keys cl seed = Ok ks"
  obtains u where "secp_keypair cl (ck_private ks) = Ok (ck_secp ks, u)"
    "ck_address ks = evm_address_of_point (cl_did cl) u"
  using assms by (auto simp: derive_keys_def Let_def evm_address_of_point_def and_then_Ok_iff)

lemma resolve_cli_did:
  assumes "cli_lib_ok cl lib" and "derive_keys cl seed = Ok ks"
  shows "from_did_string (cl_did cl) (cli_did cl ks) = Some (cli_identity cl ks)"
proof -
  obtain u where kp: "secp_keypair cl (ck_private ks) = Ok (ck_secp ks, u)"
    "ck_address ks = evm_address_of_point (cl_did cl) u"
    by (rule derive_keys_Ok [OF assms(2)])
  with assms(1) have u: "secp_uncompress (cl_did cl) (ck_secp ks) = Some u" by (simp add: cli_lib_ok_def)
  show ?thesis
    using resolve_document [OF cli_lib_okD(1,4) [OF assms(1)]
        keys_of_key_methods [OF cli_lib_okD(1) [OF assms(1)] u kp(2)] cli_document_def]
    by (simp add: cli_did_def cli_identity_def peer_hash_def Let_def)
qed

section \<open>The request and its handling\<close>

definition cli_digest :: "cli_lib \<Rightarrow> cli_keys \<Rightarrow> nat \<Rightarrow> b256" where
  "cli_digest cl ks nonce = keccak256 (dl_crypto (cl_did cl))
     (as_bytes (''registerDid:'' @ cli_did cl ks @ '':'' @ decimal nonce))"

lemma cli_set_Ok:
  assumes "cli_set cl set_seed set_phrase now = Ok (ks, body)"
  obtains seed sig where "derive_keys cl seed = Ok ks" "now < 2 ^ 64"
    "sign_prehash cl (ck_private ks) (cli_digest cl ks now) = Ok sig"
    "json_field body ''params'' = JArr [JStr (cli_did cl ks), JInt (int now), JStr (''0x'' @ hex_encode (cl_did cl) sig)]"
  using assms
  by (auto simp: cli_set_def registration_request_def cli_digest_def Let_def and_then_Ok_iff
      json_field_def json_get_def split: if_splits)

lemma cli_signature_verified:
  assumes ok: "cli_lib_ok cl lib" and keys: "derive_keys cl seed = Ok ks" and lt: "now < 2 ^ 64"
    and sig: "sign_prehash cl (ck_private ks) (cli_digest cl ks now) = Ok sig"
  shows "ownership_verified lib (cli_identity cl ks) (cli_did cl ks) (word_of_nat now) sig"
proof -
  obtain u where "secp_keypair cl (ck_private ks) = Ok (ck_secp ks, u)"
    using derive_keys_Ok [OF keys] by blast
  with ok sig have "length sig = 64" "k256_key_ok (dl_crypto (cl_did cl)) (ck_secp ks)"
    "k256_sig_ok (dl_crypto (cl_did cl)) sig" "rl_prehash_verify lib (ck_secp ks) (cli_digest cl ks now) sig"
    unfolding cli_lib_ok_def by blast+
  moreover have "unat (word_of_nat now :: u64) = now" using lt by (simp add: unat_of_nat)
  ultimately show ?thesis
    by (simp add: ownership_verified_def cli_lib_okD [OF ok] cli_identity_def registration_message_def cli_digest_def)
qed

lemma register_cli_did:
  assumes "cli_lib_ok cl lib" and "derive_keys cl seed = Ok ks" and "keys_present ks"
    and "address_to_did r (ck_address ks) = None"
  shows "\<exists>r'. \<forall>pa it. register_user_did (cl_did cl) pa it now r (cli_did cl ks) = Ok (ck_address ks, r')"
proof -
  have "\<not> starts_with (cli_did cl ks) ''did:peer:2''"
    by (simp add: cli_did_def Let_def starts_with_def)
  moreover have "has_all_keys (cli_identity cl ks)"
    using assms(3) by (simp add: has_all_keys_def keys_present_def cli_identity_def)
  ultimately show ?thesis
    using assms(4) resolve_cli_did [OF assms(1,2)]
    by (simp add: register_user_did_def cli_identity_def Let_def)
qed

section \<open>Properties\<close>

text \<open>What the tool sends, the proxy accepts. When the tool derives all keys from a seed, its
  request, handled within five minutes by a node where the address is free, is answered with
  success, and the address then belongs to the DID of the tool with all its keys.\<close>

lemma cli_registration_accepted:
  assumes ok: "cli_lib_ok cl lib"
    and set: "cli_set cl set_seed set_phrase now = Ok (ks, body)" and "keys_present ks"
    and near: "nonce_distance (now_ms env) (word_of_nat now) \<le> 300000"
    and free: "get_did_by_address (rn_registry node) (ck_address ks) = None"
  shows "\<exists>reg. rpc_register_did lib env node rid body =
      (node\<lparr>rn_registry := reg\<rparr>, send_result rid (JObj [(''status'', JStr ''success''),
        (''address'', JStr (rl_checksum lib (ck_address ks)))])) \<and>
    get_did_by_address reg (ck_address ks) = Some (cli_did cl ks) \<and>
    peer_keys reg (cli_did cl ks) = Some full_key \<and>
    identities reg (cli_did cl ks) =
      Some \<lparr>ri_did = cli_did cl ks, ri_doc = cli_identity cl ks, ri_registered_at = now_s env\<rparr>"
proof -
  from set obtain seed sig where keys: "derive_keys cl seed = Ok ks" and lt: "now < 2 ^ 64"
    and sig: "sign_prehash cl (ck_private ks) (cli_digest cl ks now) = Ok sig"
    and ps: "json_field body ''params'' =
      JArr [JStr (cli_did cl ks), JInt (int now), JStr (''0x'' @ hex_encode (cl_did cl) sig)]"
    by (rule cli_set_Ok)
  obtain reg where register: "\<And>pa it. register_user_did (cl_did cl) pa it (now_s env) (rn_registry node)
      (cli_did cl ks) = Ok (ck_address ks, reg)"
    using register_cli_did [OF ok keys assms(3)] free unfolding get_did_by_address_def by meson
  have "as_u64 (JInt (int now)) = Some (word_of_nat now)" using lt by simp
  moreover have "strip_prefix (''0x'' @ hex_string sig) ''0x'' = Some (hex_string sig)"
    by (rule strip_prefix_append)
  moreover have "(300000 < nonce_distance (now_ms env) (word_of_nat now)) = False"
    using near by (simp only: not_less [symmetric] simp_thms)
  ultimately have "rpc_register_did lib env node rid body = (node\<lparr>rn_registry := reg\<rparr>,
      send_result rid (JObj [(''status'', JStr ''success''), (''address'', JStr (rl_checksum lib (ck_address ks)))]))"
    using cli_signature_verified [OF ok keys lt sig]
    by (simp add: rpc_register_did_def param_def ps did_lib_okD [OF cli_lib_okD(1) [OF ok]] json_index_def
        json_nth_def str_or_def cli_lib_okD [OF ok] resolve_cli_did [OF ok keys] register Let_def)
  moreover have "get_did_by_address reg (ck_address ks) = Some (cli_did cl ks)"
    "peer_keys reg (cli_did cl ks) = Some full_key"
    using registered_state(1,2) [OF register] by (simp_all add: get_did_by_address_def)
  moreover have "identities reg (cli_did cl ks) =
      Some \<lparr>ri_did = cli_did cl ks, ri_doc = cli_identity cl ks, ri_registered_at = now_s env\<rparr>"
    by (rule register_user_did_Ok [OF register]) (simp add: resolve_cli_did [OF ok keys] identities_fold insert_identity_def)
  ultimately show ?thesis by blast
qed

definition sample_cli_lib :: cli_lib where
  "sample_cli_lib =
     \<lparr>cl_did = sample_did_lib, cl_hex = (\<lambda>s. Ok (replicate 32 1)), mnemonic_seed = (\<lambda>s. Err ''no words''),
      derive_path = (\<lambda>seed p. Ok seed),
      secp_keypair = (\<lambda>p. Ok (2 # b256_bytes 5, 4 # b256_bytes 5 @ b256_bytes 5)),
      ed_public = (\<lambda>p. p), ml_dsa_public = (\<lambda>p. p), slh_dsa_keygen = Ok [1], falcon_keygen = [1],
      sign_prehash = (\<lambda>p d. Ok (replicate 64 1)), document_json = (\<lambda>vms a k c. print_vms vms),
      parse_address = (\<lambda>s. Err []), parse_u256 = (\<lambda>s r. Err []), parse_signer = (\<lambda>s. Err []),
      sign_and_encode = (\<lambda>k tx. Err [])\<rparr>"

lemma sample_cli_lib_ok: "cli_lib_ok sample_cli_lib sample_rpc_lib"
proof -
  have "did_lib_ok (cl_did sample_cli_lib)" by (simp add: sample_cli_lib_def sample_did_lib_ok)
  moreover have "did_json_parse sample_did_lib (as_bytes (print_vms vms)) = Some vms" for vms
    by (simp add: sample_did_lib_def parse_print_vms)
  moreover have "secp_uncompress sample_did_lib (2 # b256_bytes 5) = Some (4 # b256_bytes 5 @ b256_bytes 5)"
    "k256_key_ok (dl_crypto sample_did_lib) (2 # b256_bytes 5)"
    "k256_sig_ok (dl_crypto sample_did_lib) (replicate 64 1)"
    by (simp_all add: sample_did_lib_def sample_crypto_def)
  ultimately show ?thesis
    unfolding cli_lib_ok_def by (simp add: sample_cli_lib_def sample_rpc_lib_def)
qed

definition sample_cli_keys :: cli_keys where
  "sample_cli_keys = ok_value (derive_keys sample_cli_lib (replicate 32 1))"

lemma sample_cli_keys:
  "derive_keys sample_cli_lib (replicate 32 1) = Ok sample_cli_keys" "keys_present sample_cli_keys"
proof -
  have "evm_address_of_point sample_did_lib (4 # b256_bytes 5 @ b256_bytes 5) = 5"
    using sample_identity_address
    by (simp add: sample_identity_def derive_from_seed_def sample_did_lib_def Let_def)
  moreover have "derive_keys sample_cli_lib (replicate 32 1) = Ok sample_cli_keys"
    by (simp add: sample_cli_keys_def derive_keys_def sample_cli_lib_def Let_def)
  ultimately show "keys_present sample_cli_keys"
    by (simp add: keys_present_def sample_cli_keys_def derive_keys_def sample_cli_lib_def Let_def
        evm_address_of_point_def)
qed (simp add: sample_cli_keys_def derive_keys_def sample_cli_lib_def Let_def)

lemma cli_registration_accepted_witness:
  "\<exists>body reg. cli_set sample_cli_lib (Some ''0x01'') None 900 = Ok (sample_cli_keys, body) \<and>
     rn_registry (fst (rpc_register_did sample_rpc_lib sample_env sample_node (JInt 1) body)) = reg \<and>
     get_did_by_address reg (ck_address sample_cli_keys) = Some (cli_did sample_cli_lib sample_cli_keys)"
proof -
  obtain body where body: "registration_request sample_cli_lib sample_cli_keys 900 = Ok body"
    by (simp add: registration_request_def Let_def sample_cli_lib_def)
  have "seed_bytes sample_cli_lib (Some ''0x01'') None = Ok (replicate 32 1)"
    by (simp add: seed_bytes_def sample_cli_lib_def)
  then have set: "cli_set sample_cli_lib (Some ''0x01'') None 900 = Ok (sample_cli_keys, body)"
    by (simp add: cli_set_def sample_cli_keys(1) body)
  have "nonce_distance (now_ms sample_env) (word_of_nat 900) \<le> 300000"
    by (simp add: nonce_distance_def sample_env_def)
  moreover have "get_did_by_address (rn_registry sample_node) (ck_address sample_cli_keys) = None"
    by (simp add: get_did_by_address_def sample_node_def initial_node_def set_chain_id_def
        validator_registry_default_def validator_registry_new_def)
  ultimately show ?thesis
    using cli_registration_accepted [OF sample_cli_lib_ok set sample_cli_keys(2), of sample_env sample_node "JInt 1"] set
    by auto
qed

end
