(* ===== verification/Proxy_Interleaved.thy ===== *)
theory Proxy_Interleaved
  imports Proxy_Runs
begin

text \<open>
  What the proxy guarantees when its requests interleave at their atomic sections, and where the
  interleaving shows: the mark of the scanned blocks.
\<close>

section \<open>The scan mark\<close>

lemma scanned_sync_tx [simp]: "scanned_block (sync_tx lib env reg num bh st tx) = scanned_block st"
  using sync_tx_cases [of lib env reg num bh st tx] by (auto simp: add_native_transfer_record_def index_under_def)

lemma scanned_sync_block: "scanned_block (sync_block lib env reg st num) \<in> {scanned_block st, num}"
  by (auto simp: sync_block_def Let_def split: outcome.splits)

lemma scanned_sync_blocks:
  "sorted nums \<Longrightarrow> \<forall>n \<in> set nums. scanned_block st \<le> n \<Longrightarrow>
     scanned_block st \<le> scanned_block (foldl (sync_block lib env reg) st nums)"
proof (induction nums arbitrary: st)
  case (Cons num nums)
  let ?st = "sync_block lib env reg st num"
  have "scanned_block st \<le> scanned_block ?st" "\<forall>n \<in> set nums. scanned_block ?st \<le> n"
    using scanned_sync_block [of lib env reg st num] Cons.prems by auto
  with Cons.IH [of ?st] Cons.prems show ?case by auto
qed simp

lemma block_range:
  assumes "ns = map word_of_nat [unat (current :: u64) + 1..<unat (latest :: u64) + 1]"
  shows "sorted ns" and "\<forall>n \<in> set ns. current \<le> (n :: u64)"
proof -
  have lt: "m < 2 ^ 64" if "m < unat latest + 1" for m using that unat_less [of latest] by simp
  then have "word_of_nat m \<le> (word_of_nat m' :: u64)" if "m \<le> m'" "m' < unat latest + 1" for m m'
    using that by (simp add: word_le_nat_alt unat_of_nat)
  then have "sorted_wrt (\<lambda>m m'. word_of_nat m \<le> (word_of_nat m' :: u64)) [unat current + 1..<unat latest + 1]"
    by (intro sorted_wrt_mono_rel [OF _ sorted_upt]) (simp only: set_upt atLeastLessThan_iff)
  then show "sorted ns" unfolding assms by (simp only: sorted_map)
  show "\<forall>n \<in> set ns. current \<le> n"
    unfolding assms using lt by (auto simp: word_le_nat_alt unat_of_nat)
qed

lemma scanned_synced: "scanned_block (rn_hot node) \<le> scanned_block (rn_hot (synced lib env node))"
  using block_range [OF refl] scanned_sync_blocks
  by (auto simp: synced_def sync_hot_storage_def Let_def split: outcome.splits)

lemma scanned_rpc_handle: "scanned_block (rn_hot node) \<le> scanned_block (rn_hot (fst (rpc_handle lib env node request)))"
proof -
  obtain node' r where h: "rpc_handle lib env node request = (node', r)" by fastforce
  have "rpc_register_did lib env node rid body = (node', r) \<Longrightarrow> rn_hot node' = rn_hot node" for rid body
    by (drule rpc_register_did_cases) auto
  moreover have "scanned_block (rn_hot (index_from_raw_tx lib env node raw h sender)) = scanned_block (rn_hot node)" for raw h sender
    using index_from_raw_cases [of lib env node raw h sender]
    by (auto simp: add_native_transfer_record_def index_under_def)
  then have "rpc_send_raw_transaction lib env node request rid body = (node', r) \<Longrightarrow>
      scanned_block (rn_hot node') = scanned_block (rn_hot node)" for rid body
    using rpc_send_raw_cases [of lib env node request rid body node' r] by auto
  ultimately show ?thesis
    using rpc_handle_cases [OF h] scanned_synced [of node lib env] by (auto simp: h)
qed

section \<open>Whole requests as runs\<close>

lemma tasks_run_Cons: "tasks_run lib c' es c'' \<Longrightarrow> tasks_step lib c e c' \<Longrightarrow> tasks_run lib c (e # es) c''"
proof (induction rule: tasks_run.induct)
  case (tasks_nil c')
  from tasks_run.tasks_snoc [OF tasks_run.tasks_nil tasks_nil] show ?case by simp
next
  case (tasks_snoc c' es d f d')
  from tasks_run.tasks_snoc [OF tasks_snoc.IH [OF tasks_snoc.prems] tasks_snoc.hyps(2)] show ?case by simp
qed

lemma tasks_run_task:
  "i < length ts \<Longrightarrow> ts ! i = t \<Longrightarrow>
     \<exists>es. tasks_run lib (node, ts) es (fst (run_task t env node), ts[i := Finish (snd (run_task t env node))])"
proof (induction t arbitrary: node ts)
  case (Finish r)
  then show ?case using tasks_nil [of lib "(node, ts)"] by (metis fst_conv list_update_id run_task.simps(1) snd_conv)
next
  case (Act f k)
  let ?ts = "ts[i := k env node]"
  have "tasks_step lib (node, ts) (Advance i env) (f env node, ?ts)"
    using Act.prems by (rule advance)
  with Act.IH [OF rangeI rangeI, of ?ts env node] Act.prems show ?case
    by (auto dest: tasks_run_Cons)
qed

lemma request_runs:
  "\<exists>es. tasks_run lib (node, ts) (Accept request # es)
     (fst (rpc_handle lib env node request), ts @ [Finish (Some (snd (rpc_handle lib env node request)))])"
proof -
  have t: "(ts @ [rpc_task lib request]) ! length ts = rpc_task lib request" by simp
  from tasks_run_task [OF _ t, of lib node env] run_rpc_task [of lib request env node] obtain es where
    "tasks_run lib (node, ts @ [rpc_task lib request]) es
      (fst (rpc_handle lib env node request), ts @ [Finish (Some (snd (rpc_handle lib env node request)))])"
    by auto
  then show ?thesis using tasks_run_Cons accept by blast
qed

section \<open>Executing events\<close>

fun exec_event :: "rpc_lib \<Rightarrow> rpc_node \<times> task list \<Rightarrow> task_event \<Rightarrow> (rpc_node \<times> task list) option" where
  "exec_event lib (node, ts) (Accept request) = Some (node, ts @ [rpc_task lib request])"
| "exec_event lib (node, ts) (Advance i env) =
     (if i < length ts then
        (case ts ! i of Act f k \<Rightarrow> Some (f env node, ts[i := k env node]) | Finish r \<Rightarrow> None)
      else None)"

lemma tasks_step_exec: "tasks_step lib c e c' \<longleftrightarrow> exec_event lib c e = Some c'"
proof
  show "tasks_step lib c e c' \<Longrightarrow> exec_event lib c e = Some c'"
    by (cases rule: tasks_step.cases) auto
  show "exec_event lib c e = Some c' \<Longrightarrow> tasks_step lib c e c'"
    by (cases "(lib, c, e)" rule: exec_event.cases)
      (auto intro: accept advance split: if_splits task.splits)
qed

fun exec_events :: "rpc_lib \<Rightarrow> rpc_node \<times> task list \<Rightarrow> task_event list \<Rightarrow> (rpc_node \<times> task list) option" where
  "exec_events lib c [] = Some c"
| "exec_events lib c (e # es) = Option.bind (exec_event lib c e) (\<lambda>c. exec_events lib c es)"

lemma tasks_run_exec: "exec_events lib c es = Some c' \<Longrightarrow> tasks_run lib c es c'"
proof (induction es arbitrary: c)
  case (Cons e es)
  then obtain d where "exec_event lib c e = Some d" "exec_events lib d es = Some c'"
    by (auto simp: bind_eq_Some_conv)
  with Cons.IH show ?case by (metis tasks_run_Cons tasks_step_exec)
qed (simp add: tasks_run.tasks_nil)

section \<open>Two scans at once\<close>

text \<open>A client at some block, and a library in which every request asks for logs\<close>

definition client_at :: "u64 \<Rightarrow> rpc_env" where
  "client_at num = sample_env\<lparr>reth := (\<lambda>body.
     if body = block_number_request then Ok (JObj [(''result'', JStr (''0x'' @ lower_hex (unat num)))])
     else Ok (JObj [(''result'', JObj [])]))\<rparr>"

definition logs_lib :: rpc_lib where
  "logs_lib = sample_rpc_lib\<lparr>rl_json := (\<lambda>s. Some (sample_body ''eth_getLogs'' []))\<rparr>"

definition logs_task :: task where
  "logs_task = get_logs_task logs_lib (JInt 1) (sample_body ''eth_getLogs'' [])"

lemma rpc_task_logs: "rpc_task logs_lib [] = look (\<lambda>env node. logs_task)"
proof -
  have "request_body logs_lib [] = sample_body ''eth_getLogs'' []"
    by (simp add: request_body_def logs_lib_def)
  then show ?thesis
    by (simp add: rpc_task_def logs_task_def starts_with_def sample_body_def json_field_def json_get_def
        str_or_def handle_wallet_method_def Let_def)
qed


lemma client_simps:
  "reth (client_at num) block_number_request = Ok (JObj [(''result'', JStr (''0x'' @ lower_hex (unat num)))])"
  "reth (client_at num) (block_request b) = Ok (JObj [(''result'', JObj [])])"
  by (simp_all add: client_at_def block_number_request_def block_request_def)

text \<open>A scan about to fetch the blocks \<open>nums\<close>, and one about to set its mark\<close>

definition scan_blocks :: "u64 list \<Rightarrow> task \<Rightarrow> task" where
  "scan_blocks nums k = sync_blocks_task logs_lib nums k"

definition scan_mark :: "u64 \<Rightarrow> u64 list \<Rightarrow> task \<Rightarrow> task" where
  "scan_mark num nums k = modify (\<lambda>env node. node\<lparr>rn_hot := (rn_hot node)\<lparr>scanned_block := num\<rparr>\<rparr>) (scan_blocks nums k)"

lemma scan_starts:
  assumes "i < length ts" and "ts ! i = sync_task logs_lib k" and "scanned_block (rn_hot node) = current"
    and "current < latest"
  shows "exec_events logs_lib (node, ts) [Advance i (client_at latest), Advance i (client_at latest)] =
    Some (node, ts[i := scan_blocks (map word_of_nat [unat current + 1..<unat latest + 1]) k])"
  using assms by (simp add: sync_task_def client_simps json_field_def json_get_def str_or_def
      block_num_lower_hex [simplified] scan_blocks_def Let_def del: upt_Suc)

lemma scan_fetches:
  assumes "i < length ts" and "ts ! i = scan_blocks (num # nums) k"
  shows "exec_event logs_lib (node, ts) (Advance i (client_at latest)) = Some (node, ts[i := scan_mark num nums k])"
  using assms by (simp add: scan_blocks_def scan_mark_def client_simps json_field_def json_get_def
      extract_result_def Let_def)

lemma scan_marks:
  assumes "i < length ts" and "ts ! i = scan_mark num nums k"
  shows "exec_event logs_lib (node, ts) (Advance i env) =
    Some (node\<lparr>rn_hot := (rn_hot node)\<lparr>scanned_block := num\<rparr>\<rparr>, ts[i := scan_blocks nums k])"
  using assms by (simp add: scan_mark_def)

lemma exec_events_append:
  "exec_events lib c (es @ es') = Option.bind (exec_events lib c es) (\<lambda>c. exec_events lib c es')"
  by (induction es arbitrary: c) simp_all

lemma two_scans:
  fixes k1 k2 :: task
  assumes "length ts = 3" and "ts ! 1 = sync_task logs_lib k1" and "ts ! 2 = sync_task logs_lib k2"
    and "scanned_block (rn_hot node) = 0"
  obtains es e node' ts' node'' ts'' where
    "exec_events logs_lib (node, ts) es = Some (node', ts')" "scanned_block (rn_hot node') = 2"
    "exec_event logs_lib (node', ts') e = Some (node'', ts'')" "scanned_block (rn_hot node'') = 1"
proof -
  let ?a = "Advance 1 (client_at 1)" and ?b = "Advance 2 (client_at 2)"
  have r: "map word_of_nat [unat (0 :: u64) + 1..<unat (1 :: u64) + 1] = [1 :: u64]"
    "map word_of_nat [unat (0 :: u64) + 1..<unat (2 :: u64) + 1] = [1, 2 :: u64]"
    by (simp_all add: upt_rec)
  let ?t1 = "ts[1 := scan_blocks [1] k1]" and ?n2 = "node\<lparr>rn_hot := (rn_hot node)\<lparr>scanned_block := 2\<rparr>\<rparr>"
  have 1: "exec_events logs_lib (node, ts) [?a, ?a] = Some (node, ?t1)"
    using scan_starts [of 1 ts k1 node 0 1] assms unfolding r by simp
  have 2: "exec_events logs_lib (node, ?t1) [?a] = Some (node, ts[1 := scan_mark 1 [] k1])" (is "_ = Some (_, ?t2)")
    using scan_fetches [of 1 ?t1 1 "[]" k1 node 1] assms(1) by simp
  have 3: "exec_events logs_lib (node, ?t2) [?b, ?b] = Some (node, ?t2[2 := scan_blocks [1, 2] k2])" (is "_ = Some (_, ?t3)")
    using scan_starts [of 2 ?t2 k2 node 0 2] assms unfolding r by simp
  have 4: "exec_events logs_lib (node, ?t3) [?b, ?b, ?b, ?b] = Some (?n2, ?t2[2 := scan_blocks [] k2])" (is "_ = Some (_, ?t4)")
    using assms(1) by (simp add: scan_fetches scan_marks del: exec_event.simps)
  have 5: "exec_event logs_lib (?n2, ?t4) ?a = Some (?n2\<lparr>rn_hot := (rn_hot ?n2)\<lparr>scanned_block := 1\<rparr>\<rparr>, ?t4[1 := scan_blocks [] k1])"
    using scan_marks [of 1 ?t4 1 "[]" k1 ?n2 "client_at 1"] assms(1) by simp
  have "exec_events logs_lib (node, ts) ([?a, ?a] @ [?a] @ [?b, ?b] @ [?b, ?b, ?b, ?b]) = Some (?n2, ?t4)"
    unfolding exec_events_append 1 2 3 4 Option.bind.bind_lunit ..
  from that [OF this _ 5] show thesis by simp
qed


section \<open>What no interleaving breaks\<close>

text \<open>C9: however the requests of all connections and the background query interleave, section by
  section, the hot index keeps per address at most 200 records, no two of them for one
  transaction, each a transfer from or to that address.\<close>

theorem interleaved_index_inv:
  assumes "tasks_run lib (tasks_start chain reg) es (node, ts)"
  shows "index_inv (rn_hot node)"
  by (rule index_safe.interleaved_start [OF assms])
    (simp add: initial_node_def set_chain_id_def index_inv_default)

lemma interleaved_index_inv_witness:
  "index_inv (rn_hot (fst (rpc_handle sample_rpc_lib sample_env sample_node sample_request)))"
proof -
  let ?reg = "validator_registry_default\<lparr>peer_keys := [''did:peer:v'' \<mapsto> 1]\<rparr>"
  obtain es where "tasks_run sample_rpc_lib (tasks_start 1337 ?reg) es
      (fst (rpc_handle sample_rpc_lib sample_env sample_node sample_request),
       [chain_id_task 30, Finish (Some (snd (rpc_handle sample_rpc_lib sample_env sample_node sample_request)))])"
    using request_runs [of sample_rpc_lib sample_node "[chain_id_task 30]" sample_request sample_env]
    by (auto simp: tasks_start_def sample_node_def)
  then show ?thesis by (rule interleaved_index_inv)
qed

text \<open>No implicit state block is ever accepted by a node that starts from an empty registry,
  however its requests interleave: no section of any task makes anybody a validator, and a
  block needs the signatures of validators.\<close>

lemma interleaved_no_block_accepted:
  assumes "tasks_run lib (tasks_start chain (validator_registry_new static dyn)) es (node, ts)"
  shows "validate_implicit_state_block cl (rn_registry node) prev diff sigs height \<noteq> Ok r"
  using validators_safe.interleaved_start [OF assms]
  by (intro no_validator_no_block) (simp add: initial_node_def set_chain_id_def validator_registry_new_def)

text \<open>C8: an address, once registered to a long-form peer DID, stays with it. Whatever tasks are under
  way when the registration is written, none of their remaining sections, no later request
  and no answer about the chain identifier takes the address away or makes the DID incomplete.\<close>

theorem interleaved_address_is_held:
  assumes "register_user_did dl pa it now reg did = Ok (a, reg')"
    and "trim did = did" and "starts_with did ''did:peer:4''"
    and "tasks_run lib (tasks_start chain reg0) es (node, ts)" and "rn_registry node = reg'"
    and "tasks_run lib (node, ts) es' (node', ts')"
  shows "get_did_by_address (rn_registry node') a = Some did \<and>
    is_did_fully_registered dl pa it' (rn_registry node') did"
proof -
  have "holds_address did a reg'"
    using registered_state(1,2) [OF assms(1)] by (simp add: holds_address_def)
  with address_safe.interleaved [OF assms(4,6), of did a] assms(2,3,5)
  have "holds_address did a (rn_registry node')" by simp
  then show ?thesis by (rule holds_address_registered [OF _ assms(2,3)])
qed

lemma interleaved_address_is_held_witness:
  "\<exists>reg. register_user_did sample_did_lib (\<lambda>_. None) empty_iteration 0 validator_registry_default
       (did_uri sample_identity) = Ok (5, reg) \<and>
     get_did_by_address (rn_registry (fst (rpc_handle sample_rpc_lib sample_env
       (initial_node (vr_chain_id reg) reg) sample_request))) 5 = Some (did_uri sample_identity)"
proof -
  obtain reg where reg: "register_user_did sample_did_lib (\<lambda>_. None) empty_iteration 0
      validator_registry_default (did_uri sample_identity) = Ok (5, reg)"
    using sample_registration by blast
  let ?n = "initial_node (vr_chain_id reg) reg"
  have start: "tasks_run sample_rpc_lib (tasks_start (vr_chain_id reg) reg) [] (?n, [chain_id_task 30])"
    unfolding tasks_start_def by (rule tasks_nil)
  have same: "rn_registry ?n = reg" by (simp add: initial_node_def set_chain_id_def)
  obtain es ts where "tasks_run sample_rpc_lib (?n, [chain_id_task 30]) es
      (fst (rpc_handle sample_rpc_lib sample_env ?n sample_request), ts)"
    using request_runs by blast
  from interleaved_address_is_held [OF reg sample_identity_uri(2,1) start same this] reg
  show ?thesis by blast
qed


end
