(* ===== verification/Registry_Names.thy ===== *)
theory Registry_Names
  imports Proxy_Runs
begin

text \<open>
  The names of a registered identity (\<open>crates/consensus/src/registry.rs\<close>): a registration stores it
  under four of them, and a lookup rewrites its query before it searches. Lemmas: the normal forms
  of the names, and which of the four are found.
\<close>

text \<open>The alphabet of base 58 has no zero and no white space.\<close>

definition bs58_alphabet :: "did_lib \<Rightarrow> bool" where
  "bs58_alphabet dl \<longleftrightarrow> (\<forall>bs. (bs58_encode dl bs = [] \<longrightarrow> bs = []) \<and> find_sub (bs58_encode dl bs) ''0x'' = None \<and> (\<forall>c \<in> set (bs58_encode dl bs). \<not> is_space c))"

section \<open>The names of a registration\<close>

definition sovereign_name :: "u64 \<Rightarrow> string \<Rightarrow> string" where
  "sovereign_name chain key = ''did:sovereign:'' @ decimal (unat chain) @ '':'' @ key"

definition address_key :: "address \<Rightarrow> string" where
  "address_key a = ''0x'' @ hex_string (address_bytes a)"

definition hash_part :: "sovereign_did_document \<Rightarrow> string" where
  "hash_part doc = drop 10 (short_form doc)"

lemma derived_did:
  assumes "derive_from_seed dl seed = Ok doc"
  obtains t u where "hash_part doc = ''z'' @ bs58_encode dl t" and "short_form doc = ''did:peer:4'' @ hash_part doc"
    and "did_uri doc = ''did:peer:4'' @ hash_part doc @ '':z'' @ bs58_encode dl u"
proof -
  obtain secp u where pt: "secp_point dl seed = Some (secp, u)"
    using assms by (cases "secp_point dl seed") (auto simp: derive_from_seed_def)
  let ?x = "[0x80, 0x04] @ as_bytes (did_json_print dl (seed_verification_methods dl secp))"
  have "short_form doc = ''did:peer:4'' @ peer_hash dl (multibase dl ?x)"
    "did_uri doc = ''did:peer:4'' @ peer_hash dl (multibase dl ?x) @ '':'' @ multibase dl ?x"
    using assms by (auto simp: derive_from_seed_def pt Let_def)
  then show ?thesis
    by (intro that [of "[0x12, 0x20] @ hash (dl_crypto dl) Sha256 (as_bytes (multibase dl ?x))" ?x])
      (simp_all add: hash_part_def peer_hash_def multibase_def)
qed

lemma trim_append:
  assumes "s \<noteq> []" and "\<not> is_space (hd s)" and "t \<noteq> []" and "\<not> is_space (last t)"
  shows "trim (s @ t) = s @ t"
  using assms by (intro trim_id) (auto simp: hd_append)

lemma last_multibase:
  "bs58_alphabet dl \<Longrightarrow> \<not> is_space (last (''z'' @ bs58_encode dl t))"
proof (cases "bs58_encode dl t = []")
  case False
  assume "bs58_alphabet dl"
  with last_in_set [OF False] have "\<not> is_space (last (bs58_encode dl t))" unfolding bs58_alphabet_def by blast
  with False show ?thesis by simp
qed (simp add: is_space_def)

lemma address_key_last: "\<not> is_space (last (address_key a))"
proof -
  have ne: "hex_string (address_bytes a) \<noteq> []"
    using length_hex_string [of "address_bytes a"] by (metis length_value_bytes(1) list.size(3) mult_eq_0_iff zero_neq_numeral)
  then show ?thesis
    using hex_string_no_space [OF last_in_set [OF ne]] ne by (simp add: address_key_def)
qed

lemma split_sovereign:
  "CHR '':'' \<notin> set key \<Longrightarrow> split_on (CHR '':'') (sovereign_name chain key) = [''did'', ''sovereign'', decimal (unat chain), key]"
  using split_on_append [of "CHR '':''" "decimal (unat chain)" key]
  by (simp add: sovereign_name_def notin_decimal)

lemma normalize_sovereign:
  assumes "key \<noteq> []" and "\<not> is_space (last key)" and "CHR '':'' \<notin> set key"
  shows "normalize_query_did (sovereign_name chain key) =
    (if starts_with key ''0x'' then sovereign_name chain key else ''did:peer:'' @ key)"
proof -
  have t: "trim (sovereign_name chain key) = sovereign_name chain key"
    using trim_append [of "''did:sovereign:'' @ decimal (unat chain) @ '':''" key] assms(1,2)
    by (simp add: sovereign_name_def is_space_def)
  have "starts_with (sovereign_name chain key) ''did:sovereign:''"
    unfolding sovereign_name_def by (rule starts_with_append)
  moreover have "starts_with (sovereign_name chain key) ''did:''"
    by (simp add: sovereign_name_def starts_with_def)
  ultimately show ?thesis
    unfolding normalize_query_did_def Let_def t split_sovereign [OF assms(3)] by simp
qed

lemma lookup_stored:
  assumes "register_user_did dl pa it now r did = Ok (a, r')"
    and "name \<in> set (did # derived_names (vr_chain_id r) did a)" and "normalize_query_did name = name"
  shows "is_did_registered dl pa it' r' name \<and> get_address_by_did dl pa it' r' name = Some a"
  using registered_state(2,3) [OF assms(1,2)]
  by (auto simp: is_did_registered_def get_address_by_did_def assms(3) Let_def)

text \<open>A key that the registry does not hold\<close>

definition no_key :: "did_lib \<Rightarrow> validator_registry \<Rightarrow> string \<Rightarrow> bool" where
  "no_key dl r query \<longleftrightarrow> (\<forall>decoded. bs58_decode dl query = Some decoded \<longrightarrow>
     (\<forall>k ident. identities r k = Some ident \<longrightarrow> \<not> doc_matches decoded (ri_doc ident)))"

lemma first_match_None:
  "(\<forall>k ident. identities r k = Some ident \<longrightarrow> \<not> doc_matches decoded (ri_doc ident)) \<Longrightarrow> first_match r decoded ks = None"
  by (induction ks) (auto split: option.splits)

lemma normalize_peer_z:
  assumes "bs58_alphabet dl"
  shows "normalize_query_did (''did:peer:z'' @ bs58_encode dl t) = ''did:peer:z'' @ bs58_encode dl t"
proof -
  have t: "trim (''did:peer:z'' @ bs58_encode dl t) = ''did:peer:z'' @ bs58_encode dl t"
    using trim_append [of "''did:peer:''" "''z'' @ bs58_encode dl t"] last_multibase [OF assms, of t]
    by (simp add: is_space_def)
  show ?thesis unfolding normalize_query_did_def Let_def t by (simp add: starts_with_def)
qed

lemma peer_z_not_registered:
  assumes "bs58_alphabet dl" and "no_key dl r (bs58_encode dl t)"
    and "''did:peer:z'' @ bs58_encode dl t \<notin> dom (peer_keys r)"
  shows "\<not> is_did_registered dl pa it r (''did:peer:z'' @ bs58_encode dl t)"
proof -
  let ?n = "''did:peer:z'' @ bs58_encode dl t"
  note norm = normalize_peer_z [OF assms(1), of t]
  have strip: "strip_prefix ?n ''did:peer:'' = Some (''z'' @ bs58_encode dl t)"
    by (simp add: strip_prefix_def starts_with_def)
  have "find_identity_by_any_key dl it r ?n =
      (case bs58_decode dl (bs58_encode dl t) of None \<Rightarrow> None | Some d \<Rightarrow> first_match r d (it_identities it))"
    unfolding find_identity_by_any_key_def norm Let_def strip by (simp add: starts_with_def)
  then have "find_identity_by_any_key dl it r ?n = None"
    using first_match_None assms(2) by (auto simp: no_key_def split: option.splits)
  moreover have "find_sub (bs58_encode dl t) ''0x'' = None" using assms(1) by (simp add: bs58_alphabet_def)
  then have "find_sub ?n ''0x'' = None" by (simp add: starts_with_def)
  then have "extract_address_from_did dl pa ?n = None"
    unfolding extract_address_from_did_def norm Let_def by (simp add: starts_with_def)
  ultimately show ?thesis
    using assms(3) unfolding is_did_registered_def norm Let_def by simp
qed

text \<open>
  The digest of 32 bytes is none of the derived keys, as long as the library has compressed points of
  33 bytes and digests of 32.
\<close>

lemma digest_is_no_key:
  assumes "did_lib_ok dl" and "derive_from_seed dl seed = Ok doc" and "\<And>bs. length (sha256 (dl_crypto dl) bs) = 32"
    and "\<And>s c u. secp_point dl s = Some (c, u) \<Longrightarrow> length c = 33"
    and "\<And>k ident. identities r k = Some ident \<Longrightarrow> ri_doc ident = doc"
  shows "no_key dl r (drop 1 (hash_part doc))"
proof -
  obtain secp u where pt: "secp_point dl seed = Some (secp, u)"
    using assms(2) by (cases "secp_point dl seed") (auto simp: derive_from_seed_def)
  have keys: "secp256k1_pubkey doc = secp" "ed25519_pubkey doc = [4, 5]" "bls_pubkey doc = [6, 7]" "ml_dsa_pubkey doc = [8, 9]"
    "slh_dsa_pubkey doc = [10, 11]" "falcon_pubkey doc = [12, 13]" "xmss_pubkey doc = [14, 15]"
    using assms(2) by (auto simp: derive_from_seed_def pt Let_def)
  obtain d where h: "hash_part doc = ''z'' @ bs58_encode dl ([0x12, 0x20] @ d)" and d: "length d = 32"
    using assms(2,3) by (auto simp: derive_from_seed_def pt hash_part_def peer_hash_def multibase_def Let_def)
  have "length secp = 33" using assms(4) pt by blast
  then have "\<not> key_matches ([0x12, 0x20] @ d) secp" using d by (auto simp: key_matches_def)
  moreover have "\<not> key_matches ([0x12, 0x20] @ d) [x, y]" for x y using d by (auto simp: key_matches_def)
  ultimately have "\<not> doc_matches ([0x12, 0x20] @ d) doc" unfolding doc_matches_def keys by blast
  with assms(5) show ?thesis
    by (auto simp: no_key_def h did_lib_okD [OF assms(1)])
qed

lemma registered_digest_no_key:
  assumes "did_lib_ok dl" and "derive_from_seed dl seed = Ok doc" and "\<And>bs. length (sha256 (dl_crypto dl) bs) = 32"
    and "\<And>s c u. secp_point dl s = Some (c, u) \<Longrightarrow> length c = 33"
    and "register_user_did dl pa it now r (did_uri doc) = Ok (a, reg)" and "identities r = Map.empty"
  shows "no_key dl reg (drop 1 (hash_part doc))"
proof (rule digest_is_no_key [OF assms(1-4)])
  fix k ident assume "identities reg k = Some ident"
  moreover obtain doc' where "from_did_string dl (did_uri doc) = Some doc'"
    "reg = fold (insert_identity doc' now) (did_uri doc # derived_names (vr_chain_id r) (did_uri doc) a)
      (r\<lparr>address_to_did := (address_to_did r)(a \<mapsto> did_uri doc)\<rparr>)"
    using register_user_did_Ok [OF assms(5)] by metis
  ultimately show "ri_doc ident = doc"
    using resolve_derive_from_seed [OF assms(1,2)] assms(6)
    by (auto simp only: identities_fold split: if_splits) auto
qed

lemma derived_names_derived:
  assumes "did_lib_ok dl" and "derive_from_seed dl seed = Ok doc"
  shows "derived_names chain (did_uri doc) a =
    [short_form doc, sovereign_name chain (hash_part doc), sovereign_name chain (address_key a)]"
proof -
  obtain t u where h: "hash_part doc = ''z'' @ bs58_encode dl t" and short: "short_form doc = ''did:peer:4'' @ hash_part doc"
    and did: "did_uri doc = ''did:peer:4'' @ hash_part doc @ '':z'' @ bs58_encode dl u"
    using assms(2) by (rule derived_did)
  have "CHR '':'' \<notin> set (hash_part doc)" using did_lib_okD(2) [OF assms(1)] by (simp add: h)
  from split_on_append [OF this, of "''z'' @ bs58_encode dl u"] show ?thesis
    by (simp add: derived_names_def peer_hash_component_def did short sovereign_name_def address_key_def strip_prefix_def
        starts_with_def)
qed

lemma derived_did_peer4:
  assumes "bs58_alphabet dl" and "derive_from_seed dl seed = Ok doc"
  shows "trim (did_uri doc) = did_uri doc" and "starts_with (did_uri doc) ''did:peer:4''"
proof -
  obtain u where did: "did_uri doc = ''did:peer:4'' @ hash_part doc @ '':z'' @ bs58_encode dl u"
    using assms(2) by (rule derived_did)
  show "trim (did_uri doc) = did_uri doc"
    using trim_append [of "''did:peer:4'' @ hash_part doc @ '':''" "''z'' @ bs58_encode dl u"] last_multibase [OF assms(1), of u]
    by (simp add: did is_space_def)
  show "starts_with (did_uri doc) ''did:peer:4''" by (simp add: did starts_with_def)
qed

lemma registered_names:
  assumes "did_lib_ok dl" and "bs58_alphabet dl" and "derive_from_seed dl seed = Ok doc"
    and "register_user_did dl pa it now r (did_uri doc) = Ok (a, r')"
  shows "(\<forall>name \<in> {did_uri doc, short_form doc, sovereign_name (vr_chain_id r) (address_key a)}.
      is_did_registered dl pa it' r' name \<and> get_address_by_did dl pa it' r' name = Some a) \<and>
    (no_key dl r' (drop 1 (hash_part doc)) \<and> ''did:peer:'' @ hash_part doc \<notin> dom (peer_keys r) \<longrightarrow>
      sovereign_name (vr_chain_id r) (hash_part doc) \<in> dom (peer_keys r') \<and>
      \<not> is_did_registered dl pa it' r' (sovereign_name (vr_chain_id r) (hash_part doc)))"
proof -
  let ?addr = "sovereign_name (vr_chain_id r) (address_key a)"
  let ?hash = "sovereign_name (vr_chain_id r) (hash_part doc)"
  obtain t u where h: "hash_part doc = ''z'' @ bs58_encode dl t" and short: "short_form doc = ''did:peer:4'' @ hash_part doc"
    and did: "did_uri doc = ''did:peer:4'' @ hash_part doc @ '':z'' @ bs58_encode dl u"
    using assms(3) by (rule derived_did)
  have colon: "CHR '':'' \<notin> set (hash_part doc)" using did_lib_okD(2) [OF assms(1)] by (simp add: h)
  note names = derived_names_derived [OF assms(1,3), of "vr_chain_id r" a]
  have n1: "normalize_query_did (did_uri doc) = did_uri doc"
    using derived_did_peer4 [OF assms(2,3)] by (intro normalize_peer4)
  have "trim (short_form doc) = short_form doc"
    using trim_append [of "''did:peer:4''" "hash_part doc"] last_multibase [OF assms(2), of t]
    by (simp add: short h is_space_def)
  then have n2: "normalize_query_did (short_form doc) = short_form doc"
    by (rule normalize_peer4) (simp add: short starts_with_def)
  have n3: "normalize_query_did ?addr = ?addr"
    using normalize_sovereign [of "address_key a"] address_key_last by (simp add: address_key_def starts_with_def)
  have found: "\<forall>name \<in> {did_uri doc, short_form doc, ?addr}.
      is_did_registered dl pa it' r' name \<and> get_address_by_did dl pa it' r' name = Some a"
    using lookup_stored [OF assms(4)] names n1 n2 n3 by simp
  have stored: "?hash \<in> dom (peer_keys r')" using registered_state(2) [OF assms(4), of ?hash] by (simp add: names domI)
  have nh: "normalize_query_did ?hash = ''did:peer:'' @ hash_part doc"
    using normalize_sovereign [OF _ _ colon] last_multibase [OF assms(2), of t] by (simp add: h starts_with_def)
  have "\<not> is_did_registered dl pa it' r' ?hash"
    if nk: "no_key dl r' (drop 1 (hash_part doc))" and fresh: "''did:peer:'' @ hash_part doc \<notin> dom (peer_keys r)"
  proof -
    have "''did:peer:'' @ hash_part doc \<notin> set (did_uri doc # derived_names (vr_chain_id r) (did_uri doc) a)"
      unfolding names by (simp add: did short h sovereign_name_def)
    then have "''did:peer:'' @ hash_part doc \<notin> dom (peer_keys r')"
      using registered_state(4) [OF assms(4)] fresh by (simp add: domIff)
    then have "\<not> is_did_registered dl pa it' r' (''did:peer:'' @ hash_part doc)"
      using peer_z_not_registered [OF assms(2), of r' t] nk by (simp add: h)
    moreover have "normalize_query_did (''did:peer:'' @ hash_part doc) = ''did:peer:'' @ hash_part doc"
      using normalize_peer_z [OF assms(2), of t] by (simp add: h)
    ultimately show ?thesis by (simp add: is_did_registered_def nh)
  qed
  with found stored show ?thesis by blast
qed

text \<open>The queries by a key: its two multicodec bytes and the key, in base 58\<close>

lemma first_match_all:
  assumes "\<And>k i. identities r k = Some i \<Longrightarrow> doc_matches d (ri_doc i) \<Longrightarrow> primary_identity r i = x"
    and "k \<in> set ks" and "identities r k = Some i" and "doc_matches d (ri_doc i)"
  shows "first_match r d ks = Some x"
  using assms(2)
proof (induction ks)
  case (Cons k' ks)
  then show ?case using assms(1,3,4) by (cases "identities r k'") auto
qed simp

definition doc_keys :: "sovereign_did_document \<Rightarrow> bytes set" where
  "doc_keys doc = {secp256k1_pubkey doc, ed25519_pubkey doc, bls_pubkey doc, ml_dsa_pubkey doc, slh_dsa_pubkey doc,
     falcon_pubkey doc, xmss_pubkey doc}"

definition key_query :: "did_lib \<Rightarrow> bytes \<Rightarrow> string" where
  "key_query dl coded = ''did:peer:z'' @ bs58_encode dl coded"

lemma registered_keys:
  assumes "did_lib_ok dl" and "bs58_alphabet dl" and "derive_from_seed dl seed = Ok doc"
    and reg: "register_user_did dl pa it now r (did_uri doc) = Ok (a, r')"
    and it: "iterates it' r'" and key: "key \<in> doc_keys doc" "key \<noteq> []" and code: "length code = 2"
    and other: "\<And>k ident. identities r k = Some ident \<Longrightarrow> \<not> doc_matches (code @ key) (ri_doc ident)"
  shows "map_option ri_did (find_identity_by_any_key dl it' r' (key_query dl (code @ key))) = Some (did_uri doc)"
proof -
  define names where "names = did_uri doc # derived_names (vr_chain_id r) (did_uri doc) a"
  define me where "me = \<lparr>ri_did = did_uri doc, ri_doc = doc, ri_registered_at = now\<rparr>"
  have "from_did_string dl (did_uri doc) = Some doc" by (rule resolve_derive_from_seed [OF assms(1,3)])
  with reg have a: "a = evm_address doc"
    and r': "r' = fold (insert_identity doc now) names (r\<lparr>address_to_did := (address_to_did r)(a \<mapsto> did_uri doc)\<rparr>)"
    by (auto simp: names_def elim: register_user_did_Ok)
  have ids: "identities r' k = (if k \<in> set names then Some \<lparr>ri_did = k, ri_doc = doc, ri_registered_at = now\<rparr> else identities r k)" for k
    by (simp add: r' identities_fold)
  have own: "did_uri doc \<in> set names" by (simp add: names_def)
  have "address_to_did r' (evm_address doc) = Some (did_uri doc)" using registered_state(1) [OF reg] a by simp
  then have prim: "primary_identity r' i = me" if "ri_doc i = doc" for i
    using ids [of "did_uri doc"] own that by (simp add: primary_identity_def me_def)
  have match: "doc_matches (code @ key) doc"
    using key code by (auto simp: doc_keys_def doc_matches_def key_matches_def)
  have "first_match r' (code @ key) (it_identities it') = Some me"
  proof (rule first_match_all)
    show "primary_identity r' i = me" if "identities r' k = Some i" "doc_matches (code @ key) (ri_doc i)" for k i
      using that other [of k i] prim [of i] by (auto simp: ids split: if_splits)
    show "did_uri doc \<in> set (it_identities it')" using it own by (simp add: iterates_def ids domI)
    show "identities r' (did_uri doc) = Some me" by (simp add: ids own me_def)
    show "doc_matches (code @ key) (ri_doc me)" using match by (simp add: me_def)
  qed
  moreover have "strip_prefix (key_query dl (code @ key)) ''did:peer:'' = Some (''z'' @ bs58_encode dl (code @ key))"
    by (simp add: key_query_def strip_prefix_def starts_with_def)
  moreover have "normalize_query_did (key_query dl (code @ key)) = key_query dl (code @ key)"
    unfolding key_query_def by (rule normalize_peer_z [OF assms(2)])
  ultimately show ?thesis
    by (simp add: find_identity_by_any_key_def Let_def did_lib_okD [OF assms(1)] starts_with_def me_def)
qed

text \<open>The peer form of an address, read by the parser of the primitives crate\<close>

lemma normalize_peer_address: "normalize_query_did (''did:peer:'' @ address_key a) = ''did:peer:'' @ address_key a"
proof -
  have t: "trim (''did:peer:'' @ address_key a) = ''did:peer:'' @ address_key a"
    using trim_append [of "''did:peer:''" "address_key a"] address_key_last [of a] by (simp add: address_key_def is_space_def)
  show ?thesis unfolding normalize_query_did_def Let_def t by (simp add: starts_with_def)
qed

lemma extract_peer_address:
  assumes "pa (address_key a) = Some a"
  shows "extract_address_from_did dl pa (''did:peer:'' @ address_key a) = Some a"
proof -
  have "length (address_key a) = 42" by (simp add: address_key_def)
  moreover have "find_sub (''did:peer:'' @ address_key a) ''0x'' = Some 9" by (simp add: address_key_def starts_with_def)
  moreover have "\<not> starts_with (''did:peer:'' @ address_key a) ''did:sovereign:''" by (simp add: starts_with_def)
  ultimately show ?thesis
    using assms unfolding extract_address_from_did_def Let_def normalize_peer_address by simp
qed

lemma peer_address_found:
  assumes reg: "register_user_did dl pa it now r did = Ok (a, r')" and "pa (address_key a) = Some a"
    and "''did:peer:'' @ address_key a \<notin> dom (identities r')"
  shows "is_did_registered dl pa it' r' (''did:peer:'' @ address_key a)"
    and "get_address_by_did dl pa it' r' (''did:peer:'' @ address_key a) = Some a"
proof -
  let ?q = "''did:peer:'' @ address_key a"
  have "strip_prefix ?q ''did:peer:'' = Some (address_key a)" by (rule strip_prefix_append)
  moreover have "\<not> starts_with (address_key a) ''z''" by (simp add: address_key_def starts_with_def)
  ultimately have any: "find_identity_by_any_key dl it' r' ?q = None"
    unfolding find_identity_by_any_key_def Let_def normalize_peer_address by simp
  note xt = extract_peer_address [of pa a dl, OF assms(2)]
  show "is_did_registered dl pa it' r' ?q"
    unfolding is_did_registered_def Let_def normalize_peer_address any xt
    using registered_state(1,2) [OF reg] by auto
  show "get_address_by_did dl pa it' r' ?q = Some a"
    unfolding get_address_by_did_def Let_def normalize_peer_address any xt
    using registered_state(1) [OF reg] assms(3) by (auto simp: domIff)
qed

section \<open>Properties\<close>


lemma sample_bs58_alphabet: "bs58_alphabet sample_did_lib"
proof -
  have "find_sub (hex_string bs) ''0x'' = None" for bs
    using find_sub_Some_subset [of "hex_string bs" "''0x''"] notin_hex_string [of "CHR ''x''" bs]
    by (cases "find_sub (hex_string bs) ''0x''") auto
  moreover have "hex_string bs = [] \<longleftrightarrow> bs = []" for bs
    using length_hex_string [of bs] by (metis length_0_conv mult_eq_0_iff zero_neq_numeral)
  ultimately show ?thesis
    using hex_string_no_space by (auto simp: bs58_alphabet_def sample_did_lib_def)
qed

lemma iteration_exists:
  assumes "finite (dom (identities r))" and "finite (dom (address_to_did r))" and "finite (dom (peer_keys r))"
  shows "\<exists>it. iterates it r"
proof -
  obtain xs ys zs where "set xs = dom (identities r)" "distinct xs" "set ys = dom (address_to_did r)" "distinct ys"
    "set zs = dom (peer_keys r)" "distinct zs"
    using finite_distinct_list [OF assms(1)] finite_distinct_list [OF assms(2)] finite_distinct_list [OF assms(3)] by blast
  then have "iterates \<lparr>it_identities = xs, it_addresses = ys, it_peer_keys = zs\<rparr> r" by (simp add: iterates_def)
  then show ?thesis ..
qed


end
