(* ===== verification/Onboarding.thy ===== *)
theory Onboarding
  imports Did_Cli Proxy_Interleaved Registry_Names
begin

text \<open>
  The onboarding tool (\<open>crates/node/src/did_cli.rs\<close>) and the proxy together: what the tool registers,
  the tool finds again, however the requests in between interleave. The identity a node holds
  is one more \<open>task_invariant\<close>.
\<close>

section \<open>The DID of the tool as a query\<close>

lemma find_0x_append:
  "find_sub a ''0x'' = None \<Longrightarrow> find_sub (c # b) ''0x'' = None \<Longrightarrow> c \<noteq> CHR ''x'' \<Longrightarrow>
     find_sub (a @ c # b) ''0x'' = None"
proof (induction a)
  case (Cons x a)
  then show ?case by (cases a) (auto simp: starts_with_def numeral_2_eq_2 split: if_splits)
qed simp

lemma cli_did_uri:
  assumes "bs58_alphabet (cl_did cl)"
  shows "starts_with (cli_did cl ks) ''did:peer:4''" and "trim (cli_did cl ks) = cli_did cl ks"
    and "find_sub (cli_did cl ks) ''0x'' = None"
proof -
  obtain t u where d: "cli_did cl ks = ''did:peer:4z'' @ bs58_encode (cl_did cl) t @ '':z'' @ bs58_encode (cl_did cl) u"
    and ne: "u \<noteq> []"
    by (auto simp: cli_did_def cli_document_def multibase_def Let_def)
  show "starts_with (cli_did cl ks) ''did:peer:4''"
    unfolding d by (simp add: starts_with_def)
  have "bs58_encode (cl_did cl) u \<noteq> []" using assms ne unfolding bs58_alphabet_def by blast
  then have "last (cli_did cl ks) \<in> set (bs58_encode (cl_did cl) u)" by (simp add: d)
  then have "\<not> is_space (last (cli_did cl ks))" using assms by (auto simp: bs58_alphabet_def)
  moreover have "\<not> is_space (hd (cli_did cl ks))" by (simp add: d is_space_def)
  ultimately show "trim (cli_did cl ks) = cli_did cl ks" by (intro trim_id) blast
  have n: "find_sub (bs58_encode (cl_did cl) bs) ''0x'' = None" for bs
    using assms by (simp add: bs58_alphabet_def)
  have "find_sub ('':z'' @ bs58_encode (cl_did cl) u) ''0x'' = None"
    using n [of u] by (simp add: starts_with_def)
  then have "find_sub (bs58_encode (cl_did cl) t @ '':z'' @ bs58_encode (cl_did cl) u) ''0x'' = None"
    using find_0x_append [OF n, of "CHR '':''" "''z'' @ bs58_encode (cl_did cl) u" t] by simp
  then show "find_sub (cli_did cl ks) ''0x'' = None"
    unfolding d by (simp add: starts_with_def)
qed

text \<open>Only hexadecimal digits decode.\<close>

definition hex_digits_only :: "cli_lib \<Rightarrow> bool" where
  "hex_digits_only cl \<longleftrightarrow> (\<forall>s bs. cl_hex cl s = Ok bs \<longrightarrow> set s \<subseteq> set ''0123456789abcdefABCDEF'')"

lemma cli_did_no_address:
  assumes "hex_digits_only cl"
  shows "\<not> is_address_text cl (cli_did cl ks)"
proof -
  obtain rest where d: "cli_did cl ks = ''did:peer'' @ rest" by (simp add: cli_did_def Let_def)
  then have t: "trim_start_matches ''0x'' (cli_did cl ks) = cli_did cl ks"
    by (simp add: trim_start_matches.simps starts_with_def)
  have "CHR '':'' \<in> set (cli_did cl ks)" by (simp add: d)
  then have "\<not> is_ok (cl_hex cl (cli_did cl ks))"
    using assms unfolding hex_digits_only_def by (cases "cl_hex cl (cli_did cl ks)") fastforce+
  moreover have "\<not> starts_with (cli_did cl ks) ''0x''" by (simp add: d starts_with_def)
  ultimately show ?thesis by (simp add: is_address_text_def t)
qed

text \<open>What a node holds of an identity: address, keys and document\<close>

definition holds_identity :: "sovereign_did_document \<Rightarrow> string \<Rightarrow> validator_registry \<Rightarrow> bool" where
  "holds_identity doc did reg \<longleftrightarrow> holds_address did (evm_address doc) reg \<and>
     (\<exists>t. identities reg did = Some \<lparr>ri_did = did, ri_doc = doc, ri_registered_at = t\<rparr>)"

definition long_form :: "string \<Rightarrow> bool" where
  "long_form did \<longleftrightarrow> trim did = did \<and> (\<exists>h d. did = ''did:peer:4'' @ h @ '':'' @ d)"

lemma long_formD:
  assumes "long_form did"
  shows "trim did = did" and "starts_with did ''did:peer:4''" and "did \<notin> set (derived_names c d a)"
proof -
  obtain h x where did: "did = ''did:peer:4'' @ h @ '':'' @ x" using assms by (auto simp: long_form_def)
  show "trim did = did" using assms by (simp add: long_form_def)
  show "starts_with did ''did:peer:4''" unfolding did by (rule starts_with_append)
  have "CHR '':'' \<notin> set (hd (split_on (CHR '':'') s))" for s by (induction s) (auto split: list.splits)
  then show "did \<notin> set (derived_names c d a)"
    by (auto simp: did derived_names_def peer_hash_component_def split: option.splits)
      (metis append.assoc append_Cons in_set_conv_decomp)+
qed

lemma holds_identity_register:
  assumes "holds_identity doc did reg" and "long_form did" and "from_did_string dl did = Some doc"
    and "register_user_did dl pa it now reg did2 = Ok (a2, reg')"
  shows "holds_identity doc did reg'"
proof -
  note long = long_formD [OF assms(2)]
  have held: "holds_address did (evm_address doc) reg" using assms(1) by (simp add: holds_identity_def)
  have "did2 \<noteq> did"
  proof
    assume "did2 = did"
    moreover have "is_did_fully_registered dl pa it reg did"
      using holds_address_registered [OF held long(1,2)] by blast
    ultimately show False
      using assms(3,4) held by (simp add: register_user_did_def holds_address_def Let_def split: if_splits)
  qed
  with long(3) have "identities reg' did = identities reg did"
    using registered_state(4) [OF assms(4), of did] by simp
  with holds_address_register [OF held long(1,2) assms(4)] assms(1) show ?thesis
    by (simp add: holds_identity_def)
qed

lemma holds_identity_others [simp]:
  "holds_identity doc did (reg\<lparr>vr_chain_id := c\<rparr>) = holds_identity doc did reg"
  by (simp add: holds_identity_def)

lemma holds_identity_placeholder:
  assumes "holds_identity doc did reg" and "long_form did"
  shows "holds_identity doc did (ensure_placeholder c b reg)"
proof -
  have "identities (ensure_placeholder c b reg) did = identities reg did"
    by (simp add: ensure_placeholder_def Let_def)
  with assms holds_address_placeholder long_formD(2) [OF assms(2)] show ?thesis
    by (simp add: holds_identity_def)
qed

interpretation identity_safe: task_invariant lib
    "\<lambda>n. long_form did \<and> from_did_string (rl_did lib) did = Some doc \<and> holds_identity doc did (rn_registry n)"
  for lib did doc
  by unfold_locales (auto intro: holds_identity_register holds_identity_placeholder)

section \<open>Asking for it\<close>

definition tool_keys :: "did_lib \<Rightarrow> cli_keys \<Rightarrow> (string \<times> string) list" where
  "tool_keys dl ks =
     [(''secp256k1'', multibase dl ([0xe7, 0x01] @ ck_secp ks)), (''ed25519'', multibase dl ([0xed, 0x01] @ ck_ed ks)),
      (''bls12381'', multibase dl ([0xea, 0x01] @ ck_bls ks)), (''mldsa65'', multibase dl ([0x93, 0x01] @ ck_ml ks)),
      (''slhdsa'', multibase dl ([0x94, 0x01] @ ck_slh ks)), (''falcon'', multibase dl ([0x92, 0x01] @ ck_falcon ks)),
      (''xmss'', multibase dl ([0x95, 0x01] @ ck_xmss ks))]"

text \<open>The tool talks to a proxy; \<open>http\<close> is the text of the request that carries a body.\<close>

definition proxy_post ::
  "rpc_lib \<Rightarrow> rpc_env \<Rightarrow> rpc_node \<Rightarrow> (json \<Rightarrow> string) \<Rightarrow> string \<Rightarrow> json \<Rightarrow> (json, string) outcome" where
  "proxy_post lib env node http url body =
     (case snd (rpc_handle lib env node (http body)) of JsonReply r \<Rightarrow> Ok r | OptionsReply \<Rightarrow> Err [])"

definition carries :: "rpc_lib \<Rightarrow> (json \<Rightarrow> string) \<Rightarrow> json \<Rightarrow> bool" where
  "carries lib http body \<longleftrightarrow> request_body lib (http body) = body \<and> \<not> starts_with (http body) ''OPTIONS''"

lemma get_did_answer:
  assumes "holds_identity doc did reg" and "long_form did" and "find_sub did ''0x'' = None"
  shows "sovereign_get_did lib env reg did = JObj [(''registered'', JBool True), (''did'', JStr did),
    (''address'', JStr (prefixed_address (evm_address doc))), (''keys'', keys_of_identity lib reg did)]"
proof -
  note norm = normalize_peer4 [OF long_formD(1,2) [OF assms(2)]]
  obtain rest where did: "did = ''did:peer:'' @ ''4'' @ rest"
    using long_formD(2) [OF assms(2)] unfolding starts_with_def by (metis append_take_drop_id append.assoc append_Cons append_Nil length_Cons)
  then have "strip_prefix did ''did:peer:'' = Some (''4'' @ rest)" by (simp only: strip_prefix_append)
  then have any: "find_identity_by_any_key dl it reg did = None" for dl it
    by (simp add: find_identity_by_any_key_def norm starts_with_def)
  have "\<not> starts_with did ''did:sovereign:''" by (simp add: did starts_with_def)
  then have addr: "extract_address_from_did dl pa did = None" for dl pa
    by (simp add: extract_address_from_did_def norm assms(3))
  have held: "peer_keys reg did = Some full_key" "\<exists>t. identities reg did = Some \<lparr>ri_did = did, ri_doc = doc, ri_registered_at = t\<rparr>"
    using assms(1) by (auto simp: holds_identity_def holds_address_def)
  then show ?thesis
    by (auto simp: sovereign_get_did_def norm resolve_query_def any addr is_did_registered_def
        get_address_by_did_def address_text_def Let_def)
qed

lemma keys_of_tool:
  assumes "holds_identity (cli_identity cl ks) did reg" and "rl_did lib = cl_did cl"
  shows "keys_of_identity lib reg did = JObj (map (\<lambda>(curve, key). (curve, JStr key)) (tool_keys (cl_did cl) ks))"
  using assms
  by (auto simp: holds_identity_def keys_of_identity_def encode_multibase_def tool_keys_def multibase_def cli_identity_def)

lemma query_report:
  assumes "carries lib http (cli_get cl did)" and "rl_did lib = cl_did cl" and "\<not> is_address_text cl did"
    and "holds_identity (cli_identity cl ks) did (rn_registry node)" and "long_form did" and "find_sub did ''0x'' = None"
  shows "cli_main cl (proxy_post lib env node http) now
      \<lparr>ca_command = Some (GetCmd did), ca_seed = s, ca_seedphrase = p, ca_rpc_url = u\<rparr> =
    Ok (DidFound did (prefixed_address (ck_address ks)) (tool_keys (cl_did cl) ks))"
proof -
  have body: "cli_get cl did = JObj [(''jsonrpc'', JStr ''2.0''), (''method'', JStr ''sovereign_getDid''),
      (''params'', JArr [JStr did]), (''id'', JInt 1)]"
    using assms(3) by (simp add: cli_get_def)
  let ?result = "sovereign_get_did lib env (rn_registry node) did"
  have "rpc_handle lib env node (http (cli_get cl did)) = (node, send_result (JInt 1) ?result)"
    using assms(1) by (simp add: carries_def rpc_handle_def body handle_wallet_method_def json_field_def
        json_get_def str_or_def param_def json_index_def json_nth_def Let_def)
  then have "proxy_post lib env node http u (cli_get cl did) =
      Ok (JObj [(''jsonrpc'', JStr ''2.0''), (''result'', ?result), (''id'', JInt 1)])"
    by (simp add: proxy_post_def send_result_def reply_with_def get_did_answer [OF assms(4-6)] json_get_def)
  moreover have "evm_address (cli_identity cl ks) = ck_address ks" by (simp add: cli_identity_def)
  ultimately show ?thesis
    by (simp add: cli_main_def get_report_def get_did_answer [OF assms(4-6)] keys_of_tool [OF assms(4,2)]
        json_get_def json_field_def str_or_def Let_def comp_def case_prod_beta)
qed

section \<open>Property\<close>

lemma cli_set_fields:
  assumes "cli_set cl set_seed set_phrase now = Ok (ks, body)"
  shows "json_field body ''method'' = JStr ''sovereign_registerDid''" "json_field body ''id'' = JInt 1"
  using assms by (auto simp: cli_set_def registration_request_def Let_def and_then_Ok_iff json_field_def
      json_get_def split: if_splits)

lemma long_form_cli_did:
  assumes "bs58_alphabet (cl_did cl)"
  shows "long_form (cli_did cl ks)"
  using cli_did_uri(2) [OF assms] by (auto simp: long_form_def cli_did_def Let_def)

text \<open>C5: what the tool registers, the tool finds from then on. When the tool derives all keys from a
  seed and a node handles its request within five minutes while the address is free, the tool
  reports success; and whatever tasks were under way and whatever requests come later, in
  whatever interleaving, a query of the tool for its DID reports the DID with its address and
  exactly the seven keys that the tool derived.\<close>

theorem onboarded_identity_found:
  assumes ok: "cli_lib_ok cl lib" and alphabet: "bs58_alphabet (cl_did cl)" and hex: "hex_digits_only cl"
    and set: "cli_set cl seed phrase now = Ok (ks, body)" and keys: "keys_present ks"
    and sent: "carries lib http body" "carries lib http (cli_get cl (cli_did cl ks))"
    and before: "tasks_run lib (tasks_start chain reg) es (node, ts)"
    and near: "nonce_distance (now_ms env) (word_of_nat now) \<le> 300000"
    and free: "get_did_by_address (rn_registry node) (ck_address ks) = None"
    and after: "tasks_run lib (fst (rpc_handle lib env node (http body)), ts) es' (node', ts')"
  shows "(\<exists>result. cli_main cl (proxy_post lib env node http) now
      \<lparr>ca_command = Some (SetCmd seed phrase), ca_seed = s, ca_seedphrase = p, ca_rpc_url = u\<rparr> =
      Ok (RegistrationSucceeded (ck_address ks) (cli_did cl ks) result)) \<and>
    cli_main cl (proxy_post lib env' node' http) now'
      \<lparr>ca_command = Some (GetCmd (cli_did cl ks)), ca_seed = s, ca_seedphrase = p, ca_rpc_url = u\<rparr> =
      Ok (DidFound (cli_did cl ks) (prefixed_address (ck_address ks)) (tool_keys (cl_did cl) ks))"
proof
  let ?did = "cli_did cl ks" and ?doc = "cli_identity cl ks"
  obtain r where reg: "rpc_register_did lib env node (JInt 1) body =
      (node\<lparr>rn_registry := r\<rparr>, send_result (JInt 1) (JObj [(''status'', JStr ''success''),
        (''address'', JStr (rl_checksum lib (ck_address ks)))]))"
    and held: "get_did_by_address r (ck_address ks) = Some ?did" "peer_keys r ?did = Some full_key"
      "identities r ?did = Some \<lparr>ri_did = ?did, ri_doc = ?doc, ri_registered_at = now_s env\<rparr>"
    using cli_registration_accepted [OF ok set keys near free] by blast
  have handled: "rpc_handle lib env node (http body) = (node\<lparr>rn_registry := r\<rparr>, send_result (JInt 1)
      (JObj [(''status'', JStr ''success''), (''address'', JStr (rl_checksum lib (ck_address ks)))]))"
    using sent(1) by (simp add: carries_def rpc_handle_def cli_set_fields [OF set] str_or_def reg)
  show "\<exists>result. cli_main cl (proxy_post lib env node http) now
      \<lparr>ca_command = Some (SetCmd seed phrase), ca_seed = s, ca_seedphrase = p, ca_rpc_url = u\<rparr> =
      Ok (RegistrationSucceeded (ck_address ks) ?did result)"
    by (simp add: cli_main_def set proxy_post_def handled set_report_def send_result_def reply_with_def json_get_def)
  show "cli_main cl (proxy_post lib env' node' http) now'
      \<lparr>ca_command = Some (GetCmd ?did), ca_seed = s, ca_seedphrase = p, ca_rpc_url = u\<rparr> =
      Ok (DidFound ?did (prefixed_address (ck_address ks)) (tool_keys (cl_did cl) ks))"
  proof (rule query_report)
    have "from_did_string (rl_did lib) ?did = Some ?doc"
      using set resolve_cli_did [OF ok] cli_lib_okD(2) [OF ok] by (metis cli_set_Ok)
    moreover have "evm_address ?doc = ck_address ks" by (simp add: cli_identity_def)
    with held have "holds_identity ?doc ?did r"
      by (simp add: holds_identity_def holds_address_def get_did_by_address_def)
    ultimately show "holds_identity ?doc ?did (rn_registry node')"
      using identity_safe.interleaved [OF before after, of ?did ?doc] handled long_form_cli_did [OF alphabet] by simp
  qed (use sent(2) cli_lib_okD(2) [OF ok] cli_did_no_address [OF hex] long_form_cli_did [OF alphabet]
      cli_did_uri(3) [OF alphabet] in simp_all)
qed

section \<open>A tool and a node\<close>

definition onboarding_cli :: cli_lib where
  "onboarding_cli = sample_cli_lib\<lparr>cl_hex := (\<lambda>s.
     if set s \<subseteq> set ''0123456789abcdefABCDEF'' then Ok (replicate 32 1) else Err ''invalid character'')\<rparr>"

definition onboarding_query :: json where
  "onboarding_query = cli_get onboarding_cli (cli_did onboarding_cli sample_cli_keys)"

text \<open>Two texts stand for the two requests.\<close>

definition onboarding_http :: "json \<Rightarrow> string" where
  "onboarding_http body = (if body = onboarding_query then ''get'' else ''set'')"

definition onboarding_rpc :: "json \<Rightarrow> rpc_lib" where
  "onboarding_rpc body = sample_rpc_lib\<lparr>rl_json := (\<lambda>s. Some (if s = ''get'' then onboarding_query else body))\<rparr>"

lemma onboarding_libs:
  "cli_lib_ok onboarding_cli (onboarding_rpc body)" "bs58_alphabet (cl_did onboarding_cli)"
  "hex_digits_only onboarding_cli"
proof -
  show "cli_lib_ok onboarding_cli (onboarding_rpc body)"
    using sample_cli_lib_ok by (simp add: cli_lib_ok_def onboarding_cli_def onboarding_rpc_def)
  show "bs58_alphabet (cl_did onboarding_cli)"
    using sample_bs58_alphabet by (simp add: onboarding_cli_def sample_cli_lib_def)
  show "hex_digits_only onboarding_cli"
    by (auto simp: hex_digits_only_def onboarding_cli_def split: if_splits)
qed

lemma onboarding_set:
  obtains body where "cli_set onboarding_cli (Some ''0x01'') None 900 = Ok (sample_cli_keys, body)"
    "carries (onboarding_rpc body) onboarding_http body"
    "carries (onboarding_rpc body) onboarding_http onboarding_query"
proof -
  obtain body where body: "registration_request onboarding_cli sample_cli_keys 900 = Ok body"
    by (simp add: registration_request_def Let_def onboarding_cli_def sample_cli_lib_def)
  have "seed_bytes onboarding_cli (Some ''0x01'') None = Ok (replicate 32 1)"
    by (simp add: seed_bytes_def onboarding_cli_def starts_with_def trim_start_matches.simps)
  moreover have "derive_keys onboarding_cli seed = derive_keys sample_cli_lib seed" for seed
    by (simp add: derive_keys_def onboarding_cli_def)
  ultimately have set: "cli_set onboarding_cli (Some ''0x01'') None 900 = Ok (sample_cli_keys, body)"
    by (simp add: cli_set_def sample_cli_keys(1) body)
  have "body \<noteq> onboarding_query"
    using cli_set_fields(1) [OF set] by (auto simp: onboarding_query_def cli_get_def json_field_def json_get_def)
  then have "carries (onboarding_rpc body) onboarding_http body" "carries (onboarding_rpc body) onboarding_http onboarding_query"
    by (simp_all add: carries_def request_body_def onboarding_rpc_def onboarding_http_def starts_with_def crlf2_def)
  with set that show thesis by blast
qed

lemma onboarded_identity_found_witness:
  "\<exists>body. cli_main onboarding_cli (proxy_post (onboarding_rpc body) sample_env
       (fst (rpc_handle (onboarding_rpc body) sample_env sample_node (onboarding_http body))) onboarding_http) 950
     \<lparr>ca_command = Some (GetCmd (cli_did onboarding_cli sample_cli_keys)), ca_seed = None, ca_seedphrase = None,
       ca_rpc_url = ''http://localhost:8545''\<rparr> =
   Ok (DidFound (cli_did onboarding_cli sample_cli_keys) (prefixed_address (ck_address sample_cli_keys)) (tool_keys sample_did_lib sample_cli_keys))"
proof -
  obtain body where set: "cli_set onboarding_cli (Some ''0x01'') None 900 = Ok (sample_cli_keys, body)"
    and sent: "carries (onboarding_rpc body) onboarding_http body"
      "carries (onboarding_rpc body) onboarding_http (cli_get onboarding_cli (cli_did onboarding_cli sample_cli_keys))"
    by (rule onboarding_set) (simp add: onboarding_query_def)
  have before: "tasks_run (onboarding_rpc body) (tasks_start 1337 (validator_registry_default\<lparr>peer_keys := [''did:peer:v'' \<mapsto> 1]\<rparr>))
      [] (sample_node, [chain_id_task 30])"
    unfolding tasks_start_def sample_node_def by (rule tasks_nil)
  have near: "nonce_distance (now_ms sample_env) (word_of_nat 900) \<le> 300000"
    by (simp add: nonce_distance_def sample_env_def)
  have free: "get_did_by_address (rn_registry sample_node) (ck_address sample_cli_keys) = None"
    by (simp add: get_did_by_address_def sample_node_def initial_node_def set_chain_id_def
        validator_registry_default_def validator_registry_new_def)
  note found = onboarded_identity_found [OF onboarding_libs set sample_cli_keys(2) sent before near free tasks_nil,
      THEN conjunct2, of sample_env 950 None None "''http://localhost:8545''"]
  have "cl_did onboarding_cli = sample_did_lib" by (simp add: onboarding_cli_def sample_cli_lib_def)
  with found show ?thesis by (simp only:) blast
qed

end
