(* ===== verification/Node_Main.thy ===== *)
theory Node_Main
  imports Proxy_Interleaved Config
begin

text \<open>
  The start of the node (\<open>crates/node/src/main.rs\<close>): the rewriting of the HTTP port between the proxy
  and the execution client, the merge of defaults, configuration file, environment and arguments,
  what is launched, and the loop of the execution extension. Argument parsing, the file system and
  the execution client are parameters; log output is left out. Lemmas: the client is started on
  the port that the proxy forwards to, which source of a setting wins, and no started node
  accepts a block.
\<close>

section \<open>The HTTP port\<close>

definition parse_u16 :: "string \<Rightarrow> u16 option" where
  "parse_u16 s =
     (let digits = (case s of [] \<Rightarrow> [] | c # r \<Rightarrow> if c = CHR ''+'' then r else s)
      in if digits = [] \<or> \<not> list_all (\<lambda>c. 48 \<le> (of_char c :: nat) \<and> (of_char c :: nat) \<le> 57) digits then None
         else let n = foldl (\<lambda>n c. 10 * n + (of_char c - 48)) (0 :: nat) digits
              in if n < 2 ^ 16 then Some (word_of_nat n) else None)"

text \<open>One iteration of the scan of the arguments; the state is the port and its position.\<close>

definition scan_arg :: "string list \<Rightarrow> u16 \<times> nat option \<Rightarrow> nat \<Rightarrow> u16 \<times> nat option" where
  "scan_arg args st i =
     (if args ! i = ''--http.port'' \<and> i + 1 < length args
      then case parse_u16 (args ! (i + 1)) of Some p \<Rightarrow> (p, Some (i + 1)) | None \<Rightarrow> st
      else st)"

definition scan_port :: "string list \<Rightarrow> u16 \<times> nat option" where
  "scan_port args = foldl (scan_arg args) (8545, None) [0..<length args]"

text \<open>
  The port of the proxy, the port of the client and the client's arguments. The addition panics on
  overflow in a build with overflow checks and wraps around in one without.
\<close>

definition intercept_port :: "bool \<Rightarrow> string list \<Rightarrow> (u16 \<times> u16 \<times> string list, unit) outcome" where
  "intercept_port overflow_checks args =
     (let (port, port_idx) = scan_port args; reth_port = port + 1 in
      if overflow_checks \<and> unat port = 2 ^ 16 - 1 then Panic
      else Ok (port, reth_port,
        case port_idx of
          Some idx \<Rightarrow> args[idx := decimal (unat reth_port)]
        | None \<Rightarrow>
            if ''--http'' \<in> set args \<or> ''node'' \<in> set args
            then args @ [''--http.port'', decimal (unat reth_port)] else args))"

section \<open>Configuration\<close>

record sovereign_args =
  sov_node_type :: string
  sov_tee :: string
  sov_did_peer4 :: "string option"
  sov_delegation_proof :: "string option"
  sov_merit_threshold :: f64
  sov_config :: "string option"
  sov_zero_latency_quantum_trigger :: bool
  sov_pq_scheme :: "string option"
  sov_block_time :: "u64 option"
  sov_crypto_profile :: "string option"
  sov_parallel_engine :: "string option"

definition sovereign_args_default :: sovereign_args where
  "sovereign_args_default =
     \<lparr>sov_node_type = ''replica'', sov_tee = ''none'', sov_did_peer4 = None, sov_delegation_proof = None,
      sov_merit_threshold = Fin 0, sov_config = None, sov_zero_latency_quantum_trigger = False,
      sov_pq_scheme = None, sov_block_time = None, sov_crypto_profile = None, sov_parallel_engine = None\<rparr>"

definition or_else :: "'a option \<Rightarrow> 'a option \<Rightarrow> 'a option" where
  "or_else a b = (case a of None \<Rightarrow> b | Some _ \<Rightarrow> a)"

definition file_config :: "(string \<Rightarrow> node_config option) \<Rightarrow> sovereign_args \<Rightarrow> node_config" where
  "file_config load args =
     (case Option.bind (sov_config args) load of
        Some cfg \<Rightarrow> cfg
      | None \<Rightarrow> \<lparr>static_cfg = static_config_default, dynamic_cfg = dynamic_config_default\<rparr>)"

text \<open>\<open>env\<close> is the process environment, \<open>load\<close> is \<open>load_from_file\<close>.\<close>

definition configure ::
  "(string \<rightharpoonup> string) \<Rightarrow> (string \<Rightarrow> node_config option) \<Rightarrow> sovereign_args \<Rightarrow> node_config" where
  "configure env load args =
     (let cfg = file_config load args; s = static_cfg cfg; d = dynamic_cfg cfg;
          env_quantum = (case env ''QUANTUM_THREAT'' of Some v \<Rightarrow> v = ''true'' \<or> v = ''1'' | None \<Rightarrow> False);
          d = (if sov_zero_latency_quantum_trigger args \<or> env_quantum
               then d\<lparr>zero_latency_quantum_trigger := True\<rparr> else d);
          d = (case or_else (or_else (sov_pq_scheme args) (env ''PQ_SCHEME'')) (env ''DEFAULT_PQ_SCHEME'') of
                 Some scheme \<Rightarrow> d\<lparr>default_pq_scheme := to_lowercase scheme\<rparr> | None \<Rightarrow> d);
          s = (case sov_block_time args of
                 Some t \<Rightarrow> s\<lparr>epoch := (epoch s)\<lparr>block_time_ms := t\<rparr>\<rparr> | None \<Rightarrow> s);
          d = (case sov_crypto_profile args of
                 Some p \<Rightarrow> d\<lparr>default_crypto_profile := to_lowercase p\<rparr> | None \<Rightarrow> d);
          d = (case sov_parallel_engine args of
                 Some e \<Rightarrow> d\<lparr>parallel_execution_engine := to_lowercase e\<rparr> | None \<Rightarrow> d)
      in \<lparr>static_cfg = s, dynamic_cfg = d\<rparr>)"

text \<open>The registry that the process starts with: \<open>init_registry\<close> may have been called before.\<close>

definition start_registry ::
  "validator_registry option \<Rightarrow> node_config \<Rightarrow> validator_registry" where
  "start_registry cell cfg =
     (case init_registry cell (static_cfg cfg) (dynamic_cfg cfg) of
        Ok r \<Rightarrow> r | _ \<Rightarrow> get_registry cell)"

section \<open>The launch\<close>

datatype consensus_builder = EthereumConsensus | NoopConsensusBuilder

text \<open>What \<open>main\<close> decides before it hands over to the builder of the client\<close>

record launch_plan =
  lp_client_args :: "string list"
  lp_args :: sovereign_args
  lp_registry :: validator_registry
  lp_dev :: bool
  lp_consensus :: consensus_builder
  lp_debug_capabilities :: bool
  lp_port :: u16
  lp_reth_port :: u16

text \<open>
  \<open>cell\<close> is the process-wide registry, \<open>parse\<close> the argument parser of the client with \<open>SovereignArgs\<close>.
  Development mode is decided by the arguments as they were given.
\<close>

definition plan_launch ::
  "bool \<Rightarrow> validator_registry option \<Rightarrow> (string \<rightharpoonup> string) \<Rightarrow> (string \<Rightarrow> node_config option)
    \<Rightarrow> (string list \<Rightarrow> (sovereign_args, string) outcome) \<Rightarrow> string list \<Rightarrow> (launch_plan, string) outcome" where
  "plan_launch overflow_checks cell env load parse env_args =
     (case intercept_port overflow_checks env_args of
        Ok (port, reth_port, args') \<Rightarrow>
          and_then (parse args') (\<lambda>args.
            let is_dev = ''--dev'' \<in> set env_args in
            Ok \<lparr>lp_client_args = args', lp_args = args,
                lp_registry = start_registry cell (configure env load args), lp_dev = is_dev,
                lp_consensus = (if is_dev then EthereumConsensus else NoopConsensusBuilder),
                lp_debug_capabilities = is_dev, lp_port = port, lp_reth_port = reth_port\<rparr>)
      | Err _ \<Rightarrow> Panic
      | Panic \<Rightarrow> Panic)"

text \<open>
  \<open>launch\<close> is the client with the plan's components; it answers with the identifier of its chain,
  and the proxy starts.
\<close>

definition node_main ::
  "(launch_plan \<Rightarrow> (u64, string) outcome) \<Rightarrow> (launch_plan, string) outcome
    \<Rightarrow> (launch_plan \<times> rpc_node \<times> task list, string) outcome" where
  "node_main launch plan =
     and_then plan (\<lambda>p. and_then (launch p) (\<lambda>chain_id. Ok (p, tasks_start chain_id (lp_registry p))))"

section \<open>The execution extension\<close>

definition get_tee_attestation_action :: "string \<Rightarrow> string \<Rightarrow> u64 \<Rightarrow> string" where
  "get_tee_attestation_action tee_mode ephemeral_key block_number =
     (if tee_mode = ''sgx'' then ''sgx:block:'' @ decimal (unat block_number) @ '':key:'' @ ephemeral_key
      else if tee_mode = ''nitro'' then ''nitro:block:'' @ decimal (unat block_number) @ '':key:'' @ ephemeral_key
      else ''native'')"

type_synonym tip = "u64 \<times> b256"

datatype exex_notification = ChainCommitted tip | ChainReorged tip tip | ChainReverted tip

fun tip_num_hash :: "exex_notification \<Rightarrow> tip" where
  "tip_num_hash (ChainCommitted new) = new"
| "tip_num_hash (ChainReorged old new) = new"
| "tip_num_hash (ChainReverted old) = old"

fun committed_chain :: "exex_notification \<Rightarrow> tip option" where
  "committed_chain (ChainCommitted new) = Some new"
| "committed_chain (ChainReorged old new) = Some new"
| "committed_chain (ChainReverted old) = None"

text \<open>
  The loop over the notifications: the attestation actions it takes and the heights it reports as
  finished. It stops at the first notification that is an error.
\<close>

fun sovereign_exex ::
  "string \<Rightarrow> (exex_notification, string) outcome list \<Rightarrow> string list \<times> tip list \<times> (unit, string) outcome" where
  "sovereign_exex tee [] = ([], [], Ok ())"
| "sovereign_exex tee (Ok n # ns) =
     (let act = (case committed_chain n of
            Some (number, h) \<Rightarrow> [get_tee_attestation_action (to_lowercase tee) ''0xEphemeralPubKeyMock42'' number]
          | None \<Rightarrow> []);
          (acts, fins, r) = sovereign_exex tee ns
      in (act @ acts, tip_num_hash n # fins, r))"
| "sovereign_exex tee (Err e # ns) = ([], [], Err e)"
| "sovereign_exex tee (Panic # ns) = ([], [], Panic)"

section \<open>The scan\<close>

definition port_at :: "string list \<Rightarrow> nat \<Rightarrow> u16 option" where
  "port_at args i =
     (if args ! i = ''--http.port'' \<and> i + 1 < length args then parse_u16 (args ! (i + 1)) else None)"

lemma scan_arg_port_at:
  "scan_arg args st i = (case port_at args i of Some p \<Rightarrow> (p, Some (i + 1)) | None \<Rightarrow> st)"
  by (simp add: scan_arg_def port_at_def)

text \<open>The last position that names a port wins.\<close>

definition names_port :: "string list \<Rightarrow> nat \<Rightarrow> bool" where
  "names_port args i \<longleftrightarrow> port_at args i \<noteq> None"

lemma scan_prefix:
  "foldl (scan_arg args) st [0..<n] =
     (if \<exists>i<n. names_port args i
      then let i = Max {i. i < n \<and> names_port args i} in (the (port_at args i), Some (i + 1))
      else st)"
proof (induction n)
  case (Suc n)
  show ?case
  proof (cases "port_at args n")
    case None
    then have n: "\<not> names_port args n" by (simp add: names_port_def)
    then have "{i. i < Suc n \<and> names_port args i} = {i. i < n \<and> names_port args i}"
      by (auto simp: less_Suc_eq)
    moreover have "(\<exists>i<Suc n. names_port args i) = (\<exists>i<n. names_port args i)"
      using n by (auto simp: less_Suc_eq)
    moreover have "foldl (scan_arg args) st [0..<Suc n] = foldl (scan_arg args) st [0..<n]"
      by (simp add: scan_arg_port_at None)
    ultimately show ?thesis using Suc by (simp only:)
  next
    case (Some p)
    then have n: "names_port args n" by (simp add: names_port_def)
    then have "Max {i. i < Suc n \<and> names_port args i} = n"
      by (intro Max_eqI) auto
    with Some n show ?thesis by (auto simp: scan_arg_port_at Let_def)
  qed
qed simp

lemma scan_port_Some:
  assumes "port_at args i = Some p" and "i < length args"
    and "\<And>j. i < j \<Longrightarrow> j < length args \<Longrightarrow> port_at args j = None"
  shows "scan_port args = (p, Some (i + 1))"
proof -
  have i: "names_port args i" using assms(1) by (simp add: names_port_def)
  have "j \<le> i" if "j < length args" "names_port args j" for j
    using assms(3) [of j] that by (fastforce simp: names_port_def)
  then have "Max {j. j < length args \<and> names_port args j} = i"
    using i assms(2) by (intro Max_eqI) auto
  then show ?thesis using assms(1,2) i by (auto simp: scan_port_def scan_prefix)
qed

lemma scan_port_cases:
  obtains (found) i p where "scan_port args = (p, Some (i + 1))" "port_at args i = Some p" "i < length args"
      "\<And>j. i < j \<Longrightarrow> j < length args \<Longrightarrow> port_at args j = None"
  | (absent) "scan_port args = (8545, None)"
proof (cases "\<exists>j<length args. names_port args j")
  case True
  define S where "S = {j. j < length args \<and> names_port args j}"
  have S: "finite S" "S \<noteq> {}" using True by (auto simp: S_def)
  then have m: "Max S \<in> S" by (rule Max_in)
  then obtain p where p: "port_at args (Max S) = Some p" by (auto simp: S_def names_port_def)
  have none: "port_at args j = None" if "Max S < j" "j < length args" for j
  proof (rule ccontr)
    assume "port_at args j \<noteq> None"
    with that(2) have "j \<in> S" by (simp add: S_def names_port_def)
    from Max_ge [OF S(1) this] that(1) show False by simp
  qed
  have l: "Max S < length args" using m by (simp add: S_def)
  show thesis by (rule found [OF scan_port_Some [OF p l none] p l none])
next
  case False
  then have "scan_port args = (8545, None)" by (simp only: scan_port_def scan_prefix if_False)
  then show thesis by (rule absent)
qed

text \<open>What is printed is read back.\<close>

lemma parse_decimal: "n < 2 ^ 16 \<Longrightarrow> parse_u16 (decimal n) = Some (word_of_nat n)"
proof -
  let ?step = "\<lambda>n c. 10 * n + (of_char c - 48 :: nat)"
  have val: "foldl ?step 0 (decimal m) = m" for m
  proof (induction m rule: decimal.induct)
    case (1 m)
    show ?case
      using 1 by (subst decimal.simps) (simp add: of_char_decimal_digit)
  qed
  have digits: "list_all (\<lambda>c. 48 \<le> (of_char c :: nat) \<and> (of_char c :: nat) \<le> 57) (decimal n)"
    using set_decimal [of n] by (fastforce simp: list_all_iff of_char_decimal_digit)
  have ne: "decimal n \<noteq> []" by (subst decimal.simps) simp
  have "CHR ''+'' \<notin> set (decimal n)" by (rule notin_decimal) simp
  then have "(case decimal n of [] \<Rightarrow> [] | c # r \<Rightarrow> if c = CHR ''+'' then r else decimal n) = decimal n"
    by (cases "decimal n") auto
  moreover assume "n < 2 ^ 16"
  ultimately show ?thesis using val ne digits by (simp add: parse_u16_def Let_def)
qed

lemma intercept_port_Ok:
  assumes "intercept_port checks args = Ok (port, reth_port, args')"
  shows "port = fst (scan_port args)" and "reth_port = port + 1" and "checks \<Longrightarrow> unat port \<noteq> 2 ^ 16 - 1"
    and "args' = (case snd (scan_port args) of
      Some idx \<Rightarrow> args[idx := decimal (unat reth_port)]
    | None \<Rightarrow> if ''--http'' \<in> set args \<or> ''node'' \<in> set args
             then args @ [''--http.port'', decimal (unat reth_port)] else args)"
  using assms by (cases "scan_port args"; auto simp: intercept_port_def Let_def split: if_splits)+

lemma plan_launch_Ok:
  assumes "plan_launch checks cell env load parse args = Ok p"
  obtains sov where "intercept_port checks args = Ok (lp_port p, lp_reth_port p, lp_client_args p)"
    "parse (lp_client_args p) = Ok sov" "lp_registry p = start_registry cell (configure env load sov)"
    "lp_dev p \<longleftrightarrow> ''--dev'' \<in> set args" "lp_consensus p = EthereumConsensus \<longleftrightarrow> lp_dev p"
  using assms by (auto simp: plan_launch_def Let_def and_then_Ok_iff split: outcome.splits)

lemma start_registry_fresh:
  "start_registry None cfg = validator_registry_new (static_cfg cfg) (dynamic_cfg cfg)"
  by (simp add: start_registry_def init_registry_def)

text \<open>An argument \<open>--http.port=N\<close> is not seen: the proxy takes its default port, and a second
  \<open>--http.port\<close> is appended.\<close>

lemma equals_form_ignored:
  "intercept_port checks [''node'', ''--http.port=9000''] =
     Ok (8545, 8546, [''node'', ''--http.port=9000'', ''--http.port'', decimal 8546])"
  by (simp add: intercept_port_def scan_port_def scan_arg_def upt_rec)

section \<open>Properties\<close>

text \<open>Scanning the rewritten arguments again finds the port of the client.\<close>

lemma rescanned_port:
  assumes "intercept_port overflow_checks args = Ok (port, reth_port, args')"
    and "snd (scan_port args) \<noteq> None \<or> ''--http'' \<in> set args \<or> ''node'' \<in> set args"
  shows "fst (scan_port args) = port \<and> fst (scan_port args') = reth_port \<and>
    (overflow_checks \<longrightarrow> unat reth_port = unat port + 1) \<and>
    (\<forall>i < length args. args' ! i = args ! i \<or> snd (scan_port args) = Some i)"
proof -
  note run = intercept_port_Ok [OF assms(1)]
  have lt: "unat p < 2 ^ 16" for p :: u16 using unat_less [of p] by simp
  then have parse: "parse_u16 (decimal (unat reth_port)) = Some reth_port" by (simp add: parse_decimal)
  have checked: "overflow_checks \<longrightarrow> unat reth_port = unat port + 1"
    using run(3) lt [of port] unfolding run(2) by (auto simp: unat_word_ariths)
  have dec: "decimal (unat reth_port) \<noteq> ''--http.port''"
    using notin_decimal [of "CHR ''-''" "unat reth_port"] by force
  show ?thesis
  proof (cases rule: scan_port_cases [of args])
    case (found i p)
    then have i: "args ! i = ''--http.port''" "i + 1 < length args"
      by (auto simp: port_at_def split: if_splits)
    have args': "args' = args[i + 1 := decimal (unat reth_port)]" and p: "p = port"
      using run(1,4) found(1) by simp_all
    have "scan_port args' = (reth_port, Some (i + 1))"
    proof (rule scan_port_Some)
      show "port_at args' i = Some reth_port" using i parse by (simp add: port_at_def args')
      show "port_at args' j = None" if "i < j" "j < length args'" for j
        using found(4) [of j] that dec by (auto simp: port_at_def args' nth_list_update split: if_splits)
    qed (use i in \<open>simp add: args'\<close>)
    with found(1) p checked show ?thesis by (auto simp: args' nth_list_update)
  next
    case absent
    then have args': "args' = args @ [''--http.port'', decimal (unat reth_port)]" and p: "port = 8545"
      using run(1,4) assms(2) by simp_all
    have "scan_port args' = (reth_port, Some (length args + 1))"
    proof (rule scan_port_Some)
      show "port_at args' (length args) = Some reth_port"
        using parse by (simp add: port_at_def args' nth_append)
      show "port_at args' j = None" if "length args < j" "j < length args'" for j
        using that by (auto simp: port_at_def args')
    qed (simp add: args')
    with absent(1) p checked show ?thesis by (simp add: args' nth_append)
  qed
qed



text \<open>C40: a node that \<open>main\<close> starts in a fresh process never accepts an implicit state block, whatever
  its arguments, environment and configuration file are and however its requests interleave:
  the registry starts empty, no section of any task makes anybody a validator, and a block
  needs the signatures of validators.\<close>

theorem launched_node_accepts_no_block:
  assumes "node_main launch (plan_launch overflow_checks None env load parse args) = Ok (p, c)"
    and "tasks_run lib c es (node, ts)"
  shows "validate_implicit_state_block cl (rn_registry node) prev diff sigs height \<noteq> Ok r"
proof -
  from assms(1) obtain chain_id where plan: "plan_launch overflow_checks None env load parse args = Ok p"
    and c: "c = tasks_start chain_id (lp_registry p)"
    by (auto simp: node_main_def and_then_Ok_iff)
  from plan obtain sov where reg: "lp_registry p = start_registry None (configure env load sov)"
    by (rule plan_launch_Ok)
  show ?thesis
    using assms(2) unfolding c reg start_registry_fresh by (rule interleaved_no_block_accepted)
qed

lemma launched_node_accepts_no_block_witness:
  "\<exists>p c. node_main (\<lambda>p. Ok 1) (plan_launch True None Map.empty (\<lambda>s. None) (\<lambda>a. Ok sovereign_args_default) [''node'']) = Ok (p, c) \<and>
     validate_implicit_state_block sample_crypto (rn_registry (fst (rpc_handle sample_rpc_lib sample_env
       (fst c) sample_request))) 5 [1] [replicate 65 1] 10 \<noteq> Ok 0"
proof -
  obtain p where p: "plan_launch True None Map.empty (\<lambda>s. None) (\<lambda>a. Ok sovereign_args_default) [''node''] = Ok p"
    by (simp add: plan_launch_def intercept_port_def scan_port_def scan_arg_def upt_rec)
  have main: "node_main (\<lambda>p. Ok 1) (plan_launch True None Map.empty (\<lambda>s. None) (\<lambda>a. Ok sovereign_args_default) [''node'']) =
      Ok (p, tasks_start 1 (lp_registry p))"
    by (simp add: node_main_def p)
  obtain es ts where "tasks_run sample_rpc_lib (tasks_start 1 (lp_registry p)) es
      (fst (rpc_handle sample_rpc_lib sample_env (initial_node 1 (lp_registry p)) sample_request), ts)"
    using request_runs [of sample_rpc_lib "initial_node 1 (lp_registry p)" "[chain_id_task 30]"
        sample_request sample_env] by (auto simp: tasks_start_def)
  from launched_node_accepts_no_block [OF main this, of sample_crypto 5 "[1]" "[replicate 65 1]" 10 0] main
  show ?thesis by (auto simp: tasks_start_def)
qed

text \<open>Which source of a setting wins. An argument beats the environment, which beats the file
  and the defaults; the quantum trigger can be switched on but not off; a file that does not load
  leaves the defaults; and what no argument names is as in the file.\<close>

theorem configuration_precedence:
  shows "default_pq_scheme (dynamic_cfg (configure env load args)) =
      (case [s. Some s \<leftarrow> [sov_pq_scheme args, env ''PQ_SCHEME'', env ''DEFAULT_PQ_SCHEME'']] of
         s # _ \<Rightarrow> to_lowercase s | [] \<Rightarrow> default_pq_scheme (dynamic_cfg (file_config load args))) \<and>
    (zero_latency_quantum_trigger (dynamic_cfg (configure env load args)) \<longleftrightarrow>
      sov_zero_latency_quantum_trigger args \<or> env ''QUANTUM_THREAT'' \<in> {Some ''true'', Some ''1''} \<or>
      zero_latency_quantum_trigger (dynamic_cfg (file_config load args))) \<and>
    static_cfg (configure env load sovereign_args_default) = static_config_default \<and>
    pagerank (static_cfg (configure env load args)) = pagerank (static_cfg (file_config load args)) \<and>
    das (static_cfg (configure env load args)) = das (static_cfg (file_config load args))"
  by (auto simp: configure_def Let_def or_else_def file_config_def sovereign_args_default_def
      split: option.splits)

end
