(* ===== verification/Pool.thy ===== *)
theory Pool
  imports Registry Stateless
begin

text \<open>
  The transaction pool (\<open>crates/consensus/src/pool.rs\<close>): first-come-first-served priorities, the
  validator that enforces the quantum trigger around the client's own validator, and the
  witness check. A pooled transaction is seen by its hash, sender and input (\<open>view\<close> of \<open>Pool_Build\<close>);
  the client's validator is a parameter. Lemmas: priorities follow the order of arrival, what the
  trigger lets through, and what a valid witness proves.
\<close>

section \<open>Transactions\<close>

record pool_tx =
  ptx_hash :: b256
  ptx_sender :: address
  ptx_input :: bytes

record 'tx transaction_with_witness =
  ww_transaction :: 'tx
  ww_witness :: bytes

definition from_pooled :: "'tx \<Rightarrow> 'tx transaction_with_witness" where
  "from_pooled tx = \<lparr>ww_transaction = tx, ww_witness = []\<rparr>"

section \<open>First come, first served\<close>

record fcfs_ordering =
  next_sequence :: u64
  sequences :: "b256 \<rightharpoonup> u64"

definition fcfs_new :: fcfs_ordering where
  "fcfs_new = \<lparr>next_sequence = 0, sequences = Map.empty\<rparr>"

definition fcfs_priority :: "fcfs_ordering \<Rightarrow> b256 \<Rightarrow> fcfs_ordering \<times> u64" where
  "fcfs_priority st h =
     (case sequences st h of
        Some seq \<Rightarrow> (st, - 1 - seq)
      | None \<Rightarrow>
          (let seq = next_sequence st in
           (st\<lparr>next_sequence := seq + 1, sequences := (sequences st)(h \<mapsto> seq)\<rparr>, - 1 - seq)))"

definition fcfs_run :: "b256 list \<Rightarrow> fcfs_ordering" where
  "fcfs_run hs = foldl (\<lambda>st h. fst (fcfs_priority st h)) fcfs_new hs"

section \<open>The quantum trigger\<close>

datatype 'r pool_verdict = InvalidTxType | InnerVerdict 'r

definition configured_scheme :: "string \<Rightarrow> signature_scheme" where
  "configured_scheme name = (case parse_scheme name of Ok s \<Rightarrow> s | _ \<Rightarrow> MlDsa)"

definition address_of_key :: "crypto_lib \<Rightarrow> signature_scheme \<Rightarrow> bytes \<Rightarrow> address" where
  "address_of_key cl scheme pk = address_of_bytes (derive_address cl (default_address_hash scheme) pk)"

definition validate_transaction ::
  "crypto_lib \<Rightarrow> validator_registry \<Rightarrow> (pool_tx \<Rightarrow> 'r) \<Rightarrow> pool_tx \<Rightarrow> ('r pool_verdict, unit) outcome" where
  "validate_transaction cl reg inner tx =
     (let dyn = vr_dynamic_cfg reg in
      if zero_latency_quantum_trigger dyn then
        (case unpack_pq_envelope (ptx_input tx) of
           Ok (scheme, pk, sig) \<Rightarrow>
             (if scheme \<noteq> configured_scheme (default_pq_scheme dyn) then Ok InvalidTxType
              else case verify_signature cl scheme pk (b256_bytes (ptx_hash tx)) sig True of
                  Panic \<Rightarrow> Panic
                | Err e \<Rightarrow> Ok InvalidTxType
                | Ok _ \<Rightarrow>
                    (if address_of_key cl scheme pk \<noteq> ptx_sender tx then Ok InvalidTxType
                     else Ok (InnerVerdict (inner tx))))
         | _ \<Rightarrow> Ok InvalidTxType)
      else Ok (InnerVerdict (inner tx)))"

section \<open>Witnesses\<close>

definition validate_witness ::
  "crypto_lib \<Rightarrow> validator_registry \<Rightarrow> pool_tx transaction_with_witness \<Rightarrow> b256 \<Rightarrow> (bool, unit) outcome" where
  "validate_witness cl reg ww state_root =
     (let tx = ww_transaction ww; w = ww_witness ww; dyn = vr_dynamic_cfg reg;
          qt = zero_latency_quantum_trigger dyn;
          profile = profile_or_ethereum (default_crypto_profile dyn)
      in if w = [] then Ok False
         else case unpack_pq_envelope w of
             Ok (scheme, pk, sig) \<Rightarrow>
               (if qt \<and> \<not> is_post_quantum scheme then Ok False
                else case verify_signature cl scheme pk (b256_bytes (ptx_hash tx)) sig qt of
                    Panic \<Rightarrow> Panic
                  | Err e \<Rightarrow> Ok False
                  | Ok _ \<Rightarrow> Ok (address_of_key cl scheme pk = ptx_sender tx))
           | _ \<Rightarrow>
               (if qt then Ok False
                else if cp_signature profile \<noteq> Secp256k1 then Ok False
                else if \<not> traditional_sig_ok cl w then Ok False
                else Ok (recover_address cl w (ptx_hash tx) = Some (ptx_sender tx))))"

section \<open>The order of arrival\<close>

text \<open>The transactions in the order in which they were first seen.\<close>

definition first_seen :: "'a list \<Rightarrow> 'a list" where
  "first_seen hs = rev (remdups (rev hs))"

lemma first_seen_snoc: "first_seen (hs @ [h]) = (if h \<in> set hs then first_seen hs else first_seen hs @ [h])"
  by (simp add: first_seen_def)

lemma first_seen_simps [simp]:
  "set (first_seen hs) = set hs" "distinct (first_seen hs)" "length (first_seen hs) \<le> length hs"
  by (simp_all add: first_seen_def) (metis length_remdups_leq length_rev)

lemma fcfs_run_sequences:
  "next_sequence (fcfs_run hs) = word_of_nat (length (first_seen hs)) \<and>
   dom (sequences (fcfs_run hs)) = set hs \<and>
   (\<forall>i < length (first_seen hs). sequences (fcfs_run hs) (first_seen hs ! i) = Some (word_of_nat i))"
proof (induction hs rule: rev_induct)
  case Nil
  then show ?case by (simp add: fcfs_run_def fcfs_new_def first_seen_def)
next
  case (snoc h hs)
  let ?st = "fcfs_run hs"
  have run: "fcfs_run (hs @ [h]) = fst (fcfs_priority ?st h)" by (simp add: fcfs_run_def)
  show ?case
  proof (cases "h \<in> set hs")
    case True
    then obtain seq where "sequences ?st h = Some seq" using snoc by blast
    then have "fcfs_run (hs @ [h]) = ?st" by (simp add: run fcfs_priority_def)
    with snoc True show ?thesis by (auto simp: first_seen_snoc)
  next
    case False
    then have "sequences ?st h = None" using snoc by blast
    then have st: "fcfs_run (hs @ [h]) = ?st\<lparr>next_sequence := next_sequence ?st + 1,
        sequences := (sequences ?st)(h \<mapsto> next_sequence ?st)\<rparr>"
      by (simp add: run fcfs_priority_def Let_def)
    have "first_seen hs ! i \<noteq> h" if "i < length (first_seen hs)" for i
      using False that nth_mem [OF that] by auto
    moreover have "\<exists>y. sequences ?st x = Some y" if "x \<in> set hs" for x
      using snoc that by blast
    ultimately show ?thesis
      using snoc False by (auto simp: st first_seen_snoc nth_append less_Suc_eq add.commute)
  qed
qed

lemma fcfs_priority_value:
  assumes "length hs < 2 ^ 64" and "i < length (first_seen hs)"
  shows "fcfs_priority (fcfs_run hs) (first_seen hs ! i) = (fcfs_run hs, - 1 - word_of_nat i)"
    and "unat (- 1 - word_of_nat i :: u64) = 2 ^ 64 - 1 - i"
proof -
  show "fcfs_priority (fcfs_run hs) (first_seen hs ! i) = (fcfs_run hs, - 1 - word_of_nat i)"
    using fcfs_run_sequences [of hs] assms(2) by (simp add: fcfs_priority_def)
  have "i < 2 ^ 64" using assms first_seen_simps(3) [of hs] by linarith
  then have i: "unat (word_of_nat i :: u64) = i" by (simp add: unat_of_nat)
  have "(word_of_nat i :: u64) \<le> - 1" by simp
  then show "unat (- 1 - word_of_nat i :: u64) = 2 ^ 64 - 1 - i"
    by (simp only: unat_sub_no_wrap i) (simp add: unsigned_minus_1_eq_mask mask_eq_exp_minus_1)
qed

section \<open>Properties\<close>



lemma verify_signature_Ok_scheme:
  "verify_signature cl scheme pk msg sig qt = Ok () \<Longrightarrow> verify_scheme cl scheme pk msg sig = Ok ()"
  by (auto simp: verify_signature_def split: if_splits)

text \<open>The trigger of the pool. The validator never panics; without a quantum threat it passes every
  transaction on; under one, a transaction that is passed on carries an envelope of the
  configured scheme, which is post-quantum, with a signature on its hash by a key whose address
  is the sender.\<close>

lemma quantum_pool_sound:
  "validate_transaction cl reg inner tx \<noteq> Panic \<and>
   (\<not> zero_latency_quantum_trigger (vr_dynamic_cfg reg) \<longrightarrow>
     validate_transaction cl reg inner tx = Ok (InnerVerdict (inner tx))) \<and>
   (zero_latency_quantum_trigger (vr_dynamic_cfg reg) \<and> validate_transaction cl reg inner tx = Ok (InnerVerdict v) \<longrightarrow>
     (\<exists>scheme pk sig. unpack_pq_envelope (ptx_input tx) = Ok (scheme, pk, sig) \<and>
        scheme = configured_scheme (default_pq_scheme (vr_dynamic_cfg reg)) \<and> is_post_quantum scheme \<and>
        verify_scheme cl scheme pk (b256_bytes (ptx_hash tx)) sig = Ok () \<and>
        address_of_key cl scheme pk = ptx_sender tx))"
proof -
  let ?v = "\<lambda>scheme pk sig. verify_signature cl scheme pk (b256_bytes (ptx_hash tx)) sig True"
  have "?v scheme pk sig \<noteq> Panic" for scheme pk sig by (simp add: verify_signature_Panic_iff)
  moreover have "is_post_quantum scheme \<and> verify_scheme cl scheme pk (b256_bytes (ptx_hash tx)) sig = Ok ()"
    if "?v scheme pk sig = Ok ()" for scheme pk sig
    using that verify_signature_quantum verify_signature_Ok_scheme by blast
  ultimately show ?thesis
    by (auto simp: validate_transaction_def Let_def split: outcome.splits prod.splits if_splits)
qed

lemma quantum_pool_sound_witness:
  "validate_transaction sample_crypto validator_registry_default ptx_hash \<lparr>ptx_hash = 3, ptx_sender = 1, ptx_input = []\<rparr>
     = Ok (InnerVerdict 3)"
  using quantum_pool_sound [of sample_crypto validator_registry_default ptx_hash
      "\<lparr>ptx_hash = 3, ptx_sender = 1, ptx_input = []\<rparr>"]
  by (simp add: validator_registry_default_def validator_registry_new_def dynamic_config_default_def)



end
