(* ===== verification/Pool_Build.thy ===== *)
theory Pool_Build
  imports Pool
begin

text \<open>
  The traits that the pool is generic in, and its assembly (\<open>crates/consensus/src/pool.rs\<close>). A trait is
  a record of its methods; the implementation for \<open>TransactionWithWitness\<close> is a function from the
  record of the wrapped type. Lemmas: no method sees the witness, so the pool treats a
  transaction with a witness as it treats the transaction.
\<close>

section \<open>Traits\<close>

text \<open>
  \<open>InMemorySize\<close>, \<open>Typed2718\<close>, \<open>Transaction\<close> and \<open>PoolTransaction\<close>. A call has a recipient, a creation
  none; \<open>'auth\<close> is a signed authorization, \<open>'cons\<close> and \<open>'pooled\<close> are the associated types.
\<close>

type_synonym u128 = "128 word"

record ('tx, 'auth, 'cons, 'pooled) pool_transaction =
  pt_size :: "'tx \<Rightarrow> nat"
  pt_ty :: "'tx \<Rightarrow> u8"
  pt_chain_id :: "'tx \<Rightarrow> u64 option"
  pt_nonce :: "'tx \<Rightarrow> u64"
  pt_gas_limit :: "'tx \<Rightarrow> u64"
  pt_gas_price :: "'tx \<Rightarrow> u128 option"
  pt_max_fee_per_gas :: "'tx \<Rightarrow> u128"
  pt_max_priority_fee_per_gas :: "'tx \<Rightarrow> u128 option"
  pt_max_fee_per_blob_gas :: "'tx \<Rightarrow> u128 option"
  pt_priority_fee_or_price :: "'tx \<Rightarrow> u128"
  pt_effective_gas_price :: "'tx \<Rightarrow> u64 option \<Rightarrow> u128"
  pt_is_dynamic_fee :: "'tx \<Rightarrow> bool"
  pt_is_create :: "'tx \<Rightarrow> bool"
  pt_kind :: "'tx \<Rightarrow> address option"
  pt_value :: "'tx \<Rightarrow> u256"
  pt_input :: "'tx \<Rightarrow> bytes"
  pt_access_list :: "'tx \<Rightarrow> (address \<times> b256 list) list option"
  pt_blob_versioned_hashes :: "'tx \<Rightarrow> b256 list option"
  pt_authorization_list :: "'tx \<Rightarrow> 'auth list option"
  pt_hash :: "'tx \<Rightarrow> b256"
  pt_consensus_ref :: "'tx \<Rightarrow> 'cons"
  pt_into_consensus :: "'tx \<Rightarrow> 'cons"
  pt_from_pooled :: "'pooled \<Rightarrow> 'tx"
  pt_sender :: "'tx \<Rightarrow> address"
  pt_sender_ref :: "'tx \<Rightarrow> address"
  pt_cost :: "'tx \<Rightarrow> u256"
  pt_encoded_length :: "'tx \<Rightarrow> nat"

definition witnessed ::
  "('tx, 'auth, 'cons, 'pooled) pool_transaction
    \<Rightarrow> ('tx transaction_with_witness, 'auth, 'cons, 'pooled) pool_transaction" where
  "witnessed t =
     \<lparr>pt_size = (\<lambda>w. pt_size t (ww_transaction w)), pt_ty = (\<lambda>w. pt_ty t (ww_transaction w)),
      pt_chain_id = (\<lambda>w. pt_chain_id t (ww_transaction w)), pt_nonce = (\<lambda>w. pt_nonce t (ww_transaction w)),
      pt_gas_limit = (\<lambda>w. pt_gas_limit t (ww_transaction w)),
      pt_gas_price = (\<lambda>w. pt_gas_price t (ww_transaction w)),
      pt_max_fee_per_gas = (\<lambda>w. pt_max_fee_per_gas t (ww_transaction w)),
      pt_max_priority_fee_per_gas = (\<lambda>w. pt_max_priority_fee_per_gas t (ww_transaction w)),
      pt_max_fee_per_blob_gas = (\<lambda>w. pt_max_fee_per_blob_gas t (ww_transaction w)),
      pt_priority_fee_or_price = (\<lambda>w. pt_priority_fee_or_price t (ww_transaction w)),
      pt_effective_gas_price = (\<lambda>w. pt_effective_gas_price t (ww_transaction w)),
      pt_is_dynamic_fee = (\<lambda>w. pt_is_dynamic_fee t (ww_transaction w)),
      pt_is_create = (\<lambda>w. pt_is_create t (ww_transaction w)), pt_kind = (\<lambda>w. pt_kind t (ww_transaction w)),
      pt_value = (\<lambda>w. pt_value t (ww_transaction w)), pt_input = (\<lambda>w. pt_input t (ww_transaction w)),
      pt_access_list = (\<lambda>w. pt_access_list t (ww_transaction w)),
      pt_blob_versioned_hashes = (\<lambda>w. pt_blob_versioned_hashes t (ww_transaction w)),
      pt_authorization_list = (\<lambda>w. pt_authorization_list t (ww_transaction w)),
      pt_hash = (\<lambda>w. pt_hash t (ww_transaction w)), pt_consensus_ref = (\<lambda>w. pt_consensus_ref t (ww_transaction w)),
      pt_into_consensus = (\<lambda>w. pt_into_consensus t (ww_transaction w)),
      pt_from_pooled = (\<lambda>p. from_pooled (pt_from_pooled t p)),
      pt_sender = (\<lambda>w. pt_sender t (ww_transaction w)), pt_sender_ref = (\<lambda>w. pt_sender_ref t (ww_transaction w)),
      pt_cost = (\<lambda>w. pt_cost t (ww_transaction w)),
      pt_encoded_length = (\<lambda>w. pt_encoded_length t (ww_transaction w))\<rparr>"

text \<open>What ordering, validator and witness check use of a transaction\<close>

definition view :: "('tx, 'auth, 'cons, 'pooled) pool_transaction \<Rightarrow> 'tx \<Rightarrow> pool_tx" where
  "view t tx = \<lparr>ptx_hash = pt_hash t tx, ptx_sender = pt_sender t tx, ptx_input = pt_input t tx\<rparr>"

lemma view_witnessed [simp]: "view (witnessed t) w = view t (ww_transaction w)"
  by (simp add: view_def witnessed_def)

section \<open>The pool\<close>

text \<open>A service the builder starts beside the pool\<close>

datatype pool_task = BackupLocalTransactions string | MaintainPool nat

text \<open>
  \<open>bc_client_validator\<close> is the client's validator, built with the KZG settings, the number of
  additional tasks and the blob store; \<open>'kzg\<close> are the settings.
\<close>

record ('tx, 'kzg, 'v) builder_context =
  bc_kzg_settings :: "('kzg, string) outcome"
  bc_additional_validation_tasks :: nat
  bc_txpool_transactions :: string
  bc_client_validator :: "'kzg \<Rightarrow> nat \<Rightarrow> 'tx \<Rightarrow> 'v"

record 'cfg sovereign_pool_builder =
  pool_config :: 'cfg

definition sovereign_pool_builder_new :: "'cfg \<Rightarrow> 'cfg sovereign_pool_builder" where
  "sovereign_pool_builder_new cfg = \<lparr>pool_config = cfg\<rparr>"

record ('tx, 'v, 'cfg) sovereign_pool =
  sp_validate :: "validator_registry \<Rightarrow> 'tx \<Rightarrow> ('v pool_verdict, unit) outcome"
  sp_ordering :: fcfs_ordering
  sp_config :: 'cfg

definition quantum_validator ::
  "crypto_lib \<Rightarrow> ('tx, 'auth, 'cons, 'pooled) pool_transaction \<Rightarrow> ('tx \<Rightarrow> 'v)
    \<Rightarrow> validator_registry \<Rightarrow> 'tx \<Rightarrow> ('v pool_verdict, unit) outcome" where
  "quantum_validator cl t inner reg tx = validate_transaction cl reg (\<lambda>_. inner tx) (view t tx)"

definition build_pool ::
  "crypto_lib \<Rightarrow> ('tx, 'auth, 'cons, 'pooled) pool_transaction \<Rightarrow> ('cfg \<Rightarrow> nat)
    \<Rightarrow> 'cfg sovereign_pool_builder \<Rightarrow> ('tx, 'kzg, 'v) builder_context
    \<Rightarrow> (('tx, 'v, 'cfg) sovereign_pool \<times> pool_task list, string) outcome" where
  "build_pool cl t max_queued_lifetime builder ctx =
     and_then (bc_kzg_settings ctx) (\<lambda>kzg.
       let eth_validator = bc_client_validator ctx kzg (bc_additional_validation_tasks ctx);
           validator = quantum_validator cl t eth_validator;
           pool = \<lparr>sp_validate = validator, sp_ordering = fcfs_new, sp_config = pool_config builder\<rparr>
       in Ok (pool, [BackupLocalTransactions (bc_txpool_transactions ctx),
                     MaintainPool (max_queued_lifetime (sp_config pool))]))"

lemma build_pool_Ok_iff:
  "build_pool cl t lifetime builder ctx = Ok (pool, tasks) \<longleftrightarrow>
     (\<exists>kzg. bc_kzg_settings ctx = Ok kzg \<and>
       pool = \<lparr>sp_validate = quantum_validator cl t (bc_client_validator ctx kzg (bc_additional_validation_tasks ctx)),
         sp_ordering = fcfs_new, sp_config = pool_config builder\<rparr> \<and>
       tasks = [BackupLocalTransactions (bc_txpool_transactions ctx), MaintainPool (lifetime (pool_config builder))])"
  by (auto simp: build_pool_def and_then_Ok_iff Let_def)

text \<open>A pool of transactions with witnesses gives the verdicts of a pool of the transactions.\<close>

lemma witness_invisible:
  "quantum_validator cl (witnessed t) (\<lambda>w. inner (ww_transaction w)) reg w =
     quantum_validator cl t inner reg (ww_transaction w)"
  "fcfs_priority ord (pt_hash (witnessed t) w) = fcfs_priority ord (pt_hash t (ww_transaction w))"
  by (simp_all add: quantum_validator_def) (simp add: witnessed_def)

section \<open>Property\<close>


definition hash_transaction :: "(b256, unit, b256, b256) pool_transaction" where
  "hash_transaction =
     \<lparr>pt_size = (\<lambda>_. 32), pt_ty = (\<lambda>_. 2), pt_chain_id = (\<lambda>_. Some 1), pt_nonce = (\<lambda>_. 0), pt_gas_limit = (\<lambda>_. 21000),
      pt_gas_price = (\<lambda>_. None), pt_max_fee_per_gas = (\<lambda>_. 7), pt_max_priority_fee_per_gas = (\<lambda>_. None),
      pt_max_fee_per_blob_gas = (\<lambda>_. None), pt_priority_fee_or_price = (\<lambda>_. 7), pt_effective_gas_price = (\<lambda>_ _. 7),
      pt_is_dynamic_fee = (\<lambda>_. True), pt_is_create = (\<lambda>_. False), pt_kind = (\<lambda>_. Some 9), pt_value = (\<lambda>_. 0),
      pt_input = (\<lambda>_. []), pt_access_list = (\<lambda>_. None), pt_blob_versioned_hashes = (\<lambda>_. None),
      pt_authorization_list = (\<lambda>_. None), pt_hash = id, pt_consensus_ref = id, pt_into_consensus = id,
      pt_from_pooled = id, pt_sender = (\<lambda>_. 1), pt_sender_ref = (\<lambda>_. 1), pt_cost = (\<lambda>_. 0), pt_encoded_length = (\<lambda>_. 32)\<rparr>"


end
