(* ===== verification/Das.thy ===== *)
theory Das
  imports Prelude
begin

text \<open>
  Data availability sampling (\<open>crates/network/src/das.rs\<close>): the erasure-coded grid as a flat buffer
  and the light node's sampling loop. The Reed-Solomon codec is the parameter \<open>rs_lib\<close>. The
  loop runs on fuel; 1000 attempts of the generator and one pass over the cells suffice.
  Lemmas: the loop returns, and the cells it samples do not depend on the grid's content.
\<close>

section \<open>The grid\<close>

record erasure_grid =
  eg_k :: nat
  eg_chunk_size :: nat
  eg_data :: bytes

record rs_lib =
  rs_new :: "nat \<Rightarrow> nat \<Rightarrow> bool"
  rs_encode :: "nat \<Rightarrow> nat \<Rightarrow> bytes list \<Rightarrow> bytes list option"
  rs_verify :: "nat \<Rightarrow> nat \<Rightarrow> bytes list \<Rightarrow> bool option"

definition grid_size :: "erasure_grid \<Rightarrow> nat" where
  "grid_size g = 2 * eg_k g"

definition slice :: "bytes \<Rightarrow> nat \<Rightarrow> nat \<Rightarrow> bytes" where
  "slice flat off n = take n (drop off flat)"

text \<open>\<open>&self.data[offset..offset + self.chunk_size]\<close>, which panics out of range\<close>

definition chunk :: "erasure_grid \<Rightarrow> nat \<Rightarrow> nat \<Rightarrow> (bytes, string) outcome" where
  "chunk g row col =
     (let off = (row * grid_size g + col) * eg_chunk_size g in
      if off + eg_chunk_size g \<le> length (eg_data g) then Ok (slice (eg_data g) off (eg_chunk_size g)) else Panic)"

text \<open>\<open>copy_from_slice\<close> into the flat buffer\<close>

definition write_at :: "nat \<Rightarrow> bytes \<Rightarrow> bytes \<Rightarrow> bytes" where
  "write_at off bs flat = take off flat @ bs @ drop (off + length bs) flat"

text \<open>\<open>chunk_mut\<close>: what a caller does with the slice is \<open>upd\<close>, which keeps its length.\<close>

definition chunk_mut ::
  "erasure_grid \<Rightarrow> nat \<Rightarrow> nat \<Rightarrow> (bytes \<Rightarrow> bytes) \<Rightarrow> (erasure_grid, string) outcome" where
  "chunk_mut g row col upd =
     and_then (chunk g row col) (\<lambda>cell.
       Ok (g\<lparr>eg_data := write_at ((row * grid_size g + col) * eg_chunk_size g) (upd cell) (eg_data g)\<rparr>))"

definition cell_offset :: "nat \<Rightarrow> nat \<Rightarrow> nat \<Rightarrow> nat \<Rightarrow> nat" where
  "cell_offset sz chunk_size row col = (row * sz + col) * chunk_size"

definition fill_grid :: "nat \<Rightarrow> nat \<Rightarrow> bytes \<Rightarrow> bytes \<Rightarrow> bytes" where
  "fill_grid k chunk_size input flat =
     foldl (\<lambda>flat (i, c). write_at (cell_offset (2 * k) chunk_size (i div k) (i mod k)) c flat) flat
       (enumerate 0 (take (k * k) (chunks chunk_size input)))"

text \<open>One row or column: \<open>offsets\<close> are the places of its cells.\<close>

definition encode_line ::
  "rs_lib \<Rightarrow> nat \<Rightarrow> nat \<Rightarrow> string \<Rightarrow> nat list \<Rightarrow> bytes \<Rightarrow> (bytes, string) outcome" where
  "encode_line rs k chunk_size err offsets flat =
     (case rs_encode rs k k (map (\<lambda>off. slice flat off chunk_size) offsets) of
        None \<Rightarrow> Err err
      | Some shards \<Rightarrow> Ok (foldl (\<lambda>flat (off, s). write_at off s flat) flat (zip offsets shards)))"

fun encode_lines ::
  "rs_lib \<Rightarrow> nat \<Rightarrow> nat \<Rightarrow> string \<Rightarrow> nat list list \<Rightarrow> bytes \<Rightarrow> (bytes, string) outcome" where
  "encode_lines rs k chunk_size err [] flat = Ok flat"
| "encode_lines rs k chunk_size err (offs # rest) flat =
     and_then (encode_line rs k chunk_size err offs flat) (encode_lines rs k chunk_size err rest)"

definition row_offsets :: "nat \<Rightarrow> nat \<Rightarrow> nat \<Rightarrow> nat list" where
  "row_offsets k chunk_size r = map (\<lambda>c. cell_offset (2 * k) chunk_size r c) [0..<2 * k]"

definition column_offsets :: "nat \<Rightarrow> nat \<Rightarrow> nat \<Rightarrow> nat list" where
  "column_offsets k chunk_size c = map (\<lambda>r. cell_offset (2 * k) chunk_size r c) [0..<2 * k]"

definition encode_grid :: "rs_lib \<Rightarrow> bytes \<Rightarrow> nat \<Rightarrow> nat \<Rightarrow> (erasure_grid, string) outcome" where
  "encode_grid rs input k chunk_size =
     (if k = 0 \<or> chunk_size = 0 then Err ''Invalid grid size or chunk size''
      else
        (let flat = fill_grid k chunk_size input (replicate (2 * k * (2 * k) * chunk_size) 0) in
         if \<not> rs_new rs k k then Err ''Failed to initialize RS encoder''
         else
           and_then (encode_lines rs k chunk_size ''Failed to encode row parity''
                       (map (row_offsets k chunk_size) [0..<k]) flat) (\<lambda>flat.
           and_then (encode_lines rs k chunk_size ''Failed to encode column parity''
                       (map (column_offsets k chunk_size) [0..<2 * k]) flat) (\<lambda>flat.
           Ok \<lparr>eg_k = k, eg_chunk_size = chunk_size, eg_data = flat\<rparr>))))"

fun all_chunks :: "erasure_grid \<Rightarrow> nat \<Rightarrow> nat list \<Rightarrow> (bytes list, string) outcome" where
  "all_chunks g row [] = Ok []"
| "all_chunks g row (c # cs) =
     and_then (chunk g row c) (\<lambda>b. and_then (all_chunks g row cs) (\<lambda>bs. Ok (b # bs)))"

definition verify_chunk :: "rs_lib \<Rightarrow> erasure_grid \<Rightarrow> nat \<Rightarrow> nat \<Rightarrow> (bool, string) outcome" where
  "verify_chunk rs g row col =
     (if grid_size g \<le> row \<or> grid_size g \<le> col then Ok False
      else if \<not> rs_new rs (eg_k g) (eg_k g) then Ok False
      else and_then (all_chunks g row [0..<grid_size g]) (\<lambda>shards.
             Ok (case rs_verify rs (eg_k g) (eg_k g) shards of Some b \<Rightarrow> b | None \<Rightarrow> False)))"

definition apply_reed_solomon_2d :: "rs_lib \<Rightarrow> bytes \<Rightarrow> bytes" where
  "apply_reed_solomon_2d rs input = (case encode_grid rs input 2 256 of Ok g \<Rightarrow> eg_data g | _ \<Rightarrow> [])"

section \<open>Sampling\<close>

text \<open>The light node is the number of samples it requires.\<close>

definition das_light_node_default :: nat where
  "das_light_node_default = 16"

definition lcg :: "u64 \<Rightarrow> u64" where
  "lcg seed = seed * 1103515245 + 12345"

text \<open>The coordinates of the next attempt, and the generator's state after it.\<close>

definition next_cell :: "nat \<Rightarrow> nat \<Rightarrow> u64 \<Rightarrow> (nat \<times> nat) \<times> u64" where
  "next_cell sz attempts seed =
     (if attempts < 1000 then
        (let s1 = lcg seed; s2 = lcg s1 in ((unat s1 mod sz, unat s2 mod sz), s2))
      else
        (let idx = attempts - 1000 in ((idx div sz mod sz, idx mod sz), seed)))"

text \<open>\<open>check\<close> is what happens to a newly sampled cell.\<close>

fun das_loop ::
  "nat \<Rightarrow> nat \<Rightarrow> nat \<Rightarrow> (nat \<times> nat \<Rightarrow> (unit, (bool, string) outcome) outcome)
    \<Rightarrow> (nat \<times> nat) set \<Rightarrow> u64 \<Rightarrow> nat \<Rightarrow> nat \<Rightarrow> (bool, string) outcome option" where
  "das_loop 0 sz needed check sampled seed ok attempts = None"
| "das_loop (Suc fuel) sz needed check sampled seed ok attempts =
     (if \<not> card sampled < needed then Some (Ok (needed \<le> ok))
      else
        (let (cell, seed') = next_cell sz (Suc attempts) seed in
         if cell \<in> sampled then das_loop fuel sz needed check sampled seed' ok (Suc attempts)
         else case check cell of
                Ok _ \<Rightarrow> das_loop fuel sz needed check (insert cell sampled) seed' (Suc ok) (Suc attempts)
              | Err r \<Rightarrow> Some r
              | Panic \<Rightarrow> Some Panic))"

definition check_cell ::
  "rs_lib \<Rightarrow> erasure_grid \<Rightarrow> (nat \<times> nat) set \<Rightarrow> nat \<times> nat \<Rightarrow> (unit, (bool, string) outcome) outcome" where
  "check_cell rs g drops cell =
     (if cell \<in> drops then Err (Ok False)
      else case verify_chunk rs g (fst cell) (snd cell) of
             Ok True \<Rightarrow> Ok ()
           | Ok False \<Rightarrow> Err (Err ''Sample validation failed due to mathematical inconsistency'')
           | Err e \<Rightarrow> Err (Err e)
           | Panic \<Rightarrow> Panic)"

definition das_fuel :: "nat \<Rightarrow> nat" where
  "das_fuel sz = 1001 + sz * sz"

definition perform_das ::
  "rs_lib \<Rightarrow> nat \<Rightarrow> erasure_grid \<Rightarrow> (nat \<times> nat) set \<Rightarrow> (bool, string) outcome option" where
  "perform_das rs required g drops =
     (let sz = grid_size g; needed = min required (sz * sz)
      in das_loop (das_fuel sz) sz needed (check_cell rs g drops) {} 42 0 0)"

section \<open>The loop returns\<close>

definition cell_of :: "nat \<Rightarrow> nat \<Rightarrow> nat \<times> nat" where
  "cell_of sz i = (i div sz mod sz, i mod sz)"

lemma next_cell_scan: "1000 \<le> attempts \<Longrightarrow> next_cell sz attempts seed = (cell_of sz (attempts - 1000), seed)"
  by (simp add: next_cell_def cell_of_def Let_def)

lemma inj_on_cell_of: "inj_on (cell_of sz) {..<sz * sz}"
proof (rule inj_onI)
  fix i j assume i: "i \<in> {..<sz * sz}" and j: "j \<in> {..<sz * sz}" and eq: "cell_of sz i = cell_of sz j"
  have "n div sz mod sz = n div sz" if "n < sz * sz" for n
    using that by (simp add: less_mult_imp_div_less)
  with i j eq have "i div sz = j div sz" "i mod sz = j mod sz" by (simp_all add: cell_of_def)
  then show "i = j" by (metis div_mult_mod_eq)
qed

lemma das_loop_returns:
  assumes "needed \<le> sz * sz" and "1001 + sz * sz \<le> fuel + attempts"
    and "cell_of sz ` {..<attempts - 999} \<subseteq> sampled" and "finite sampled" and "attempts \<le> 999 + sz * sz"
  shows "das_loop fuel sz needed check sampled seed ok attempts \<noteq> None"
  using assms(2-)
proof (induction fuel arbitrary: sampled seed ok attempts)
  case (Suc fuel)
  obtain cell seed' where n: "next_cell sz (Suc attempts) seed = (cell, seed')" by fastforce
  show ?case
  proof (cases "card sampled < needed")
    case True
    have "attempts \<noteq> 999 + sz * sz"
    proof
      assume "attempts = 999 + sz * sz"
      then have "cell_of sz ` {..<sz * sz} \<subseteq> sampled" using Suc.prems(2) by simp
      then have "card (cell_of sz ` {..<sz * sz}) \<le> card sampled" using Suc.prems(3) by (rule card_mono [rotated])
      then have "sz * sz \<le> card sampled" by (simp add: card_image inj_on_cell_of)
      with True assms(1) show False by simp
    qed
    then have next': "Suc attempts \<le> 999 + sz * sz" "1001 + sz * sz \<le> fuel + Suc attempts"
      using Suc.prems by simp_all
    have scan: "cell_of sz ` {..<Suc attempts - 999} \<subseteq> insert cell sampled"
    proof (cases "attempts < 999")
      case False
      then have "{..<Suc attempts - 999} = insert (attempts - 999) {..<attempts - 999}"
        by (auto simp: Suc_diff_le)
      moreover have "cell = cell_of sz (attempts - 999)"
        using next_cell_scan [of "Suc attempts" sz seed] False n by simp
      ultimately show ?thesis using Suc.prems(2) by auto
    qed simp
    show ?thesis
    proof (cases "cell \<in> sampled")
      case True
      with Suc.IH [OF next'(2) _ Suc.prems(3) next'(1)] scan \<open>card sampled < needed\<close> n show ?thesis
        by (simp add: insert_absorb)
    next
      case False
      have "das_loop fuel sz needed check (insert cell sampled) seed' (Suc ok) (Suc attempts) \<noteq> None"
        using Suc.prems(3) by (intro Suc.IH next' scan) simp
      with False \<open>card sampled < needed\<close> n show ?thesis by (simp split: outcome.splits)
    qed
  qed simp
qed simp

section \<open>The sampled cells\<close>

text \<open>The cells that a run samples when every check passes.\<close>

fun das_cells :: "nat \<Rightarrow> nat \<Rightarrow> nat \<Rightarrow> (nat \<times> nat) set \<Rightarrow> u64 \<Rightarrow> nat \<Rightarrow> (nat \<times> nat) set" where
  "das_cells 0 sz needed sampled seed attempts = sampled"
| "das_cells (Suc fuel) sz needed sampled seed attempts =
     (if \<not> card sampled < needed then sampled
      else
        (let (cell, seed') = next_cell sz (Suc attempts) seed
         in das_cells fuel sz needed (insert cell sampled) seed' (Suc attempts)))"

lemma das_cells_mono: "sampled \<subseteq> das_cells fuel sz needed sampled seed attempts"
proof (induction fuel arbitrary: sampled seed attempts)
  case (Suc fuel)
  obtain cell seed' where n: "next_cell sz (Suc attempts) seed = (cell, seed')" by fastforce
  from Suc [of "insert cell sampled" seed' "Suc attempts"] show ?case by (simp add: n)
qed simp

lemma card_das_cells:
  "finite sampled \<Longrightarrow> card sampled \<le> needed \<Longrightarrow>
     finite (das_cells fuel sz needed sampled seed attempts) \<and>
     card (das_cells fuel sz needed sampled seed attempts) \<le> needed"
proof (induction fuel arbitrary: sampled seed attempts)
  case (Suc fuel)
  obtain cell seed' where n: "next_cell sz (Suc attempts) seed = (cell, seed')" by fastforce
  have "card (insert cell sampled) \<le> needed" if "card sampled < needed"
    using that card_insert_le_m1 [of needed sampled cell] Suc.prems(1) by (simp add: card_insert_if)
  with Suc show ?case by (simp add: n)
qed simp

lemma das_cells_range:
  assumes "needed \<le> sz * sz" and "sampled \<subseteq> {..<sz} \<times> {..<sz}"
  shows "das_cells fuel sz needed sampled seed attempts \<subseteq> {..<sz} \<times> {..<sz}"
  using assms(2)
proof (induction fuel arbitrary: sampled seed attempts)
  case (Suc fuel)
  obtain cell seed' where n: "next_cell sz (Suc attempts) seed = (cell, seed')" by fastforce
  show ?case
  proof (cases "card sampled < needed")
    case True
    then have "0 < sz" using assms(1) by (cases sz) auto
    then have "cell \<in> {..<sz} \<times> {..<sz}"
      using n by (auto simp: next_cell_def Let_def split: if_splits)
    with Suc True show ?thesis by (simp add: n)
  qed (use Suc in simp)
qed simp

lemma das_loop_cells:
  assumes "\<forall>cell \<in> das_cells fuel sz needed sampled seed attempts. check cell = Ok ()"
    and "ok = card sampled" and "finite sampled"
    and "das_loop fuel sz needed check sampled seed ok attempts = Some r"
  shows "r = Ok True"
  using assms
proof (induction fuel arbitrary: sampled seed ok attempts)
  case (Suc fuel)
  obtain cell seed' where n: "next_cell sz (Suc attempts) seed = (cell, seed')" by fastforce
  show ?case
  proof (cases "card sampled < needed")
    case True
    then have all: "\<forall>cell \<in> das_cells fuel sz needed (insert cell sampled) seed' (Suc attempts). check cell = Ok ()"
      using Suc.prems(1) by (simp add: n)
    then have ok: "check cell = Ok ()"
      using das_cells_mono [of "insert cell sampled" fuel sz needed seed' "Suc attempts"] by blast
    show ?thesis
    proof (cases "cell \<in> sampled")
      case in': True
      show ?thesis
        using Suc.IH [of sampled seed' "Suc attempts" ok] Suc.prems True all in' by (simp add: n insert_absorb)
    next
      case False
      show ?thesis
        using Suc.IH [of "insert cell sampled" seed' "Suc attempts" "Suc ok"] Suc.prems True all ok False
        by (simp add: n)
    qed
  qed (use Suc.prems in auto)
qed simp

lemma perform_das_Some: "\<exists>r. perform_das rs required g drops = Some r"
proof -
  have "das_loop (das_fuel (grid_size g)) (grid_size g) (min required (grid_size g * grid_size g))
      (check_cell rs g drops) {} 42 0 0 \<noteq> None"
    by (rule das_loop_returns) (simp_all add: das_fuel_def)
  then show ?thesis by (simp add: perform_das_def Let_def)
qed

section \<open>Properties\<close>

text \<open>C33: the sampling always ends, within 1000 attempts of the generator and one pass over the grid, and
  it is predictable: for every grid dimension there is a fixed set of cells, at most the
  required number, such that a producer who withholds all others passes every light node: a
  grid whose rows verify on these cells is reported as available.\<close>

theorem withheld_grid_passes:
  "(\<forall>rs g drops. \<exists>r. perform_das rs required g drops = Some r) \<and>
   (\<exists>S. S \<subseteq> {..<2 * k} \<times> {..<2 * k} \<and> card S \<le> required \<and>
     (\<forall>rs g. eg_k g = k \<and> (\<forall>(r, c) \<in> S. verify_chunk rs g r c = Ok True) \<longrightarrow>
       perform_das rs required g (- S) = Some (Ok True)))"
proof -
  let ?sz = "2 * k"
  let ?needed = "min required (?sz * ?sz)"
  let ?S = "das_cells (das_fuel ?sz) ?sz ?needed {} 42 0"
  have "card ?S \<le> ?needed" by (rule card_das_cells [THEN conjunct2]) simp_all
  moreover have "?S \<subseteq> {..<?sz} \<times> {..<?sz}" by (rule das_cells_range) simp_all
  moreover have "perform_das rs required g (- ?S) = Some (Ok True)"
    if k: "eg_k g = k" and v: "\<forall>(r, c) \<in> ?S. verify_chunk rs g r c = Ok True" for rs g
  proof -
    obtain r where r: "perform_das rs required g (- ?S) = Some r" using perform_das_Some by blast
    have "\<forall>cell \<in> ?S. check_cell rs g (- ?S) cell = Ok ()" using v by (auto simp: check_cell_def)
    from das_loop_cells [OF this] r k show ?thesis by (simp add: perform_das_def grid_size_def Let_def)
  qed
  ultimately show ?thesis using perform_das_Some by (intro conjI exI [of _ ?S]) auto
qed

definition trusting_rs :: rs_lib where
  "trusting_rs = \<lparr>rs_new = (\<lambda>n m. True), rs_encode = (\<lambda>n m shards. Some shards), rs_verify = (\<lambda>n m shards. Some True)\<rparr>"

definition empty_grid :: erasure_grid where
  "empty_grid = \<lparr>eg_k = 3, eg_chunk_size = 1, eg_data = replicate 36 0\<rparr>"

lemma empty_grid_verifies:
  assumes "r < 6" and "c < 6"
  shows "verify_chunk trusting_rs empty_grid r c = Ok True"
proof -
  have "\<exists>bs. all_chunks empty_grid r cs = Ok bs" if "\<forall>c \<in> set cs. c < 6" for cs
    using that
  proof (induction cs)
    case (Cons c cs)
    then have "r * 6 + c + 1 \<le> 36" using assms(1) by simp
    then have "\<exists>b. chunk empty_grid r c = Ok b" by (simp add: chunk_def empty_grid_def grid_size_def Let_def)
    with Cons show ?case by auto
  qed simp
  then obtain bs where "all_chunks empty_grid r [0..<6] = Ok bs" by (metis atLeastLessThan_iff set_upt)
  moreover have "grid_size empty_grid = 6" by (simp add: grid_size_def empty_grid_def)
  ultimately show ?thesis using assms by (simp add: verify_chunk_def trusting_rs_def)
qed

lemma withheld_grid_passes_witness:
  "\<exists>S. card S \<le> 16 \<and> card ({..<6 :: nat} \<times> {..<6 :: nat}) = 36 \<and> perform_das trusting_rs 16 empty_grid (- S) = Some (Ok True)"
proof -
  obtain S where S: "S \<subseteq> {..<6} \<times> {..<6}" "card S \<le> 16"
    and p: "eg_k empty_grid = 3 \<and> (\<forall>(r, c) \<in> S. verify_chunk trusting_rs empty_grid r c = Ok True) \<longrightarrow>
      perform_das trusting_rs 16 empty_grid (- S) = Some (Ok True)"
    using withheld_grid_passes [of 16 3] by auto
  have "\<forall>(r, c) \<in> S. verify_chunk trusting_rs empty_grid r c = Ok True"
    using S(1) empty_grid_verifies by auto
  then have "perform_das trusting_rs 16 empty_grid (- S) = Some (Ok True)"
    using p by (simp add: empty_grid_def)
  with S(2) show ?thesis by auto
qed

end
