(* ===== verification/Das_Code.thy ===== *)
theory Das_Code
  imports Das
begin

text \<open>
  What the erasure coding of \<open>crates/network/src/das.rs\<close> computes, for any systematic linear code.
  The flat buffer is read as a list of cells; filling the data quadrant and encoding a line are
  updates of cells, the two phases of \<open>encode\<close> give a grid whose rows and columns are all
  code words, and one overwritten chunk is noticed in its row. The Reed-Solomon library
  enters by the law \<open>rs_code\<close> of its documentation (parity shards are fixed linear combinations of the data
  shards over a commutative field, \<open>verify\<close> recomputes them); \<open>rs_detects\<close> says that no coefficient is zero.
\<close>

section \<open>The buffer as a list of cells\<close>

definition cell :: "nat \<Rightarrow> bytes \<Rightarrow> nat \<Rightarrow> bytes" where
  "cell cs flat m = slice flat (m * cs) cs"

lemma length_cell: "(m + 1) * cs \<le> length flat \<Longrightarrow> length (cell cs flat m) = cs"
  by (simp add: cell_def slice_def)

lemma length_write_at [simp]: "off + length bs \<le> length flat \<Longrightarrow> length (write_at off bs flat) = length flat"
  by (simp add: write_at_def)

lemma cell_write_at:
  assumes "(m + 1) * cs \<le> length flat" and "length s \<le> cs"
  shows "cell cs (write_at (m * cs) s flat) n =
    (if n = m then s @ drop (length s) (cell cs flat m) else cell cs flat n)"
proof -
  consider "n = m" | "n < m" | "m < n" by linarith
  then show ?thesis
  proof cases
    case 1
    have "take (cs - length s) (drop (m * cs + length s) flat) = drop (length s) (take cs (drop (m * cs) flat))"
      by (simp add: drop_take add.commute)
    with 1 assms show ?thesis by (simp add: cell_def slice_def write_at_def)
  next
    case 2
    have "n * cs + cs \<le> m * cs" using mult_le_mono1 [of "n + 1" m cs] 2 by simp
    then have "take cs (drop (n * cs) (take (m * cs) flat @ xs)) = take cs (drop (n * cs) flat)" for xs
      using assms(1) by (simp add: drop_take min_absorb1)
    with 2 show ?thesis by (simp del: take_append drop_append add: cell_def slice_def write_at_def)
  next
    case 3
    have "m * cs + cs \<le> n * cs" using mult_le_mono1 [of "m + 1" n cs] 3 by simp
    then have "drop (n * cs) (take (m * cs) flat @ s @ drop (m * cs + length s) flat) = drop (n * cs) flat"
      using assms 3 by (simp add: min_absorb2)
    with 3 show ?thesis by (simp add: cell_def slice_def write_at_def)
  qed
qed

text \<open>Writing a list of pieces, each into a cell of its own.\<close>

lemma cell_write_all:
  assumes "distinct (map fst ps)" and "\<forall>(m, s) \<in> set ps. (m + 1) * cs \<le> length flat \<and> length s \<le> cs"
  shows "length (foldl (\<lambda>flat (m, s). write_at (m * cs) s flat) flat ps) = length flat \<and>
    cell cs (foldl (\<lambda>flat (m, s). write_at (m * cs) s flat) flat ps) n =
      (case map_of ps n of None \<Rightarrow> cell cs flat n | Some s \<Rightarrow> s @ drop (length s) (cell cs flat n))"
  using assms
proof (induction ps arbitrary: flat)
  case (Cons p ps)
  obtain m s where p: "p = (m, s)" by fastforce
  have fit: "(m + 1) * cs \<le> length flat" "length s \<le> cs" using Cons.prems(2) p by auto
  then have len: "length (write_at (m * cs) s flat) = length flat" by (intro length_write_at) simp
  have "map_of ps m = None" using Cons.prems(1) p by (simp add: map_of_eq_None_iff)
  then show ?case
    using Cons.IH [of "write_at (m * cs) s flat"] Cons.prems len cell_write_at [OF fit]
    by (auto simp: p split: option.splits)
qed simp

section \<open>Pieces of the input\<close>

lemma chunks_nth:
  "0 < n \<Longrightarrow> i < length (chunks n xs) \<Longrightarrow> chunks n xs ! i = take n (drop (i * n) xs)"
proof (induction n xs arbitrary: i rule: chunks.induct)
  case (1 n xs)
  have "chunks n xs = take n xs # chunks n (drop n xs)" if "xs \<noteq> []"
    using 1(2) that by (subst chunks.simps) simp
  then show ?case using 1 by (cases "xs = []"; cases i) (auto simp: add.commute)
qed

lemma chunks_length: "0 < n \<Longrightarrow> length xs \<le> length (chunks n xs) * n"
proof (induction n xs rule: chunks.induct)
  case (1 n xs)
  have "chunks n xs = take n xs # chunks n (drop n xs)" if "xs \<noteq> []"
    using 1(2) that by (subst chunks.simps) simp
  then show ?case using 1 by (cases "xs = []") auto
qed

text \<open>The cell of the data quadrant that holds piece \<open>i\<close> of the input.\<close>

definition data_cell :: "nat \<Rightarrow> nat \<Rightarrow> nat" where
  "data_cell k i = i div k * (2 * k) + i mod k"

lemma data_cell_eq: "c < k \<Longrightarrow> data_cell k (r * k + c) = r * (2 * k) + c"
  by (simp add: data_cell_def)

lemma data_cell_bound:
  assumes "i < k * k" shows "data_cell k i + 1 \<le> 2 * k * (2 * k)"
proof -
  have "i div k < k" using assms by (simp add: less_mult_imp_div_less)
  then have "(i div k + 1) * (2 * k) \<le> k * (2 * k)" by (intro mult_le_mono1) simp
  moreover have "i mod k < k" using assms by (cases k) auto
  ultimately show ?thesis by (simp add: data_cell_def)
qed

lemma inj_data_cell: "inj_on (data_cell k) {..<k * k}"
proof (rule inj_onI)
  fix i j assume i: "i \<in> {..<k * k}" and e: "data_cell k i = data_cell k j"
  have k: "0 < k" using i by (cases k) auto
  have "data_cell k n div (2 * k) = n div k \<and> data_cell k n mod (2 * k) = n mod k" for n
    using k mod_less_divisor [OF k, of n] by (simp add: data_cell_def)
  with e have "i div k = j div k" "i mod k = j mod k" by metis+
  then show "i = j" by (metis div_mult_mod_eq)
qed

section \<open>The code\<close>

text \<open>
  Parity shard \<open>j\<close> has at byte \<open>b\<close> the sum, which is XOR in the field of 256 elements, of the \<open>k\<close> data bytes, each
  multiplied by its coefficient.
\<close>

primrec xor_sum :: "(nat \<Rightarrow> u8) \<Rightarrow> nat \<Rightarrow> u8" where
  "xor_sum f 0 = 0"
| "xor_sum f (Suc n) = xor_sum f n XOR f n"

lemma xor_sum_cong [fundef_cong]: "(\<And>i. i < n \<Longrightarrow> f i = g i) \<Longrightarrow> n = m \<Longrightarrow> xor_sum f n = xor_sum g m"
proof -
  assume "\<And>i. i < n \<Longrightarrow> f i = g i" and "n = m"
  then show ?thesis by (induction n arbitrary: m) auto
qed

lemma xor_sum_xor: "xor_sum (\<lambda>i. f i XOR g i) n = xor_sum f n XOR xor_sum g n"
  by (induction n) (simp_all add: ac_simps)

lemma xor_sum_zero: "xor_sum (\<lambda>i. 0) n = 0"
  by (induction n) simp_all

lemma xor_sum_swap: "xor_sum (\<lambda>i. xor_sum (f i) m) n = xor_sum (\<lambda>j. xor_sum (\<lambda>i. f i j) n) m"
  by (induction n) (simp_all add: xor_sum_xor xor_sum_zero)

definition parity_shard :: "(nat \<Rightarrow> nat \<Rightarrow> u8) \<Rightarrow> (u8 \<Rightarrow> u8 \<Rightarrow> u8) \<Rightarrow> nat \<Rightarrow> nat \<Rightarrow> bytes list \<Rightarrow> nat \<Rightarrow> bytes" where
  "parity_shard coef mul k n ds j = map (\<lambda>b. xor_sum (\<lambda>i. mul (coef j i) (ds ! i ! b)) k) [0..<n]"

definition rs_code :: "rs_lib \<Rightarrow> nat \<Rightarrow> (nat \<Rightarrow> nat \<Rightarrow> u8) \<Rightarrow> (u8 \<Rightarrow> u8 \<Rightarrow> u8) \<Rightarrow> bool" where
  "rs_code rs k coef mul \<longleftrightarrow>
     (\<forall>a b c. mul a (b XOR c) = mul a b XOR mul a c) \<and> (\<forall>a b c. mul a (mul b c) = mul b (mul a c)) \<and>
     (\<forall>shards n. length shards = 2 * k \<and> 0 < n \<and> (\<forall>s \<in> set shards. length s = n) \<longrightarrow>
       rs_encode rs k k shards = Some (take k shards @ map (parity_shard coef mul k n (take k shards)) [0..<k]) \<and>
       rs_verify rs k k shards = Some (drop k shards = map (parity_shard coef mul k n (take k shards)) [0..<k]))"

lemma parity_shard_cong:
  "(\<And>i. i < k \<Longrightarrow> ds ! i = es ! i) \<Longrightarrow> parity_shard coef mul k n ds j = parity_shard coef mul k n es j"
  by (auto simp: parity_shard_def intro!: xor_sum_cong)

text \<open>Encoding the columns of encoded rows is encoding the rows of encoded columns.\<close>

lemma parity_of_parity:
  assumes "rs_code rs k coef mul"
  shows "parity_shard coef mul k n (map (\<lambda>i. parity_shard coef mul k n (map (G i) [0..<k]) j) [0..<k]) i' =
    parity_shard coef mul k n (map (\<lambda>l. parity_shard coef mul k n (map (\<lambda>i. G i l) [0..<k]) i') [0..<k]) j"
proof -
  have x: "mul a (b XOR c) = mul a b XOR mul a c" and m: "mul a (mul b c) = mul b (mul a c)" for a b c
    using assms unfolding rs_code_def by blast+
  have "mul a 0 = 0" for a using x [of a 0 0] by simp
  then have s: "mul a (xor_sum f t) = xor_sum (\<lambda>i. mul a (f i)) t" for a f t
    by (induction t) (simp_all add: x)
  have "xor_sum (\<lambda>i. mul (coef i' i) (xor_sum (\<lambda>l. mul (coef j l) (G i l ! b)) k)) k =
      xor_sum (\<lambda>l. mul (coef j l) (xor_sum (\<lambda>i. mul (coef i' i) (G i l ! b)) k)) k" for b
    unfolding s by (subst xor_sum_swap) (simp only: m)
  then show ?thesis by (simp add: parity_shard_def cong: xor_sum_cong)
qed

section \<open>Encoding\<close>

text \<open>What the first \<open>n\<close> lines of one direction become: \<open>pos l j\<close> is the cell at place \<open>j\<close> of line \<open>l\<close>.\<close>

definition lines_encoded ::
  "(nat \<Rightarrow> nat \<Rightarrow> u8) \<Rightarrow> (u8 \<Rightarrow> u8 \<Rightarrow> u8) \<Rightarrow> nat \<Rightarrow> nat \<Rightarrow> (nat \<Rightarrow> nat \<Rightarrow> nat) \<Rightarrow> nat \<Rightarrow> bytes \<Rightarrow> bytes \<Rightarrow> bool" where
  "lines_encoded coef mul k cs pos n flat flat' \<longleftrightarrow>
     length flat' = length flat \<and>
     (\<forall>l < n. \<forall>j < k. cell cs flat' (pos l (k + j)) =
        parity_shard coef mul k cs (map (\<lambda>i. cell cs flat (pos l i)) [0..<k]) j) \<and>
     (\<forall>m. (\<forall>l < n. \<forall>j < k. m \<noteq> pos l (k + j)) \<longrightarrow> cell cs flat' m = cell cs flat m)"

definition code_word :: "(nat \<Rightarrow> nat \<Rightarrow> u8) \<Rightarrow> (u8 \<Rightarrow> u8 \<Rightarrow> u8) \<Rightarrow> nat \<Rightarrow> nat \<Rightarrow> bytes list \<Rightarrow> bytes list" where
  "code_word coef mul k n ds = take k ds @ map (parity_shard coef mul k n (take k ds)) [0..<k]"

lemma code_word:
  assumes "length ds = 2 * k" and "\<forall>s \<in> set ds. length s = n"
  shows "length (code_word coef mul k n ds) = 2 * k" and "\<forall>s \<in> set (code_word coef mul k n ds). length s = n"
    and "j < k \<Longrightarrow> code_word coef mul k n ds ! j = ds ! j"
    and "j < k \<Longrightarrow> code_word coef mul k n ds ! (k + j) = parity_shard coef mul k n (take k ds) j"
  using assms by (auto simp: code_word_def parity_shard_def nth_append dest: in_set_takeD)

lemma encode_line_writes:
  assumes code: "rs_code rs k coef mul" and cs: "0 < cs"
    and ds: "ds = map (\<lambda>i. cell cs flat (pos i)) [0..<2 * k]" "\<forall>s \<in> set ds. length s = cs"
  shows "encode_line rs k cs err (map (\<lambda>j. pos j * cs) [0..<2 * k]) flat =
    Ok (foldl (\<lambda>flat (m, s). write_at (m * cs) s flat) flat (zip (map pos [0..<2 * k]) (code_word coef mul k cs ds)))"
proof -
  have "length ds = 2 * k" using ds(1) by simp
  then have "rs_encode rs k k ds = Some (code_word coef mul k cs ds)"
    using code cs ds(2) unfolding rs_code_def code_word_def by blast
  moreover have "foldl (\<lambda>flat (off, s). write_at off s flat) flat (zip (map (\<lambda>m. m * cs) xs) ss) =
      foldl (\<lambda>flat (m, s). write_at (m * cs) s flat) flat (zip xs ss)" for xs ss flat
    by (induction xs arbitrary: ss flat) (auto simp: zip_Cons1 split: list.splits)
  from this [of flat "map pos [0..<2 * k]"]
  have "foldl (\<lambda>flat (off, s). write_at off s flat) flat (zip (map (\<lambda>j. pos j * cs) [0..<2 * k]) ss) =
      foldl (\<lambda>flat (m, s). write_at (m * cs) s flat) flat (zip (map pos [0..<2 * k]) ss)" for ss
    by (simp add: comp_def)
  ultimately show ?thesis by (simp add: encode_line_def ds(1) cell_def comp_def)
qed

lemma encode_line_cells:
  assumes code: "rs_code rs k coef mul" and cs: "0 < cs"
    and inj: "inj_on pos {..<2 * k}" and fit: "\<And>j. j < 2 * k \<Longrightarrow> (pos j + 1) * cs \<le> length flat"
  shows "\<exists>flat'. encode_line rs k cs err (map (\<lambda>j. pos j * cs) [0..<2 * k]) flat = Ok flat' \<and>
    lines_encoded coef mul k cs (\<lambda>_. pos) 1 flat flat'"
proof -
  define ds where "ds = map (\<lambda>i. cell cs flat (pos i)) [0..<2 * k]"
  define ps where "ps = zip (map pos [0..<2 * k]) (code_word coef mul k cs ds)"
  define flat' where "flat' = foldl (\<lambda>flat (m, s). write_at (m * cs) s flat) flat ps"
  have ds: "length ds = 2 * k" "\<forall>s \<in> set ds. length s = cs" using fit length_cell by (auto simp: ds_def)
  note out = code_word [OF ds, where coef = coef and mul = mul]
  have fst: "map fst ps = map pos [0..<2 * k]" using out(1) by (simp add: ps_def)
  have dist: "distinct (map fst ps)" unfolding fst using inj by (simp add: distinct_map lessThan_atLeast0)
  have "\<forall>(m, s) \<in> set ps. (m + 1) * cs \<le> length flat \<and> length s \<le> cs"
    using fit out(1,2) by (auto simp: ps_def set_zip)
  note all = cell_write_all [OF dist this, folded flat'_def]
  have at: "cell cs flat' (pos j) = code_word coef mul k cs ds ! j" if "j < 2 * k" for j
  proof -
    have "(pos j, code_word coef mul k cs ds ! j) \<in> set ps"
      using that out(1) by (auto simp: ps_def set_zip intro!: exI [of _ j])
    then have "map_of ps (pos j) = Some (code_word coef mul k cs ds ! j)" using dist by simp
    moreover have "length (code_word coef mul k cs ds ! j) = length (cell cs flat (pos j))"
      using out(1,2) that length_cell [OF fit [OF that]] by simp
    ultimately show ?thesis using all by simp
  qed
  have "take k ds = map (\<lambda>i. cell cs flat (pos i)) [0..<k]" by (simp add: ds_def take_map)
  then have par: "cell cs flat' (pos (k + j)) = parity_shard coef mul k cs (map (\<lambda>i. cell cs flat (pos i)) [0..<k]) j"
    if "j < k" for j using at [of "k + j"] that out(4) by simp
  have "cell cs flat' m = cell cs flat m" if m: "\<forall>j < k. m \<noteq> pos (k + j)" for m
  proof (cases "m \<in> set (map fst ps)")
    case True
    then obtain j where j: "j < 2 * k" "m = pos j" unfolding fst by auto
    have "j < k" using m j le_Suc_ex [of k j] by (cases "j < k") auto
    with at [OF j(1)] j out(3) show ?thesis by (simp add: ds_def)
  next
    case False
    then have "map_of ps m = None" by (simp add: map_of_eq_None_iff)
    with all show ?thesis by simp
  qed
  then have "lines_encoded coef mul k cs (\<lambda>_. pos) 1 flat flat'" using par all by (simp add: lines_encoded_def)
  with encode_line_writes [OF code cs ds_def ds(2)] show ?thesis unfolding flat'_def ps_def by blast
qed

lemma encode_lines_append:
  "encode_lines rs k cs err (xs @ ys) flat = and_then (encode_lines rs k cs err xs flat) (encode_lines rs k cs err ys)"
proof (induction xs arbitrary: flat)
  case (Cons x xs)
  then show ?case by (cases "encode_line rs k cs err x flat") simp_all
qed simp

lemma encode_lines_cells:
  assumes code: "rs_code rs k coef mul" and cs: "0 < cs"
    and inj: "inj_on (\<lambda>(l, j). pos l j) ({..<n} \<times> {..<2 * k})"
    and fit: "\<And>l j. l < n \<Longrightarrow> j < 2 * k \<Longrightarrow> (pos l j + 1) * cs \<le> length flat"
  shows "\<exists>flat'. encode_lines rs k cs err (map (\<lambda>l. map (\<lambda>j. pos l j * cs) [0..<2 * k]) [0..<n]) flat = Ok flat' \<and>
    lines_encoded coef mul k cs pos n flat flat'"
  using inj fit
proof (induction n)
  case (Suc n)
  have ij: "l = l' \<and> j = j'" if "pos l j = pos l' j'" "l < Suc n" "l' < Suc n" "j < 2 * k" "j' < 2 * k" for l l' j j'
    using inj_onD [OF Suc.prems(1), of "(l, j)" "(l', j')"] that by simp
  have "inj_on (\<lambda>(l, j). pos l j) ({..<n} \<times> {..<2 * k})"
    using Suc.prems(1) by (rule inj_on_subset) auto
  then obtain f where f: "encode_lines rs k cs err (map (\<lambda>l. map (\<lambda>j. pos l j * cs) [0..<2 * k]) [0..<n]) flat = Ok f"
    and enc: "lines_encoded coef mul k cs pos n flat f"
    using Suc.IH Suc.prems(2) by fastforce
  have len: "length f = length flat" using enc by (simp add: lines_encoded_def)
  have "inj_on (pos n) {..<2 * k}" using ij by (auto intro!: inj_onI)
  moreover have "\<And>j. j < 2 * k \<Longrightarrow> (pos n j + 1) * cs \<le> length f" using Suc.prems(2) len by simp
  ultimately obtain f' where g: "encode_line rs k cs err (map (\<lambda>j. pos n j * cs) [0..<2 * k]) f = Ok f'"
    and one: "lines_encoded coef mul k cs (\<lambda>_. pos n) 1 f f'"
    using encode_line_cells [OF code cs, of "pos n" f] by blast
  have gp: "cell cs f' (pos n (k + j)) = parity_shard coef mul k cs (map (\<lambda>i. cell cs f (pos n i)) [0..<k]) j"
    if "j < k" for j using one that by (simp add: lines_encoded_def)
  have go: "cell cs f' m = cell cs f m" if "\<forall>j < k. m \<noteq> pos n (k + j)" for m
    using one that by (simp add: lines_encoded_def)
  have untouched: "cell cs f (pos n i) = cell cs flat (pos n i)" if "i < k" for i
  proof -
    have "pos n i \<noteq> pos l (k + j)" if "l < n" "j < k" for l j
      using ij [of n i l "k + j"] that \<open>i < k\<close> by auto
    with enc show ?thesis by (simp add: lines_encoded_def)
  qed
  have par: "cell cs f' (pos l (k + j)) = parity_shard coef mul k cs (map (\<lambda>i. cell cs flat (pos l i)) [0..<k]) j"
    if "l < Suc n" "j < k" for l j
  proof (cases "l = n")
    case True
    have "map (\<lambda>i. cell cs f (pos n i)) [0..<k] = map (\<lambda>i. cell cs flat (pos n i)) [0..<k]"
      using untouched by simp
    with gp [OF that(2)] True show ?thesis by simp
  next
    case False
    have "cell cs f' (pos l (k + j)) = cell cs f (pos l (k + j))"
    proof (intro go allI impI notI)
      fix j' assume "j' < k" and "pos l (k + j) = pos n (k + j')"
      with ij [of l "k + j" n "k + j'"] that False show False by simp
    qed
    then show ?thesis using enc that False by (simp add: lines_encoded_def)
  qed
  have "cell cs f' m = cell cs flat m" if "\<forall>l < Suc n. \<forall>j < k. m \<noteq> pos l (k + j)" for m
    using that go [of m] enc by (simp add: lines_encoded_def)
  with par one len have "lines_encoded coef mul k cs pos (Suc n) flat f'" by (simp add: lines_encoded_def)
  then show ?case using f g by (simp add: encode_lines_append)
qed (simp add: lines_encoded_def)

section \<open>The complete grid\<close>

lemma cell_replicate: "(m + 1) * cs \<le> n \<Longrightarrow> cell cs (replicate n 0) m = replicate cs 0"
  by (simp add: cell_def slice_def min_absorb1)

lemma padded_slice:
  assumes "(i + 1) * cs \<le> n"
  shows "slice (xs @ replicate n 0) (i * cs) cs =
    take cs (drop (i * cs) xs) @ drop (length (take cs (drop (i * cs) xs))) (replicate cs 0)"
proof -
  have "min (n - (i * cs - length xs)) (cs - (length xs - i * cs)) = cs - min (length xs - i * cs) cs"
    using assms by auto
  then show ?thesis by (simp add: slice_def min.commute)
qed

text \<open>The pieces of the input and the cells of the data quadrant they are written to\<close>

definition pieces :: "nat \<Rightarrow> nat \<Rightarrow> bytes \<Rightarrow> (nat \<times> bytes) list" where
  "pieces k cs input = map (\<lambda>(i, c). (data_cell k i, c)) (enumerate 0 (take (k * k) (chunks cs input)))"

lemma fill_grid_pieces:
  "fill_grid k cs input flat = foldl (\<lambda>flat (m, s). write_at (m * cs) s flat) flat (pieces k cs input)"
  by (simp add: fill_grid_def pieces_def foldl_map case_prod_unfold cell_offset_def data_cell_def)

lemma fst_pieces: "map fst (pieces k cs input) = map (data_cell k) [0..<min (length (chunks cs input)) (k * k)]"
  by (simp add: pieces_def comp_def case_prod_beta flip: map_map [of "data_cell k" fst, unfolded comp_def])

lemma distinct_pieces: "distinct (map fst (pieces k cs input))"
  unfolding fst_pieces
  using inj_on_subset [OF inj_data_cell [of k], of "{..<min (length (chunks cs input)) (k * k)}"]
  by (simp add: distinct_map lessThan_atLeast0)

lemma data_cell_fits:
  assumes "i < k * k"
  shows "(data_cell k i + 1) * cs \<le> 2 * k * (2 * k) * cs"
  using data_cell_bound [OF assms] by (rule mult_le_mono1)

lemma pieces_nth:
  assumes "0 < cs"
  shows "(m, s) \<in> set (pieces k cs input) \<longleftrightarrow>
    (\<exists>i. i < length (chunks cs input) \<and> i < k * k \<and> m = data_cell k i \<and> s = take cs (drop (i * cs) input))"
  using chunks_nth [OF assms, of _ input] by (force simp: pieces_def in_set_enumerate_eq)

text \<open>The data quadrant holds the input, padded with zeros.\<close>

lemma fill_grid_cells:
  fixes k :: nat and input :: bytes
  assumes cs: "0 < cs"
  defines "flat \<equiv> fill_grid k cs input (replicate (2 * k * (2 * k) * cs) 0)"
  shows "length flat = 2 * k * (2 * k) * cs"
    and "i < k * k \<Longrightarrow> cell cs flat (data_cell k i) = slice (input @ replicate (k * k * cs) 0) (i * cs) cs"
proof -
  let ?zero = "replicate (2 * k * (2 * k) * cs) (0 :: u8)"
  have "\<forall>(m, s) \<in> set (pieces k cs input). (m + 1) * cs \<le> length ?zero \<and> length s \<le> cs"
    using data_cell_fits by (auto simp: pieces_nth [OF cs])
  note all = cell_write_all [OF distinct_pieces this, folded fill_grid_pieces flat_def]
  show "length flat = 2 * k * (2 * k) * cs" using all by simp
  assume i: "i < k * k"
  have zero: "cell cs ?zero (data_cell k i) = replicate cs 0" using data_cell_fits [OF i] by (intro cell_replicate) simp
  have pad: "slice (input @ replicate (k * k * cs) 0) (i * cs) cs =
      take cs (drop (i * cs) input) @ drop (length (take cs (drop (i * cs) input))) (replicate cs 0)"
    using mult_le_mono1 [of "i + 1" "k * k" cs] i by (intro padded_slice) simp
  show "cell cs flat (data_cell k i) = slice (input @ replicate (k * k * cs) 0) (i * cs) cs"
  proof (cases "i < length (chunks cs input)")
    case True
    then have "(data_cell k i, take cs (drop (i * cs) input)) \<in> set (pieces k cs input)"
      using i by (auto simp: pieces_nth [OF cs])
    then have "map_of (pieces k cs input) (data_cell k i) = Some (take cs (drop (i * cs) input))"
      using distinct_pieces by simp
    then show ?thesis using all zero pad by simp
  next
    case False
    then have "length input \<le> i * cs"
      using chunks_length [OF cs, of input] mult_le_mono1 [of "length (chunks cs input)" i cs] by linarith
    moreover have "data_cell k i \<notin> set (map fst (pieces k cs input))"
      unfolding fst_pieces using False i inj_data_cell [of k] by (auto dest: inj_onD)
    then have "map_of (pieces k cs input) (data_cell k i) = None" by (simp add: map_of_eq_None_iff)
    ultimately show ?thesis using all zero pad by simp
  qed
qed

text \<open>What \<open>encode\<close> returns, cell by cell.\<close>

definition coded_grid ::
  "(nat \<Rightarrow> nat \<Rightarrow> u8) \<Rightarrow> (u8 \<Rightarrow> u8 \<Rightarrow> u8) \<Rightarrow> nat \<Rightarrow> nat \<Rightarrow> (nat \<Rightarrow> nat \<Rightarrow> bytes) \<Rightarrow> bool" where
  "coded_grid coef mul k cs G \<longleftrightarrow>
     (\<forall>r < k. \<forall>j < k. G r (k + j) = parity_shard coef mul k cs (map (G r) [0..<k]) j) \<and>
     (\<forall>i < k. \<forall>c < 2 * k. G (k + i) c = parity_shard coef mul k cs (map (\<lambda>r. G r c) [0..<k]) i)"

lemma coded_rows:
  assumes code: "rs_code rs k coef mul" and G: "coded_grid coef mul k cs G" and r: "r < 2 * k" and j: "j < k"
  shows "G r (k + j) = parity_shard coef mul k cs (map (G r) [0..<k]) j"
proof (cases "r < k")
  case True
  then show ?thesis using G j by (simp add: coded_grid_def)
next
  case False
  define i where "i = r - k"
  have i: "i < k" "r = k + i" using False r by (auto simp: i_def)
  have row: "map (G r) [0..<k] = map (\<lambda>c. parity_shard coef mul k cs (map (\<lambda>l. G l c) [0..<k]) i) [0..<k]"
    using G i by (simp add: coded_grid_def)
  have top: "map (\<lambda>l. G l (k + j)) [0..<k] = map (\<lambda>l. parity_shard coef mul k cs (map (G l) [0..<k]) j) [0..<k]"
    using G j by (simp add: coded_grid_def)
  have "G r (k + j) = parity_shard coef mul k cs (map (\<lambda>l. G l (k + j)) [0..<k]) i"
    using G i j by (simp add: coded_grid_def)
  then have "G r (k + j) = parity_shard coef mul k cs (map (\<lambda>l. parity_shard coef mul k cs (map (G l) [0..<k]) j) [0..<k]) i"
    unfolding top .
  also have "\<dots> = parity_shard coef mul k cs (map (G r) [0..<k]) j"
    unfolding row by (rule parity_of_parity [OF code])
  finally show ?thesis .
qed

lemma grid_pos_inj:
  fixes k :: nat
  assumes "r * (2 * k) + c = r' * (2 * k) + c'" and "c < 2 * k" and "c' < 2 * k"
  shows "r = r' \<and> c = c'"
proof -
  have "(r * (2 * k) + c) div (2 * k) = r" "(r' * (2 * k) + c') div (2 * k) = r'" using assms(2,3) by simp_all
  with assms show ?thesis by simp
qed

lemma grid_pos_bound:
  fixes k :: nat
  assumes "r < n" and "c < 2 * k"
  shows "r * (2 * k) + c + 1 \<le> n * (2 * k)"
proof -
  have "(r + 1) * (2 * k) \<le> n * (2 * k)" using assms(1) by (intro mult_le_mono1) simp
  then show ?thesis using assms(2) by simp
qed

text \<open>The two phases of \<open>encode\<close>: \<open>k\<close> rows, then all the columns.\<close>

lemma coded_by_phases:
  assumes rows: "lines_encoded coef mul k cs (\<lambda>r c. r * (2 * k) + c) k flat rows"
    and cols: "lines_encoded coef mul k cs (\<lambda>c r. r * (2 * k) + c) (2 * k) rows cols"
  shows "coded_grid coef mul k cs (\<lambda>r c. cell cs cols (r * (2 * k) + c))"
    and "r < k \<Longrightarrow> c < k \<Longrightarrow> cell cs cols (r * (2 * k) + c) = cell cs flat (r * (2 * k) + c)"
proof -
  let ?at = "\<lambda>r c. r * (2 * k) + c"
  note at = grid_pos_inj [of _ k]
  have top: "cell cs cols (?at r c) = cell cs rows (?at r c)" if "r < k" "c < 2 * k" for r c
  proof -
    have "?at r c \<noteq> ?at (k + j) l" if "l < 2 * k" for l j using at [of r c "k + j" l] that \<open>r < k\<close> \<open>c < 2 * k\<close> by auto
    with cols show ?thesis by (simp add: lines_encoded_def)
  qed
  have data: "cell cs rows (?at r' c') = cell cs flat (?at r' c')" if "r' < k" "c' < k" for r' c'
  proof -
    have "?at r' c' \<noteq> ?at l (k + j)" if "j < k" for l j using at [of r' c' l "k + j"] that \<open>c' < k\<close> by auto
    with rows show ?thesis by (simp add: lines_encoded_def)
  qed
  have "cell cs cols (?at r (k + j)) = parity_shard coef mul k cs (map (\<lambda>c. cell cs cols (?at r c)) [0..<k]) j"
    if "r < k" "j < k" for r j
  proof -
    have "map (\<lambda>c. cell cs cols (?at r c)) [0..<k] = map (\<lambda>c. cell cs flat (?at r c)) [0..<k]"
      using top data that(1) by simp
    note row = this
    show ?thesis unfolding row using rows that top by (simp add: lines_encoded_def)
  qed
  moreover have "cell cs cols (?at (k + i) c) = parity_shard coef mul k cs (map (\<lambda>r. cell cs cols (?at r c)) [0..<k]) i"
    if "i < k" "c < 2 * k" for i c
  proof -
    have "map (\<lambda>r. cell cs cols (?at r c)) [0..<k] = map (\<lambda>r. cell cs rows (?at r c)) [0..<k]"
      using top that(2) by simp
    note column = this
    show ?thesis unfolding column using cols that by (simp add: lines_encoded_def)
  qed
  ultimately show "coded_grid coef mul k cs (\<lambda>r c. cell cs cols (?at r c))" by (simp add: coded_grid_def)
  show "cell cs cols (?at r c) = cell cs flat (?at r c)" if "r < k" "c < k" using top data that by simp
qed

lemma encode_grid_coded:
  assumes code: "rs_code rs k coef mul" and new: "rs_new rs k k" and k: "0 < k" and cs: "0 < cs"
  shows "\<exists>flat. encode_grid rs input k cs = Ok \<lparr>eg_k = k, eg_chunk_size = cs, eg_data = flat\<rparr> \<and>
    length flat = 2 * k * (2 * k) * cs \<and>
    (\<forall>r < k. \<forall>c < k. cell cs flat (r * (2 * k) + c) = slice (input @ replicate (k * k * cs) 0) ((r * k + c) * cs) cs) \<and>
    coded_grid coef mul k cs (\<lambda>r c. cell cs flat (r * (2 * k) + c))"
proof -
  define flat where "flat = fill_grid k cs input (replicate (2 * k * (2 * k) * cs) 0)"
  have len: "length flat = 2 * k * (2 * k) * cs" unfolding flat_def by (rule fill_grid_cells(1) [OF cs])
  let ?at = "\<lambda>r c. r * (2 * k) + c"
  note at = grid_pos_inj [of _ k]
  have fit: "(?at r c + 1) * cs \<le> 2 * k * (2 * k) * cs" if "r < 2 * k" "c < 2 * k" for r c
    using grid_pos_bound [OF that] by (rule mult_le_mono1)
  have "inj_on (\<lambda>(r, c). ?at r c) ({..<k} \<times> {..<2 * k})" using at by (auto intro!: inj_onI)
  moreover have "(?at r c + 1) * cs \<le> length flat" if "r < k" "c < 2 * k" for r c using fit [of r c] that len by simp
  ultimately obtain rows where rows: "encode_lines rs k cs ''Failed to encode row parity'' (map (row_offsets k cs) [0..<k]) flat = Ok rows"
    and r: "lines_encoded coef mul k cs ?at k flat rows"
    using encode_lines_cells [OF code cs, of ?at k flat] unfolding row_offsets_def cell_offset_def by blast
  have "inj_on (\<lambda>(c, r). ?at r c) ({..<2 * k} \<times> {..<2 * k})" using at by (auto intro!: inj_onI)
  moreover have "(?at r c + 1) * cs \<le> length rows" if "c < 2 * k" "r < 2 * k" for r c
    using fit [of r c] that len r by (simp add: lines_encoded_def)
  ultimately obtain cols where cols: "encode_lines rs k cs ''Failed to encode column parity'' (map (column_offsets k cs) [0..<2 * k]) rows = Ok cols"
    and c: "lines_encoded coef mul k cs (\<lambda>c r. ?at r c) (2 * k) rows cols"
    using encode_lines_cells [OF code cs, of "\<lambda>c r. ?at r c" "2 * k" rows] unfolding column_offsets_def cell_offset_def by blast
  have quadrant: "cell cs cols (?at r c) = slice (input @ replicate (k * k * cs) 0) ((r * k + c) * cs) cs"
    if "r < k" "c < k" for r c
  proof -
    have "(r + 1) * k \<le> k * k" using that(1) by (intro mult_le_mono1) simp
    then have "r * k + c < k * k" using that(2) by simp
    from fill_grid_cells(2) [OF cs this] that coded_by_phases(2) [OF r c that] show ?thesis
      by (simp add: flat_def data_cell_eq)
  qed
  have "encode_grid rs input k cs = Ok \<lparr>eg_k = k, eg_chunk_size = cs, eg_data = cols\<rparr>"
    using rows cols k cs new by (simp add: encode_grid_def flat_def Let_def)
  moreover have "length cols = 2 * k * (2 * k) * cs" using len r c by (simp add: lines_encoded_def)
  ultimately show ?thesis using coded_by_phases(1) [OF r c] quadrant by blast
qed

section \<open>Reading the grid back\<close>

lemma chunk_cell:
  assumes "eg_data g = flat" and "(row * grid_size g + c + 1) * eg_chunk_size g \<le> length flat"
  shows "chunk g row c = Ok (cell (eg_chunk_size g) flat (row * grid_size g + c))"
  using assms by (simp add: chunk_def cell_def Let_def add.commute add_mult_distrib)

lemma all_chunks_Ok: "(\<And>c. c \<in> set cs \<Longrightarrow> chunk g row c = Ok (f c)) \<Longrightarrow> all_chunks g row cs = Ok (map f cs)"
  by (induction cs) simp_all

lemma coded_grid_verifies:
  assumes code: "rs_code rs k coef mul" and new: "rs_new rs k k" and cs: "0 < cs"
    and g: "g = \<lparr>eg_k = k, eg_chunk_size = cs, eg_data = flat\<rparr>" and len: "length flat = 2 * k * (2 * k) * cs"
    and G: "coded_grid coef mul k cs (\<lambda>r c. cell cs flat (r * (2 * k) + c))" and r: "r < 2 * k" and c: "c < 2 * k"
  shows "chunk g r c = Ok (cell cs flat (r * (2 * k) + c))" and "verify_chunk rs g r c = Ok True"
proof -
  let ?row = "map (\<lambda>c. cell cs flat (r * (2 * k) + c)) [0..<2 * k]"
  have fit: "(r * (2 * k) + c + 1) * cs \<le> length flat" if "c < 2 * k" for c
    unfolding len using grid_pos_bound [OF r that] by (rule mult_le_mono1)
  have chunk: "chunk g r c = Ok (cell cs flat (r * (2 * k) + c))" if "c < 2 * k" for c
    using chunk_cell [of g flat r c] fit [OF that] by (simp add: g grid_size_def)
  then show "chunk g r c = Ok (cell cs flat (r * (2 * k) + c))" using c .
  have "all_chunks g r [0..<2 * k] = Ok ?row" using chunk by (intro all_chunks_Ok) simp
  moreover have "rs_verify rs k k ?row = Some True"
  proof -
    have "length ?row = 2 * k" "\<forall>s \<in> set ?row. length s = cs" using fit length_cell by auto
    then have "rs_verify rs k k ?row = Some (drop k ?row = map (parity_shard coef mul k cs (take k ?row)) [0..<k])"
      using code cs unfolding rs_code_def by blast
    moreover have "drop k ?row = map (parity_shard coef mul k cs (take k ?row)) [0..<k]"
      by (rule nth_equalityI) (simp_all add: coded_rows [OF code G r] take_map)
    ultimately show ?thesis by simp
  qed
  ultimately show "verify_chunk rs g r c = Ok True" using r c new by (simp add: verify_chunk_def g grid_size_def)
qed

text \<open>A code that notices one changed shard: multiplication by its coefficients is injective.\<close>

definition rs_detects :: "(nat \<Rightarrow> nat \<Rightarrow> u8) \<Rightarrow> (u8 \<Rightarrow> u8 \<Rightarrow> u8) \<Rightarrow> nat \<Rightarrow> bool" where
  "rs_detects coef mul k \<longleftrightarrow> (\<forall>j < k. \<forall>i < k. inj (mul (coef j i)))"

lemma xor_sum_one:
  assumes "xor_sum f n = xor_sum g n" and "\<And>i. i < n \<Longrightarrow> i \<noteq> m \<Longrightarrow> f i = g i" and "m < n"
  shows "f m = g m"
proof -
  have "xor_sum (\<lambda>i. f i XOR g i) n = 0" using assms(1) by (simp add: xor_sum_xor)
  moreover have "xor_sum h n = h m" if "\<And>i. i < n \<Longrightarrow> i \<noteq> m \<Longrightarrow> h i = 0" for h
  proof -
    have "xor_sum h t = (if m < t then h m else 0)" if "t \<le> n" for t
      using that \<open>\<And>i. i < n \<Longrightarrow> i \<noteq> m \<Longrightarrow> h i = 0\<close> by (induction t) (auto simp: less_Suc_eq)
    then show ?thesis using assms(3) by simp
  qed
  ultimately have "f m XOR g m = 0" using assms(2) by simp
  then have "(f m XOR g m) XOR g m = 0 XOR g m" by simp
  then show ?thesis by (simp add: xor.assoc)
qed

lemma changed_shard_detected:
  assumes code: "rs_code rs k coef mul" and detects: "rs_detects coef mul k"
    and len: "length shards = 2 * k" "\<forall>s \<in> set shards. length s = n" "0 < n"
    and valid: "rs_verify rs k k shards = Some True" and c: "c < 2 * k" and new: "length s = n" "s \<noteq> shards ! c"
  shows "rs_verify rs k k (shards[c := s]) = Some False"
proof -
  let ?new = "shards[c := s]"
  let ?par = "\<lambda>ds. map (parity_shard coef mul k n ds) [0..<k]"
  have law: "rs_verify rs k k xs = Some (drop k xs = ?par (take k xs))"
    if "length xs = 2 * k" "\<forall>s \<in> set xs. length s = n" for xs
    using code len(3) that unfolding rs_code_def by blast
  have "\<forall>s' \<in> set ?new. length s' = n" using len(2) new(1) by (auto dest: subsetD [OF set_update_subset_insert])
  then have v: "rs_verify rs k k ?new = Some (drop k ?new = ?par (take k ?new))"
    using len(1) by (intro law) simp_all
  have eq: "drop k shards = ?par (take k shards)" using law [OF len(1,2)] valid by simp
  have "drop k ?new \<noteq> ?par (take k ?new)"
  proof (cases "c < k")
    case False
    then have "drop k ?new = (drop k shards)[c - k := s]" "take k ?new = take k shards"
      by (simp_all add: drop_update_swap)
    moreover have "(drop k shards)[c - k := s] ! (c - k) \<noteq> drop k shards ! (c - k)" using new(2) c len(1) False by simp
    ultimately show ?thesis using eq by metis
  next
    case True
    have "length (shards ! c) = n" using len c by simp
    then obtain b where b: "b < n" "s ! b \<noteq> shards ! c ! b" using new by (metis nth_equalityI)
    show ?thesis
    proof
      assume "drop k ?new = ?par (take k ?new)"
      then have "?par (take k shards) = ?par (take k ?new)" using eq True by simp
      then have "parity_shard coef mul k n (take k shards) 0 ! b = parity_shard coef mul k n (take k ?new) 0 ! b"
        using True by (auto simp: map_eq_conv)
      then have "xor_sum (\<lambda>i. mul (coef 0 i) (take k shards ! i ! b)) k = xor_sum (\<lambda>i. mul (coef 0 i) (take k ?new ! i ! b)) k"
        using b(1) by (simp add: parity_shard_def)
      then have "mul (coef 0 c) (take k shards ! c ! b) = mul (coef 0 c) (take k ?new ! c ! b)"
        by (rule xor_sum_one [OF _ _ True]) (simp_all add: nth_list_update)
      moreover have "inj (mul (coef 0 c))" using detects True by (simp add: rs_detects_def)
      ultimately have "shards ! c ! b = s ! b" using True c len(1) by (simp add: inj_eq)
      with b(2) show False by simp
    qed
  qed
  with v show ?thesis by simp
qed

text \<open>After a chunk of a row that verifies was replaced by another one, no chunk of the row verifies.\<close>

lemma corrupted_chunk_refused:
  assumes code: "rs_code rs k coef mul" and detects: "rs_detects coef mul k" and new: "rs_new rs k k" and cs: "0 < cs"
    and g: "eg_k g = k" "eg_chunk_size g = cs" and len: "length (eg_data g) = 2 * k * (2 * k) * cs"
    and valid: "verify_chunk rs g r c = Ok True" and r: "r < 2 * k" and c: "c < 2 * k"
    and old: "chunk g r c = Ok old" and upd: "length (upd old) = cs" "upd old \<noteq> old"
  shows "\<exists>g'. chunk_mut g r c upd = Ok g' \<and> (\<forall>c' < 2 * k. verify_chunk rs g' r c' = Ok False)"
proof -
  let ?at = "\<lambda>c. r * (2 * k) + c"
  let ?row = "\<lambda>flat. map (\<lambda>c. cell cs flat (?at c)) [0..<2 * k]"
  define flat where "flat = write_at (?at c * cs) (upd old) (eg_data g)"
  define g' where "g' = g\<lparr>eg_data := flat\<rparr>"
  have fit: "(?at c + 1) * cs \<le> length (eg_data g)" if "c < 2 * k" for c
    unfolding len using grid_pos_bound [OF r that] by (rule mult_le_mono1)
  have len': "length flat = length (eg_data g)" using fit [OF c] upd(1) by (simp add: flat_def)
  have rows: "verify_chunk rs h r c' = Ok (case rs_verify rs k k (?row (eg_data h)) of Some b \<Rightarrow> b | None \<Rightarrow> False)"
    if "eg_k h = k" "eg_chunk_size h = cs" "length (eg_data h) = length (eg_data g)" "c' < 2 * k" for h c'
  proof -
    have "chunk h r c = Ok (cell cs (eg_data h) (?at c))" if "c < 2 * k" for c
      using chunk_cell [of h "eg_data h" r c] fit [OF that] \<open>eg_k h = k\<close> \<open>eg_chunk_size h = cs\<close>
        \<open>length (eg_data h) = length (eg_data g)\<close> by (simp add: grid_size_def)
    then have "all_chunks h r [0..<2 * k] = Ok (?row (eg_data h))" by (intro all_chunks_Ok) simp
    then show ?thesis using that r new by (simp add: verify_chunk_def grid_size_def)
  qed
  have shape: "length (?row (eg_data g)) = 2 * k" "\<forall>s \<in> set (?row (eg_data g)). length s = cs"
    using fit length_cell by auto
  then have "\<exists>b. rs_verify rs k k (?row (eg_data g)) = Some b" using code cs unfolding rs_code_def by blast
  then have "rs_verify rs k k (?row (eg_data g)) = Some True" using valid rows [OF g refl c] by auto
  moreover have "old = cell cs (eg_data g) (?at c)"
    using old chunk_cell [of g "eg_data g" r c] fit [OF c] g by (simp add: grid_size_def)
  then have "upd old \<noteq> ?row (eg_data g) ! c" using upd(2) c by simp
  ultimately have "rs_verify rs k k ((?row (eg_data g))[c := upd old]) = Some False"
    using changed_shard_detected [OF code detects shape cs _ c upd(1)] by blast
  moreover have "(?row (eg_data g))[c := upd old] = ?row flat"
    using cell_write_at [OF fit [OF c], of "upd old"] upd(1) length_cell [OF fit [OF c]]
    by (intro nth_equalityI) (simp_all add: flat_def nth_list_update)
  ultimately have "verify_chunk rs g' r c' = Ok False" if "c' < 2 * k" for c'
    using rows [of g' c'] g len' that by (simp add: g'_def)
  moreover have "chunk_mut g r c upd = Ok g'"
    using old g by (simp add: chunk_mut_def g'_def flat_def grid_size_def)
  ultimately show ?thesis by blast
qed

text \<open>Encoding succeeds, and light nodes accept what it returns.\<close>

lemma coded_grid_available:
  assumes "rs_code rs k coef mul" and "rs_new rs k k" and "0 < cs"
    and g: "g = \<lparr>eg_k = k, eg_chunk_size = cs, eg_data = flat\<rparr>" and "length flat = 2 * k * (2 * k) * cs"
    and "coded_grid coef mul k cs (\<lambda>r c. cell cs flat (r * (2 * k) + c))"
  shows "perform_das rs required g {} = Some (Ok True)"
proof -
  let ?cells = "das_cells (das_fuel (2 * k)) (2 * k) (min required (2 * k * (2 * k))) {} 42 0"
  obtain res where res: "perform_das rs required g {} = Some res" using perform_das_Some by blast
  have "?cells \<subseteq> {..<2 * k} \<times> {..<2 * k}" by (rule das_cells_range) simp_all
  then have "\<forall>cell \<in> ?cells. check_cell rs g {} cell = Ok ()"
    using coded_grid_verifies(2) [OF assms] by (auto simp: check_cell_def)
  from das_loop_cells [OF this] res show ?thesis by (simp add: g perform_das_def grid_size_def Let_def)
qed

section \<open>Properties\<close>

text \<open>C20: the erasure code detects and nothing else. For a systematic linear code, the grid that \<open>encode\<close>
  returns has the size promised, its data quadrant holds the input chunk by chunk (padded
  with zeros, cut at \<open>k * k\<close> chunks), every chunk of its four quadrants verifies -- also in the
  rows whose parity was only computed down the columns -- so that a light node, however many
  samples it takes, finds the block available when nothing is withheld. And when the code
  notices one changed shard, overwriting any one chunk with other bytes makes the check of every
  chunk of its row fail.\<close>

theorem erasure_grid_checks:
  assumes "rs_code rs k coef mul" and "rs_new rs k k" and "0 < k" and "0 < chunk_size"
  shows "\<exists>g. encode_grid rs input k chunk_size = Ok g \<and> length (eg_data g) = grid_size g * grid_size g * chunk_size \<and>
    (\<forall>r < k. \<forall>c < k. chunk g r c =
       Ok (slice (input @ replicate (k * k * chunk_size) 0) ((r * k + c) * chunk_size) chunk_size)) \<and>
    (\<forall>r < 2 * k. \<forall>c < 2 * k. verify_chunk rs g r c = Ok True) \<and>
    (\<forall>required. perform_das rs required g {} = Some (Ok True)) \<and>
    (\<forall>r < 2 * k. \<forall>c < 2 * k. \<forall>upd old. rs_detects coef mul k \<and> chunk g r c = Ok old \<and>
       length (upd old) = chunk_size \<and> upd old \<noteq> old \<longrightarrow>
       (\<exists>g'. chunk_mut g r c upd = Ok g' \<and> (\<forall>c' < 2 * k. verify_chunk rs g' r c' = Ok False)))"
proof -
  obtain flat where enc: "encode_grid rs input k chunk_size = Ok \<lparr>eg_k = k, eg_chunk_size = chunk_size, eg_data = flat\<rparr>"
      (is "_ = Ok ?g")
    and len: "length flat = 2 * k * (2 * k) * chunk_size"
    and data: "\<forall>r < k. \<forall>c < k. cell chunk_size flat (r * (2 * k) + c) =
      slice (input @ replicate (k * k * chunk_size) 0) ((r * k + c) * chunk_size) chunk_size"
    and G: "coded_grid coef mul k chunk_size (\<lambda>r c. cell chunk_size flat (r * (2 * k) + c))"
    using encode_grid_coded [OF assms] by blast
  note cells = coded_grid_verifies [OF assms(1,2,4) refl len G]
  have "\<exists>g'. chunk_mut ?g r c upd = Ok g' \<and> (\<forall>c' < 2 * k. verify_chunk rs g' r c' = Ok False)"
    if "r < 2 * k" "c < 2 * k" "rs_detects coef mul k" "chunk ?g r c = Ok old" "length (upd old) = chunk_size" "upd old \<noteq> old"
    for r c upd old
    by (rule corrupted_chunk_refused [of rs k coef mul chunk_size ?g r c old upd])
      (use assms that len cells(2) [OF that(1,2)] in simp_all)
  with enc len data cells coded_grid_available [OF assms(1,2,4) refl len G] show ?thesis
    by (intro exI [of _ ?g]) (simp add: grid_size_def)
qed

text \<open>A code of parity sums, with one bit-mask as its multiplication.\<close>

definition xor_rs :: rs_lib where
  "xor_rs =
     \<lparr>rs_new = (\<lambda>n m. 0 < n \<and> n + m \<le> 256),
      rs_encode = (\<lambda>n m shards. Some (take n shards @
        map (parity_shard (\<lambda>j i. -1) (AND) n (length (hd shards)) (take n shards)) [0..<n])),
      rs_verify = (\<lambda>n m shards. Some (drop n shards =
        map (parity_shard (\<lambda>j i. -1) (AND) n (length (hd shards)) (take n shards)) [0..<n]))\<rparr>"

lemma xor_rs_code: "0 < k \<Longrightarrow> rs_code xor_rs k (\<lambda>j i. -1) (AND)"
  unfolding rs_code_def
proof (intro conjI allI impI; (elim conjE)?)
  fix shards :: "bytes list" and n
  assume k: "0 < k" "length shards = 2 * k" and n: "\<forall>s \<in> set shards. length s = n"
  then have "length (hd shards) = n" by (cases shards) auto
  then show "rs_encode xor_rs k k shards =
      Some (take k shards @ map (parity_shard (\<lambda>j i. -1) (AND) k n (take k shards)) [0..<k])"
    and "rs_verify xor_rs k k shards =
      Some (drop k shards = map (parity_shard (\<lambda>j i. -1) (AND) k n (take k shards)) [0..<k])"
    by (simp_all add: xor_rs_def)
qed (simp_all add: bit_eq_iff bit_simps, blast+)

lemma xor_rs_detects: "rs_detects (\<lambda>j i. -1) (AND) k"
  by (simp add: rs_detects_def inj_on_def)

lemma erasure_grid_checks_witness:
  "\<exists>g. encode_grid xor_rs (replicate 1024 1) 2 256 = Ok g \<and> chunk g 1 1 = Ok (replicate 256 1) \<and>
     perform_das xor_rs 16 g {} = Some (Ok True) \<and>
     (\<exists>g'. chunk_mut g 1 1 (\<lambda>bs. bs[0 := 99]) = Ok g' \<and> verify_chunk xor_rs g' 1 3 = Ok False)"
proof -
  have code: "rs_code xor_rs 2 (\<lambda>j i. -1) (AND)" by (rule xor_rs_code) simp
  have new: "rs_new xor_rs 2 2" by (simp add: xor_rs_def)
  obtain g where g: "encode_grid xor_rs (replicate 1024 1) 2 256 = Ok g" "perform_das xor_rs 16 g {} = Some (Ok True)"
    and data: "chunk g 1 1 = Ok (slice (replicate 1024 1 @ replicate (2 * 2 * 256) 0) ((1 * 2 + 1) * 256) 256)"
    and detect: "\<And>upd old. chunk g 1 1 = Ok old \<Longrightarrow> length (upd old) = 256 \<Longrightarrow> upd old \<noteq> old \<Longrightarrow>
       \<exists>g'. chunk_mut g 1 1 upd = Ok g' \<and> (\<forall>c' < 2 * 2. verify_chunk xor_rs g' 1 c' = Ok False)"
    using erasure_grid_checks [OF code new, of 256 "replicate 1024 1"] xor_rs_detects [of 2] by auto
  have old: "chunk g 1 1 = Ok (replicate 256 1)" using data by (simp add: slice_def)
  have "(replicate 256 1 :: bytes)[0 := 99] ! 0 \<noteq> replicate 256 1 ! 0" by simp
  then have "(replicate 256 1 :: bytes)[0 := 99] \<noteq> replicate 256 1" by metis
  then have "\<exists>g'. chunk_mut g 1 1 (\<lambda>bs. bs[0 := 99]) = Ok g' \<and> (\<forall>c' < 2 * 2. verify_chunk xor_rs g' 1 c' = Ok False)"
    using detect [OF old] by simp
  with g old show ?thesis by (intro exI [of _ g]) force
qed

end
