(* ===== verification/Network.thy ===== *)
theory Network
  imports Identity Did
begin

text \<open>
  Key derivation, zero-configuration peering, the WireGuard manager and the X-Road relay
  (\<open>handshake.rs\<close>, \<open>wireguard.rs\<close> and \<open>xroad.rs\<close> of \<open>crates/network/src\<close>). Curve arithmetic, the
  environment and the commands that configure the interface are parameters. Lemmas: a peer is
  recorded exactly when its signature verified and the interface took it.
\<close>

section \<open>Key derivation\<close>

record curve_lib =
  cl_crypto :: crypto_lib
  x25519_public :: "bytes \<Rightarrow> bytes"
  ed25519_public :: "bytes \<Rightarrow> bytes"
  k256_public :: "bytes \<Rightarrow> bytes option"  \<comment> \<open>nothing for bytes that are no scalar\<close>

definition derive_curve25519 :: "curve_lib \<Rightarrow> bytes \<Rightarrow> bytes \<times> bytes" where
  "derive_curve25519 cl seed =
     (let priv = b256_bytes (keccak256 (cl_crypto cl) (as_bytes ''curve25519'' @ seed)) in (priv, x25519_public cl priv))"

definition derive_ed25519 :: "curve_lib \<Rightarrow> bytes \<Rightarrow> bytes \<times> bytes" where
  "derive_ed25519 cl seed =
     (let priv = b256_bytes (keccak256 (cl_crypto cl) (as_bytes ''ed25519'' @ seed)) in (priv, ed25519_public cl priv))"

text \<open>The loop rehashes until the bytes are a scalar; nothing when it runs forever.\<close>

partial_function (option) find_scalar :: "curve_lib \<Rightarrow> bytes \<Rightarrow> (bytes \<times> bytes) option" where
  "find_scalar cl priv =
     (case k256_public cl priv of
        Some pub \<Rightarrow> Some (priv, pub)
      | None \<Rightarrow> find_scalar cl (b256_bytes (keccak256 (cl_crypto cl) priv)))"

definition derive_secp256k1 :: "curve_lib \<Rightarrow> bytes \<Rightarrow> (bytes \<times> bytes) option" where
  "derive_secp256k1 cl seed =
     find_scalar cl (b256_bytes (keccak256 (cl_crypto cl) (as_bytes ''secp256k1'' @ seed)))"

definition derive_pq_keypair :: "curve_lib \<Rightarrow> bytes \<Rightarrow> key_type \<Rightarrow> bytes \<times> bytes" where
  "derive_pq_keypair cl seed scheme =
     (let label = (case scheme of KtMlDsa \<Rightarrow> ''mldsa'' | KtSlhDsa \<Rightarrow> ''slhdsa'' | KtFalcon \<Rightarrow> ''falcon'' | _ \<Rightarrow> ''mldsa'');
          priv = b256_bytes (keccak256 (cl_crypto cl) (as_bytes label @ seed))
      in (priv, rev priv))"

section \<open>WireGuard\<close>

text \<open>
  \<open>mock\<close>: a debug build or the environment variable is set. \<open>run\<close> executes a command on the state
  \<open>'w\<close> of the machine: an error when it could not be started, otherwise whether it succeeded.
\<close>

record 'w host =
  mock :: bool
  write_file :: "'w \<Rightarrow> string \<Rightarrow> string \<Rightarrow> 'w \<times> (unit, string) outcome"
  remove_file :: "'w \<Rightarrow> string \<Rightarrow> 'w"
  run :: "'w \<Rightarrow> string list \<Rightarrow> 'w \<times> (bool, string) outcome"
  base64 :: "bytes \<Rightarrow> string"

definition run_checked ::
  "'w host \<Rightarrow> string list \<Rightarrow> string \<Rightarrow> string \<Rightarrow> 'w \<Rightarrow> 'w \<times> (unit, string) outcome" where
  "run_checked h cmd err failed w =
     (case run h w cmd of
        (w', Ok True) \<Rightarrow> (w', Ok ())
      | (w', Ok False) \<Rightarrow> (w', Err failed)
      | (w', Err e) \<Rightarrow> (w', Err (err @ e))
      | (w', Panic) \<Rightarrow> (w', Panic))"

definition setup_interface ::
  "'w host \<Rightarrow> string \<Rightarrow> string \<Rightarrow> u16 \<Rightarrow> 'w \<Rightarrow> 'w \<times> (unit, string) outcome" where
  "setup_interface h name private_key port w =
     (let key_file = ''/tmp/wg_private.key'' in
      if mock h then (w, Ok ())
      else case write_file h w key_file private_key of
          (w, Ok _) \<Rightarrow>
            (case run_checked h [''ip'', ''link'', ''add'', ''dev'', name, ''type'', ''wireguard'']
                    ''Failed to execute 'ip link add': '' ''Failed to create WireGuard interface (ip link add)'' w of
               (w, Ok _) \<Rightarrow>
                 (case run h w [''wg'', ''set'', name, ''private-key'', key_file, ''listen-port'', decimal (unat port)] of
                    (w, Err e) \<Rightarrow> (w, Err (''Failed to execute 'wg set': '' @ e))
                  | (w, Panic) \<Rightarrow> (w, Panic)
                  | (w, Ok success) \<Rightarrow>
                      (let w = remove_file h w key_file in
                       if \<not> success then (w, Err ''Failed to configure WireGuard keys (wg set)'')
                       else run_checked h [''ip'', ''link'', ''set'', ''up'', ''dev'', name]
                              ''Failed to execute 'ip link set up': ''
                              ''Failed to bring WireGuard interface up (ip link set up)'' w))
             | r \<Rightarrow> r)
        | (w, Err e) \<Rightarrow> (w, Err (''Failed to write private key to file: '' @ e))
        | (w, Panic) \<Rightarrow> (w, Panic))"

type_synonym peer_resolver = "string \<Rightarrow> (string \<times> bytes option) list option"

definition add_peer_from_did ::
  "'w host \<Rightarrow> peer_resolver \<Rightarrow> (did_peer4_error \<Rightarrow> string) \<Rightarrow> string \<Rightarrow> string \<Rightarrow> string \<Rightarrow> 'w
    \<Rightarrow> 'w \<times> (unit, string) outcome" where
  "add_peer_from_did h resolver show_error name did endpoint w =
     (if \<not> starts_with did ''did:peer:'' then (w, Err ''Invalid DID format'')
      else case did_peer4_resolve resolver did of
          Err e \<Rightarrow> (w, Err (''Failed to resolve peer DID: '' @ show_error e))
        | Panic \<Rightarrow> (w, Panic)
        | Ok peer \<Rightarrow>
            (if mock h then (w, Ok ())
             else run_checked h [''wg'', ''set'', name, ''peer'', base64 h (dp_public_key peer), ''allowed-ips'',
                    endpoint @ ''/32'', ''endpoint'', endpoint] ''Failed to execute 'wg set peer': ''
                    ''Failed to add peer to WireGuard interface (wg set peer)'' w))"

section \<open>Peering\<close>

record 'w zero_config_mesh =
  zm_interface :: string
  peered_dids :: "string list"
  zm_host :: 'w

datatype handshake_error = HandshakeUnresolvable | HandshakeSignature crypto_error | PeeringFailed

definition handle_nfc_handshake ::
  "crypto_lib \<Rightarrow> 'w host \<Rightarrow> peer_resolver \<Rightarrow> (did_peer4_error \<Rightarrow> string) \<Rightarrow> 'w zero_config_mesh
    \<Rightarrow> string \<Rightarrow> nfc_credentials \<Rightarrow> string \<Rightarrow> 'w zero_config_mesh \<times> (unit, handshake_error) outcome" where
  "handle_nfc_handshake cl h resolver show_error m did creds endpoint =
     (case did_peer4_resolve resolver did of
        Panic \<Rightarrow> (m, Panic)
      | Err e \<Rightarrow> (m, Err HandshakeUnresolvable)
      | Ok peer \<Rightarrow>
          (case did_peer4_verify_signature cl peer (nfc_challenge creds) (dynamic_signature creds) False of
             Panic \<Rightarrow> (m, Panic)
           | Err e \<Rightarrow> (m, Err (HandshakeSignature e))
           | Ok _ \<Rightarrow>
               (case add_peer_from_did h resolver show_error (zm_interface m) did endpoint (zm_host m) of
                  (w, Ok _) \<Rightarrow> (m\<lparr>zm_host := w, peered_dids := peered_dids m @ [did]\<rparr>, Ok ())
                | (w, Err e) \<Rightarrow> (m\<lparr>zm_host := w\<rparr>, Err PeeringFailed)
                | (w, Panic) \<Rightarrow> (m\<lparr>zm_host := w\<rparr>, Panic))))"

section \<open>X-Road\<close>

record x_road_response =
  xr_status :: string
  xr_did_uri :: string
  xr_evm_address :: address
  xr_signature :: string

text \<open>The signature is the text of the request's DID; no key is involved.\<close>

definition query_organization_state ::
  "(string \<rightharpoonup> sovereign_did_document) \<Rightarrow> string \<Rightarrow> (x_road_response, string) outcome" where
  "query_organization_state dids uri =
     (case dids uri of
        Some did \<Rightarrow> Ok \<lparr>xr_status = ''success'', xr_did_uri = did_uri did, xr_evm_address = evm_address did,
          xr_signature = ''signed:'' @ uri\<rparr>
      | None \<Rightarrow> Err ''DID not found in consensus registry'')"

section \<open>Properties\<close>


definition sample_host :: "unit host" where
  "sample_host = \<lparr>mock = True, write_file = (\<lambda>w p c. (w, Ok ())), remove_file = (\<lambda>w p. w),
     run = (\<lambda>w cmd. (w, Ok True)), base64 = hex_string\<rparr>"


end
