(* ===== verification/Attestation.thy ===== *)
theory Attestation
  imports Text
begin

text \<open>
  Attestation providers (\<open>crates/attestation/src\<close>) and the actuator interlocks
  (\<open>crates/consensus/src/actuator.rs\<close>). The device files, the environment and the quote decoder are
  the parameters \<open>sgx_host\<close>. Lemmas: which quotes verify, that every provider accepts its own
  quotes, and which heartbeats pass.
\<close>

section \<open>DCAP quotes\<close>

record dcap_quote =
  mrenclave :: b256
  node_wallet :: address
  raw_quote :: bytes

datatype dcap_error = MrenclaveMismatch | EmptyDcapQuote

definition verify_dcap_quote :: "dcap_quote \<Rightarrow> b256 \<Rightarrow> (bool, dcap_error) outcome" where
  "verify_dcap_quote quote approved_mrenclave =
     (if mrenclave quote \<noteq> approved_mrenclave then Err MrenclaveMismatch
      else if raw_quote quote = [] then Err EmptyDcapQuote
      else Ok True)"

section \<open>The mock provider\<close>

definition mock_generate_quote :: "bytes \<Rightarrow> (bytes, string) outcome" where
  "mock_generate_quote report_data = Ok (as_bytes ''MOCK_QUOTE:'' @ report_data)"

definition mock_verify_quote :: "bytes \<Rightarrow> (bool, string) outcome" where
  "mock_verify_quote quote = Ok (starts_with quote (as_bytes ''MOCK_QUOTE:''))"

section \<open>The SGX provider\<close>

text \<open>\<open>decode_tee_type\<close> is the TEE type in the header of a quote that \<open>dcap_qvl\<close> can decode.\<close>

record 'w sgx_host =
  path_exists :: "'w \<Rightarrow> string \<Rightarrow> bool"
  device_write :: "'w \<Rightarrow> string \<Rightarrow> bytes \<Rightarrow> 'w \<times> (unit, string) outcome"
  device_read :: "'w \<Rightarrow> string \<Rightarrow> (bytes, string) outcome"
  mock_sgx :: bool
  debug_build :: bool
  decode_tee_type :: "bytes \<Rightarrow> (u32, string) outcome"

definition sgx_generate_quote ::
  "'w sgx_host \<Rightarrow> bytes \<Rightarrow> 'w \<Rightarrow> 'w \<times> (bytes, string) outcome" where
  "sgx_generate_quote h report_data w =
     (if path_exists h w ''/dev/attestation'' then
        (case device_write h w ''/dev/attestation/user_report_data'' report_data of
           (w, Ok _) \<Rightarrow>
             (w, case device_read h w ''/dev/attestation/quote'' of
                   Err e \<Rightarrow> Err (''Failed to read SGX quote from driver: '' @ e) | r \<Rightarrow> r)
         | (w, Err e) \<Rightarrow> (w, Err (''Failed to write user report data to SGX driver: '' @ e))
         | (w, Panic) \<Rightarrow> (w, Panic))
      else if path_exists h w ''/dev/sgx/enclave'' \<or> mock_sgx h then
        (w, Ok (as_bytes ''MOCK_SGX_QUOTE_VALID_PROVEN_BY_INTEL_DCAP'' @ report_data))
      else (w, Err ''Intel SGX hardware attestation device (/dev/attestation or /dev/sgx/enclave) not found. Use SOVEREIGN_MOCK_SGX=1 for mock testing.''))"

definition sgx_verify_quote :: "'w sgx_host \<Rightarrow> bytes \<Rightarrow> (bool, string) outcome" where
  "sgx_verify_quote h quote =
     (if quote = [] then Err ''Invalid or empty SGX quote payload''
      else if starts_with quote (as_bytes ''MOCK_SGX_QUOTE_'') then
        (if mock_sgx h \<or> debug_build h then Ok True
         else Err ''Mock SGX quote received but SOVEREIGN_MOCK_SGX is not enabled in production.'')
      else case decode_tee_type h quote of
          Ok t \<Rightarrow> if t \<noteq> 0 then Err ''Quote TEE type is not SGX'' else Ok True
        | Err e \<Rightarrow> Err (''Failed to parse SGX quote: '' @ e)
        | Panic \<Rightarrow> Panic)"

section \<open>Actuators\<close>

record heartbeat_telemetry =
  device_id :: address
  physical_q_units :: u64
  ht_timestamp :: u64
  hardware_health :: bool
  silicon_signature :: bytes

datatype actuator_error = HardwareFault | HeartbeatTimeout

definition verify_actuator_intent :: "heartbeat_telemetry \<Rightarrow> u64 \<Rightarrow> (unit, actuator_error) outcome" where
  "verify_actuator_intent t current_time =
     (if \<not> hardware_health t then Err HardwareFault
      else if 1 < saturating_sub current_time (ht_timestamp t) then Err HeartbeatTimeout
      else Ok ())"

definition precompile_actuator_oracle :: "bytes \<Rightarrow> (u64 \<times> bytes, string) outcome" where
  "precompile_actuator_oracle input =
     (if input = [] then Err ''Empty input to actuator oracle precompile 0xfe'' else Ok (500, [1]))"

section \<open>The contract of a provider\<close>

locale attestation_provider =
  fixes generate :: "bytes \<Rightarrow> (bytes, string) outcome" and verify :: "bytes \<Rightarrow> (bool, string) outcome"
  assumes generated_verifies: "generate report = Ok quote \<Longrightarrow> verify quote = Ok True"
begin

lemma rejected_not_generated: "verify quote \<noteq> Ok True \<Longrightarrow> generate report \<noteq> Ok quote"
  using generated_verifies by blast

end

interpretation mock_provider: attestation_provider mock_generate_quote mock_verify_quote
  by unfold_locales (auto simp: mock_generate_quote_def mock_verify_quote_def)

text \<open>Without a hardware device the SGX provider accepts its own quotes when mocking is enabled.\<close>

lemma sgx_mock_quote_verifies:
  assumes "sgx_generate_quote h report w = (w', Ok quote)" and "\<not> path_exists h w ''/dev/attestation''"
  shows "sgx_verify_quote h quote = (if mock_sgx h \<or> debug_build h then Ok True
    else Err ''Mock SGX quote received but SOVEREIGN_MOCK_SGX is not enabled in production.'')"
  using assms by (auto simp: sgx_generate_quote_def sgx_verify_quote_def starts_with_def as_bytes_def split: if_splits)

definition mock_host :: "unit sgx_host" where
  "mock_host = \<lparr>path_exists = (\<lambda>w p. False), device_write = (\<lambda>w p bs. (w, Err [])),
     device_read = (\<lambda>w p. Err []), mock_sgx = True, debug_build = False, decode_tee_type = (\<lambda>q. Err [])\<rparr>"

interpretation sgx_mock_provider: attestation_provider "\<lambda>r. snd (sgx_generate_quote mock_host r ())" "sgx_verify_quote mock_host"
proof unfold_locales
  fix report quote
  assume "snd (sgx_generate_quote mock_host report ()) = Ok quote"
  then have "sgx_generate_quote mock_host report () = ((), Ok quote)" by (simp add: prod_eq_iff)
  from sgx_mock_quote_verifies [OF this] show "sgx_verify_quote mock_host quote = Ok True"
    by (simp add: mock_host_def)
qed

text \<open>A heartbeat passes unless it is more than a second old; one from the future always does.\<close>

lemma verify_actuator_intent_Ok:
  "verify_actuator_intent t now = Ok () \<longleftrightarrow> hardware_health t \<and> unat now \<le> unat (ht_timestamp t) + 1"
proof -
  have "1 < saturating_sub now (ht_timestamp t) \<longleftrightarrow> unat (ht_timestamp t) + 1 < unat now"
    by (auto simp: word_less_nat_alt unat_saturating_sub)
  then show ?thesis by (auto simp: verify_actuator_intent_def)
qed

end
