(* ===== verification/Scenarios.thy ===== *)
theory Scenarios
  imports Prelude
begin

text \<open>
  Constants that the repository's unit tests are written with. The theories \<open>Scenarios_...\<close> state each
  test function as a proposition with its inputs and assertions, and prove that the model
  passes it; keys, signatures and hashes that a test generates are arguments.
\<close>

definition repeat_address :: "u8 \<Rightarrow> address" where
  "repeat_address b = address_of_bytes (replicate 20 b)"

definition repeat_b256 :: "u8 \<Rightarrow> b256" where
  "repeat_b256 b = b256_of_bytes (replicate 32 b)"

lemma address_bytes_address_of_bytes:
  assumes "length bs = 20"
  shows "address_bytes (address_of_bytes bs) = bs"
proof -
  have "be_nat bs < 2 ^ LENGTH(160)" using be_nat_less [of bs] assms by simp
  then have "unat (address_of_bytes bs) = be_nat bs"
    by (simp only: address_of_bytes_def unat_of_nat mod_less)
  with be_bytes_be_nat [of bs] assms show ?thesis by (simp add: address_bytes_def)
qed

lemma b256_bytes_b256_of_bytes:
  assumes "length bs = 32"
  shows "b256_bytes (b256_of_bytes bs) = bs"
proof -
  have "be_nat bs < 2 ^ LENGTH(256)" using be_nat_less [of bs] assms by simp
  then have "unat (b256_of_bytes bs) = be_nat bs"
    by (simp only: b256_of_bytes_def unat_of_nat mod_less)
  with be_bytes_be_nat [of bs] assms show ?thesis by (simp add: b256_bytes_def)
qed

lemma repeat_address_inject [simp]: "repeat_address b = repeat_address c \<longleftrightarrow> b = c"
proof
  assume "repeat_address b = repeat_address c"
  then have "replicate 20 b = replicate 20 c"
    unfolding repeat_address_def by (metis address_bytes_address_of_bytes length_replicate)
  then show "b = c" by (simp add: replicate_eq_replicate)
qed simp

lemma repeat_b256_inject [simp]: "repeat_b256 b = repeat_b256 c \<longleftrightarrow> b = c"
proof
  assume "repeat_b256 b = repeat_b256 c"
  then have "replicate 32 b = replicate 32 c"
    unfolding repeat_b256_def by (metis b256_bytes_b256_of_bytes length_replicate)
  then show "b = c" by (simp add: replicate_eq_replicate)
qed simp

lemma b256_bytes_repeat [simp]: "b256_bytes (repeat_b256 b) = replicate 32 b"
  by (simp add: repeat_b256_def b256_bytes_b256_of_bytes)

lemma address_bytes_repeat [simp]: "address_bytes (repeat_address b) = replicate 20 b"
  by (simp add: repeat_address_def address_bytes_address_of_bytes)

end
