(* ===== verification/Scenarios_Codes.thy ===== *)
theory Scenarios_Codes
  imports Das_Code Kzg Scenarios
begin

text \<open>
  The unit tests of the erasure grid (\<open>das.rs\<close>) and of the reputation commitment (\<open>kzg.rs\<close>), with what the
  Reed-Solomon and the KZG library promise as hypotheses.
\<close>

section \<open>The erasure grid\<close>

definition test_erasure_grid_encoding :: "rs_lib \<Rightarrow> bool" where
  "test_erasure_grid_encoding rs \<longleftrightarrow>
     (case encode_grid rs (replicate 1024 1) 2 256 of
        Ok grid \<Rightarrow> eg_k grid = 2 \<and> length (eg_data grid) = grid_size grid * grid_size grid * 256 \<and>
          chunk grid 0 0 = Ok (replicate 256 1) \<and> chunk grid 1 1 = Ok (replicate 256 1)
      | _ \<Rightarrow> False)"

definition test_erasure_grid_chunk_verification :: "rs_lib \<Rightarrow> bool" where
  "test_erasure_grid_chunk_verification rs \<longleftrightarrow>
     (case encode_grid rs (replicate 1024 2) 2 256 of
        Ok grid \<Rightarrow> verify_chunk rs grid 0 0 = Ok True \<and> verify_chunk rs grid 0 2 = Ok True \<and>
          (case chunk_mut grid 0 0 (\<lambda>bs. bs[0 := 99]) of
             Ok grid' \<Rightarrow> verify_chunk rs grid' 0 2 = Ok False
           | _ \<Rightarrow> False)
      | _ \<Rightarrow> False)"

definition test_perform_das_success :: "rs_lib \<Rightarrow> bool" where
  "test_perform_das_success rs \<longleftrightarrow>
     (case encode_grid rs (replicate 1024 5) 2 256 of
        Ok grid \<Rightarrow> perform_das rs das_light_node_default grid {} = Some (Ok True)
      | _ \<Rightarrow> False)"

text \<open>The grid of 1024 equal bytes, which all these tests encode\<close>

lemma test_grid:
  assumes "rs_code rs 2 coef mul" and "rs_new rs 2 2"
  obtains g where "encode_grid rs (replicate 1024 x) 2 256 = Ok g" and "eg_k g = 2"
    and "length (eg_data g) = grid_size g * grid_size g * 256"
    and "chunk g 0 0 = Ok (replicate 256 x)" and "chunk g 1 1 = Ok (replicate 256 x)"
    and "\<forall>r < 4. \<forall>c < 4. verify_chunk rs g r c = Ok True" and "perform_das rs 16 g {} = Some (Ok True)"
    and "rs_detects coef mul 2 \<and> x \<noteq> y \<longrightarrow>
      (\<exists>g'. chunk_mut g 0 0 (\<lambda>bs. bs[0 := y]) = Ok g' \<and> verify_chunk rs g' 0 2 = Ok False)"
proof -
  obtain flat where enc: "encode_grid rs (replicate 1024 x) 2 256 = Ok \<lparr>eg_k = 2, eg_chunk_size = 256, eg_data = flat\<rparr>"
      (is "_ = Ok ?g")
    and len: "length flat = 2 * 2 * (2 * 2) * 256"
    and data: "\<forall>r < 2. \<forall>c < 2. cell 256 flat (r * (2 * 2) + c) =
      slice (replicate 1024 x @ replicate (2 * 2 * 256) 0) ((r * 2 + c) * 256) 256"
    and G: "coded_grid coef mul 2 256 (\<lambda>r c. cell 256 flat (r * (2 * 2) + c))"
    using encode_grid_coded [OF assms, of 256 "replicate 1024 x"] by auto
  note cells = coded_grid_verifies [OF assms _ refl len G]
  have c0: "chunk ?g 0 0 = Ok (replicate 256 x)" and c1: "chunk ?g 1 1 = Ok (replicate 256 x)"
    using cells(1) [of 0 0] cells(1) [of 1 1] data [rule_format, of 0 0] data [rule_format, of 1 1]
    by (simp_all add: slice_def)
  have detect: "\<exists>g'. chunk_mut ?g 0 0 (\<lambda>bs. bs[0 := y]) = Ok g' \<and> verify_chunk rs g' 0 2 = Ok False"
    if "rs_detects coef mul 2" "x \<noteq> y"
  proof -
    have "(replicate 256 x)[0 := y] ! 0 \<noteq> replicate 256 x ! 0" using that(2) by simp
    then have "(replicate 256 x)[0 := y] \<noteq> replicate 256 x" by metis
    then have "\<exists>g'. chunk_mut ?g 0 0 (\<lambda>bs. bs[0 := y]) = Ok g' \<and> (\<forall>c' < 2 * 2. verify_chunk rs g' 0 c' = Ok False)"
      by (intro corrupted_chunk_refused [OF assms(1) that(1) assms(2), of 256 ?g 0 0 "replicate 256 x"])
        (use c0 len cells(2) in simp_all)
    then show ?thesis by auto
  qed
  show thesis
    by (rule that [OF enc _ _ c0 c1 _ coded_grid_available [OF assms _ refl len G]])
      (use len cells(2) detect in \<open>simp_all add: grid_size_def\<close>)
qed

lemma erasure_grid_tests_pass:
  assumes "rs_code rs 2 coef mul" and "rs_new rs 2 2"
  shows "test_erasure_grid_encoding rs" and "test_perform_das_success rs"
    and "rs_detects coef mul 2 \<Longrightarrow> test_erasure_grid_chunk_verification rs"
proof -
  show "test_erasure_grid_encoding rs"
    by (rule test_grid [OF assms, of 1]) (simp add: test_erasure_grid_encoding_def)
  show "test_perform_das_success rs"
    by (rule test_grid [OF assms, of 5]) (simp add: test_perform_das_success_def das_light_node_default_def)
  show "test_erasure_grid_chunk_verification rs" if "rs_detects coef mul 2"
    by (rule test_grid [OF assms, of 2 99]) (use that in \<open>auto simp: test_erasure_grid_chunk_verification_def\<close>)
qed

section \<open>KZG\<close>

text \<open>\<open>test_kzg_pagerank_verification\<close>; without the trusted setup it asserts nothing.\<close>

definition test_reputation :: "string \<Rightarrow> f64" where
  "test_reputation did =
     (if did = ''did:peer:A'' then f64_lit (1 / 2) else if did = ''did:peer:B'' then f64_lit (3 / 10) else f64_lit (1 / 5))"

definition test_kzg_pagerank_verification :: "kzg_lib \<Rightarrow> string list \<Rightarrow> bool" where
  "test_kzg_pagerank_verification kl dids \<longleftrightarrow>
     (case page_rank_kzg_new kl dids test_reputation of
        None \<Rightarrow> True
      | Some kzg \<Rightarrow>
          (case generate_proof kl kzg ''did:peer:B'' dids of
             Some (opened, y) \<Rightarrow> verify_proof kl (pk_commitment kzg) 1 y opened = Some True
           | None \<Rightarrow> False))"

text \<open>A proof of an opened verifies against the commitment of its blob.\<close>

definition kzg_opens :: "kzg_lib \<Rightarrow> bool" where
  "kzg_opens kl \<longleftrightarrow> (\<forall>blob c i. kzg_blob_ok kl blob \<and> kzg_commit kl blob = Some c \<longrightarrow>
     (\<exists>opened y. kzg_prove kl blob (evaluation_point i) = Some (opened, y) \<and>
       kzg_check kl c (evaluation_point i) y opened = Some True))"

lemma test_kzg_pagerank_verification:
  assumes "kzg_opens kl" and "distinct dids" and "set dids = {''did:peer:A'', ''did:peer:B'', ''did:peer:C''}"
  shows "test_kzg_pagerank_verification kl dids"
proof -
  have "sort dids = [''did:peer:A'', ''did:peer:B'', ''did:peer:C'']"
    by (rule sorted_distinct_set_unique) (use assms in \<open>simp_all add: less_char_def of_char_def\<close>)
  then have p: "position ''did:peer:B'' (sort dids) = Some 1" by (simp add: position_def)
  show ?thesis
  proof (cases "page_rank_kzg_new kl dids test_reputation")
    case (Some kzg)
    then have "kzg_blob_ok kl (pk_blob kzg)" "kzg_commit kl (pk_blob kzg) = Some (pk_commitment kzg)"
      by (auto simp: page_rank_kzg_new_def Let_def split: if_splits)
    with assms(1) obtain opened y where "kzg_prove kl (pk_blob kzg) (evaluation_point 1) = Some (opened, y)"
      "kzg_check kl (pk_commitment kzg) (evaluation_point 1) y opened = Some True"
      unfolding kzg_opens_def by blast
    with Some p show ?thesis by (simp add: test_kzg_pagerank_verification_def generate_proof_def verify_proof_def Let_def)
  qed (simp add: test_kzg_pagerank_verification_def)
qed

end
