(* ===== verification/Scenarios_Execution.thy ===== *)
theory Scenarios_Execution
  imports Parallel_Pevm Pool Scenarios
begin

text \<open>
  The unit tests of \<open>parallel.rs\<close>, \<open>stateless.rs\<close> and \<open>pool.rs\<close> as scenarios.
\<close>

section \<open>Parallel execution\<close>

definition tx_access_default :: tx_access_list where
  "tx_access_default =
     \<lparr>tx_index = 0, tx_sender = 0, tx_recipient = 0, tx_value = 0, tx_nonce = 0,
      read_addresses = [], write_addresses = [], read_slots = [], write_slots = []\<rparr>"

definition test_parallel_execution_partitioning :: bool where
  "test_parallel_execution_partitioning \<longleftrightarrow>
     (let addr1 = repeat_address 0x11; addr2 = repeat_address 0x22;
          tx1 = tx_access_default\<lparr>tx_index := 0, write_addresses := [addr1]\<rparr>;
          tx2 = tx_access_default\<lparr>tx_index := 1, read_addresses := [addr1]\<rparr>;
          tx3 = tx_access_default\<lparr>tx_index := 2, write_addresses := [addr2]\<rparr>
      in case partition_waves [tx1, tx2, tx3] of
           None \<Rightarrow> False
         | Some waves \<Rightarrow> length waves = 2 \<and> 0 \<in> tx_index ` set (waves ! 0) \<and>
             2 \<in> tx_index ` set (waves ! 0) \<and> 1 \<in> tx_index ` set (waves ! 1))"

lemma test_parallel_execution_partitioning: "test_parallel_execution_partitioning"
  by (simp add: test_parallel_execution_partitioning_def tx_access_default_def partition_eval slot_keys_def Let_def)

text \<open>One transfer of 200 from an account with 1000\<close>

definition transfer_db :: witness_database where
  "transfer_db = \<lparr>wdb_accounts = [repeat_address 0xaa \<mapsto> account_default\<lparr>aw_balance := 1000, aw_nonce := 0\<rparr>],
     wdb_storage = Map.empty, wdb_verkle_proofs = []\<rparr>"

definition transfer_tx :: tx_access_list where
  "transfer_tx = tx_access_default\<lparr>tx_index := 0, tx_sender := repeat_address 0xaa,
     tx_recipient := repeat_address 0xbb, tx_value := 200, tx_nonce := 0\<rparr>"

definition balance_in :: "witness_database \<Rightarrow> address \<Rightarrow> u256 option" where
  "balance_in db a = map_option aw_balance (wdb_accounts db a)"

definition test_wave_executor_real_execution :: bool where
  "test_wave_executor_real_execution \<longleftrightarrow>
     (case wave_execute [transfer_tx] transfer_db of
        Some (db, res) \<Rightarrow> is_ok res \<and> balance_in db (repeat_address 0xaa) = Some 800 \<and>
          map_option aw_nonce (wdb_accounts db (repeat_address 0xaa)) = Some 1 \<and>
          balance_in db (repeat_address 0xbb) = Some 200
      | None \<Rightarrow> False)"

definition test_pevm_executor_real_execution :: "(nat \<Rightarrow> nat \<Rightarrow> nat) \<Rightarrow> bool" where
  "test_pevm_executor_real_execution sched \<longleftrightarrow>
     (case pevm_execute sched [transfer_tx] transfer_db of
        Ok db \<Rightarrow> balance_in db (repeat_address 0xaa) = Some 800 \<and> balance_in db (repeat_address 0xbb) = Some 200
      | _ \<Rightarrow> False)"

definition test_grevm_executor_real_execution :: bool where
  "test_grevm_executor_real_execution \<longleftrightarrow>
     (case grevm_execute [transfer_tx] transfer_db of
        Some (db, res) \<Rightarrow> is_ok res \<and> balance_in db (repeat_address 0xaa) = Some 800 \<and>
          balance_in db (repeat_address 0xbb) = Some 200
      | None \<Rightarrow> False)"

lemmas transfer_eval = transfer_tx_def transfer_db_def tx_access_default_def balance_in_def engine_eval

lemma test_wave_executor_real_execution: "test_wave_executor_real_execution"
  by (simp add: test_wave_executor_real_execution_def wave_execute_def exec_wave_def partition_eval transfer_eval)

lemma test_grevm_executor_real_execution: "test_grevm_executor_real_execution"
  by (simp add: test_grevm_executor_real_execution_def grevm_execute_def grevm_tx_def partition_eval transfer_eval Let_def)

lemma test_pevm_executor_real_execution: "test_pevm_executor_real_execution sched"
proof -
  have retries: "max_retries = Suc 19" by (simp add: max_retries_def)
  show ?thesis
    unfolding test_pevm_executor_real_execution_def pevm_execute_def retries pevm_rounds.simps
    by (simp add: pevm_thread_def pevm_conflict_def
        pevm_commit_def read_account_def latest_below_def mvcc_default_def write_account_def put_version_def
        finalize_mvcc_def transfer_eval Let_def)
qed

section \<open>Stateless validation\<close>

definition test_witness_database_reads :: bool where
  "test_witness_database_reads \<longleftrightarrow>
     (let addr = repeat_address 0x11;
          account = account_default\<lparr>aw_balance := 100, aw_nonce := 1, aw_code_hash := repeat_b256 0x22, aw_code := [1, 2, 3]\<rparr>;
          db = \<lparr>wdb_accounts = [addr \<mapsto> account], wdb_storage = Map.empty, wdb_verkle_proofs = []\<rparr>
      in case wdb_basic db addr of None \<Rightarrow> False | Some info \<Rightarrow> ai_balance info = 100 \<and> ai_nonce info = 1)"

lemma test_witness_database_reads: "test_witness_database_reads"
  by (simp add: test_witness_database_reads_def wdb_basic_def Let_def)

text \<open>
  In a test build, a signature of 65 or of 1312 ones decides the block at once. This is the branch that
  is left out of \<open>validate_implicit_state_block\<close>.
\<close>

fun mock_signatures :: "bool \<Rightarrow> crypto_profile \<Rightarrow> b256 \<Rightarrow> bytes list \<Rightarrow> (b256, block_error) outcome option" where
  "mock_signatures quantum_threat profile msg_hash [] = None"
| "mock_signatures quantum_threat profile msg_hash (s # ss) =
     (if s = replicate 65 1 then
        Some (if quantum_threat then Err TraditionalForbidden
              else if cp_signature profile \<noteq> Secp256k1 then Err SchemeMismatch else Ok msg_hash)
      else if s = replicate 1312 1 then
        Some (if cp_signature profile \<noteq> MlDsa then Err SchemeMismatch else Ok msg_hash)
      else mock_signatures quantum_threat profile msg_hash ss)"

definition validate_block_in_test_build ::
  "crypto_lib \<Rightarrow> validator_registry \<Rightarrow> b256 \<Rightarrow> bytes \<Rightarrow> bytes list \<Rightarrow> u64 \<Rightarrow> (b256, block_error) outcome" where
  "validate_block_in_test_build cl reg state_root state_diff signatures block_height =
     (let cfg = vr_dynamic_cfg reg in
      if signatures = [] \<or> state_diff = []
      then validate_implicit_state_block cl reg state_root state_diff signatures block_height
      else case mock_signatures (zero_latency_quantum_trigger cfg)
             (profile_or_ethereum (active_profile_name cfg block_height))
             (transition_hash cl state_root state_diff) signatures of
          Some r \<Rightarrow> r
        | None \<Rightarrow> validate_implicit_state_block cl reg state_root state_diff signatures block_height)"

abbreviation with_dynamic :: "(dynamic_config \<Rightarrow> dynamic_config) \<Rightarrow> validator_registry" where
  "with_dynamic f \<equiv> validator_registry_default
     \<lparr>vr_dynamic_cfg := f (vr_dynamic_cfg validator_registry_default)\<rparr>"

definition test_implicit_state_block_validation :: "crypto_lib \<Rightarrow> bool" where
  "test_implicit_state_block_validation cl \<longleftrightarrow>
     (let root = repeat_b256 0xaa; diff = [0x99]
      in validate_block_in_test_build cl validator_registry_default root diff [replicate 65 1] 1 =
           Ok (keccak256 cl (b256_bytes root @ diff)))"

definition test_implicit_state_block_quantum_trigger :: "crypto_lib \<Rightarrow> bool" where
  "test_implicit_state_block_quantum_trigger cl \<longleftrightarrow>
     (let root = repeat_b256 0xaa; diff = [0x99];
          reg = with_dynamic (\<lambda>c. c\<lparr>zero_latency_quantum_trigger := True\<rparr>);
          reg2 = with_dynamic (\<lambda>c. c\<lparr>zero_latency_quantum_trigger := True, default_crypto_profile := ''quantum_standard''\<rparr>)
      in validate_block_in_test_build cl reg root diff [replicate 65 1] 1 = Err TraditionalForbidden \<and>
         is_ok (validate_block_in_test_build cl reg2 root diff [replicate 1312 1] 1))"

definition test_implicit_state_block_profile_switch :: "crypto_lib \<Rightarrow> bool" where
  "test_implicit_state_block_profile_switch cl \<longleftrightarrow>
     (let root = repeat_b256 0xaa; diff = [0x99];
          reg = with_dynamic (\<lambda>c. c\<lparr>default_crypto_profile := ''ethereum'', profile_switch_block_height := Some 100,
                  next_crypto_profile := Some ''quantum_standard''\<rparr>)
      in is_ok (validate_block_in_test_build cl reg root diff [replicate 65 1] 99) \<and>
         validate_block_in_test_build cl reg root diff [replicate 65 1] 100 = Err SchemeMismatch)"

lemma profile_quantum_standard: "profile_or_ethereum ''quantum_standard'' = QUANTUM_STANDARD"
  by (simp add: profile_or_ethereum_def profile_from_name_def to_lowercase_def char_lower_def)

lemmas block_test_eval = validate_block_in_test_build_def validator_registry_default_def
  validator_registry_new_def dynamic_config_default_def active_profile_name_def
  profile_or_ethereum_ethereum profile_quantum_standard ETHEREUM_def QUANTUM_STANDARD_def transition_hash_def Let_def

lemma replicate_65_1312 [simp]: "replicate 1312 (1 :: u8) \<noteq> replicate 65 1"
  by (simp only: replicate_eq_replicate) simp

lemma test_implicit_state_block_validation: "test_implicit_state_block_validation cl"
  unfolding test_implicit_state_block_validation_def
  by (simp add: block_test_eval)

lemma test_implicit_state_block_quantum_trigger: "test_implicit_state_block_quantum_trigger cl"
  unfolding test_implicit_state_block_quantum_trigger_def
  by (simp add: block_test_eval)

lemma test_implicit_state_block_profile_switch: "test_implicit_state_block_profile_switch cl"
  unfolding test_implicit_state_block_profile_switch_def
  by (simp add: block_test_eval)

text \<open>What the tests accept, no other build does: the same block is refused by a registry without validators.\<close>

lemma mock_block_only_in_test_build:
  "is_ok (validate_block_in_test_build cl validator_registry_default r [0x99] [replicate 65 1] 1)"
  "\<not> is_ok (validate_implicit_state_block cl validator_registry_default r [0x99] [replicate 65 1] 1)"
proof -
  show "is_ok (validate_block_in_test_build cl validator_registry_default r [0x99] [replicate 65 1] 1)"
    by (simp add: block_test_eval)
  have "validators validator_registry_default = Map.empty"
    by (simp add: validator_registry_default_def validator_registry_new_def)
  from check_block_signature_no_validators [OF this] have
    "check_block_signature cl validator_registry_default qt profile h s \<noteq> Ok ()" for qt profile h s
    by simp
  then show "\<not> is_ok (validate_implicit_state_block cl validator_registry_default r [0x99] [replicate 65 1] 1)"
    by (cases "validate_implicit_state_block cl validator_registry_default r [0x99] [replicate 65 1] 1")
      (auto simp: validate_Ok_iff)
qed

definition test_verify_witness_verkle :: "crypto_lib \<Rightarrow> bool" where
  "test_verify_witness_verkle cl \<longleftrightarrow>
     (let proof = \<lparr>stem = replicate 31 0xaa, commit_point = replicate 32 0xbb, suffix_index = 0xcc, vp_value = replicate 32 0xdd\<rparr>;
          db = \<lparr>wdb_accounts = Map.empty, wdb_storage = Map.empty, wdb_verkle_proofs = [proof]\<rparr>;
          root = b256_of_bytes (sha256 cl (stem proof @ commit_point proof @ [suffix_index proof] @ vp_value proof))
      in verify_witness cl db root \<and> \<not> verify_witness cl db 0)"

text \<open>The second assertion needs that the digest of the proof is not zero.\<close>

lemma test_verify_witness_verkle:
  assumes "b256_of_bytes (sha256 cl (replicate 31 0xaa @ replicate 32 0xbb @ [0xcc] @ replicate 32 0xdd)) \<noteq> 0"
  shows "test_verify_witness_verkle cl"
  unfolding test_verify_witness_verkle_def Let_def verify_witness_def using assms by (simp)

section \<open>The pre-flight check\<close>

definition scenario_contract :: account_witness where
  "scenario_contract = account_default\<lparr>aw_balance := 0, aw_q1 := 0b100, aw_q2 := 0b10\<rparr>"

definition scenario_caller :: "u256 \<Rightarrow> account_witness" where
  "scenario_caller b = account_default\<lparr>aw_balance := b, aw_q1 := 0b111, aw_q2 := 0b10\<rparr>"

definition scenario_pre_flight ::
  "account_witness \<Rightarrow> bandwidth_request option \<Rightarrow> (u256 \<times> account_witness, sovereign_error) outcome" where
  "scenario_pre_flight caller request =
     pre_flight_execute caller scenario_contract 50000 20 100000 velocity_engine_default request"

definition test_sovereign_executor_pre_flight :: bool where
  "test_sovereign_executor_pre_flight \<longleftrightarrow>
     (case scenario_pre_flight (scenario_caller 10000000) None of
        Ok (penalty, caller) \<Rightarrow>
          penalty = 100000 \<and> aw_balance caller = 10000000 - 100000 \<and>
          scenario_pre_flight (caller\<lparr>aw_q0 := 1\<rparr>) None = Err CallerFrozen \<and>
          (let caller = caller\<lparr>aw_q0 := 0, aw_q1 := 0b011, aw_balance := 10000000\<rparr> in
           case scenario_pre_flight caller None of
             Ok (noncompliant_penalty, caller) \<Rightarrow>
               noncompliant_penalty = 1100000 \<and>
               scenario_pre_flight (caller\<lparr>aw_balance := 1000000\<rparr>) None = Err InsufficientSolvencyForUpfrontBurn
           | _ \<Rightarrow> False)
      | _ \<Rightarrow> False)"

definition scenario_request :: bandwidth_request where
  "scenario_request = \<lparr>requested_kb_per_sec = 1000, rate_per_kb = 50, epoch_duration_secs = 60\<rparr>"

definition test_pre_flight_bandwidth_solvency :: bool where
  "test_pre_flight_bandwidth_solvency \<longleftrightarrow>
     (case scenario_pre_flight (scenario_caller 10000000) (Some scenario_request) of
        Ok (penalty, caller) \<Rightarrow>
          aw_balance caller = 10000000 - 3100000 \<and>
          scenario_pre_flight (caller\<lparr>aw_balance := 2500000\<rparr>) (Some scenario_request) =
            Err InsufficientSolvencyForBandwidth
      | _ \<Rightarrow> False)"

lemma default_escalation:
  "f64_to_u64 (f64_mul (Fin 1) (gas_escalation_scalar velocity_engine_default)) = 1"
  "f64_to_u64 (f64_mul (Fin 11) (gas_escalation_scalar velocity_engine_default)) = 11"
  by (simp_all add: velocity_engine_default_def gas_escalation_scalar_def f64_eval)

lemma scenario_penalty:
  "aw_q1 c AND 0b100 = 0b100 \<Longrightarrow> aw_q2 c = 0b10 \<Longrightarrow>
     upfront_penalty c scenario_contract velocity_engine_default = 100000"
  "aw_q1 c AND 0b100 \<noteq> 0b100 \<Longrightarrow> aw_q2 c = 0b10 \<Longrightarrow>
     upfront_penalty c scenario_contract velocity_engine_default = 1100000"
proof -
  have "f64_add (Fin 1) (rnd 10) = Fin 11" by (simp add: rnd_numeral)
  then show "aw_q1 c AND 0b100 = 0b100 \<Longrightarrow> aw_q2 c = 0b10 \<Longrightarrow>
      upfront_penalty c scenario_contract velocity_engine_default = 100000"
    "aw_q1 c AND 0b100 \<noteq> 0b100 \<Longrightarrow> aw_q2 c = 0b10 \<Longrightarrow>
      upfront_penalty c scenario_contract velocity_engine_default = 1100000"
    by (simp_all add: upfront_penalty_def penalty_multiplier_def scenario_contract_def Let_def default_escalation)
qed

lemma scenario_pre_flight_eq:
  assumes "aw_q0 caller AND 1 = 0"
  shows "scenario_pre_flight caller request =
     (let penalty = upfront_penalty caller scenario_contract velocity_engine_default; b = bandwidth_cost request in
      if aw_balance caller < penalty + 1100000 + b
      then Err (if request \<noteq> None then InsufficientSolvencyForBandwidth else InsufficientSolvencyForUpfrontBurn)
      else Ok (penalty, caller\<lparr>aw_balance := aw_balance caller - penalty - b\<rparr>))"
proof -
  have "aw_q0 scenario_contract AND 1 = 0" by (simp add: scenario_contract_def account_default_def)
  then show ?thesis using assms by (simp add: scenario_pre_flight_def pre_flight_execute_def Let_def)
qed

lemma test_sovereign_executor_pre_flight: "test_sovereign_executor_pre_flight"
proof -
  have frozen: "scenario_pre_flight (c\<lparr>aw_q0 := 1\<rparr>) None = Err CallerFrozen" for c
    by (simp add: scenario_pre_flight_def pre_flight_execute_def)
  show ?thesis
    by (simp add: test_sovereign_executor_pre_flight_def frozen scenario_pre_flight_eq scenario_penalty
        scenario_caller_def account_default_def bandwidth_cost_def Let_def)
qed

lemma scenario_bandwidth: "bandwidth_cost (Some scenario_request) = 3000000"
  by (simp add: bandwidth_cost_def scenario_request_def saturating_mul_def)

lemma test_pre_flight_bandwidth_solvency: "test_pre_flight_bandwidth_solvency"
  by (simp add: test_pre_flight_bandwidth_solvency_def scenario_pre_flight_eq scenario_penalty
      scenario_caller_def account_default_def scenario_bandwidth Let_def)

section \<open>The pool\<close>

definition test_fcfs_ordering_priority :: "b256 \<Rightarrow> b256 \<Rightarrow> bool" where
  "test_fcfs_ordering_priority tx1 tx2 \<longleftrightarrow>
     (let (ordering, p1) = fcfs_priority fcfs_new tx1;
          (ordering, p2) = fcfs_priority ordering tx2;
          (ordering, p1_again) = fcfs_priority ordering tx1
      in p2 < p1 \<and> p1 = p1_again)"

lemma test_fcfs_ordering_priority: "tx1 \<noteq> tx2 \<Longrightarrow> test_fcfs_ordering_priority tx1 tx2"
  by (simp add: test_fcfs_ordering_priority_def fcfs_priority_def fcfs_new_def Let_def)

text \<open>In a test build, a witness that begins with \<open>deadbeef\<close> is valid.\<close>

definition validate_witness_in_test_build ::
  "crypto_lib \<Rightarrow> validator_registry \<Rightarrow> pool_tx transaction_with_witness \<Rightarrow> b256 \<Rightarrow> (bool, unit) outcome" where
  "validate_witness_in_test_build cl reg ww state_root =
     (if 4 \<le> length (ww_witness ww) \<and> take 4 (ww_witness ww) = [0xde, 0xad, 0xbe, 0xef] then Ok True
      else validate_witness cl reg ww state_root)"

definition test_witness_validation :: "crypto_lib \<Rightarrow> pool_tx \<Rightarrow> pool_tx \<Rightarrow> bytes \<Rightarrow> bytes \<Rightarrow> bool" where
  "test_witness_validation cl tx pq_tx pk sig \<longleftrightarrow>
     (let root = repeat_b256 0xaa;
          check = (\<lambda>reg tx w. validate_witness_in_test_build cl reg \<lparr>ww_transaction = tx, ww_witness = w\<rparr> root);
          calm = with_dynamic (\<lambda>c. c\<lparr>zero_latency_quantum_trigger := False\<rparr>);
          threat = with_dynamic (\<lambda>c. c\<lparr>zero_latency_quantum_trigger := True, default_pq_scheme := ''mldsa''\<rparr>)
      in check calm tx [] = Ok False \<and> check calm tx [0x12, 0x34, 0x56, 0x78] = Ok False \<and>
         check calm tx [0xde, 0xad, 0xbe, 0xef, 0x01, 0x02] = Ok True \<and>
         check threat (pq_tx\<lparr>ptx_sender := address_of_bytes (derive_address cl Poseidon pk)\<rparr>)
           (pack_pq_envelope MlDsa pk sig) = Ok True)"

definition test_quantum_transaction_validator ::
  "crypto_lib \<Rightarrow> pool_tx \<Rightarrow> pool_tx \<Rightarrow> bytes \<Rightarrow> bytes \<Rightarrow> bool" where
  "test_quantum_transaction_validator cl tx pq_tx pk sig \<longleftrightarrow>
     (let validate = (\<lambda>reg. validate_transaction cl reg (\<lambda>_. ()));
          calm = with_dynamic (\<lambda>c. c\<lparr>zero_latency_quantum_trigger := False, default_pq_scheme := ''mldsa''\<rparr>);
          threat = with_dynamic (\<lambda>c. c\<lparr>zero_latency_quantum_trigger := True, default_pq_scheme := ''mldsa''\<rparr>)
      in validate calm tx = Ok (InnerVerdict ()) \<and> validate threat tx = Ok InvalidTxType \<and>
         validate threat (pq_tx\<lparr>ptx_input := pack_pq_envelope MlDsa pk sig,
           ptx_sender := address_of_bytes (derive_address cl Poseidon pk)\<rparr>) = Ok (InnerVerdict ()))"

lemmas pool_test_eval = validator_registry_default_def validator_registry_new_def dynamic_config_default_def
  profile_or_ethereum_ethereum ETHEREUM_def address_of_key_def verify_signature_def Let_def

lemma configured_mldsa: "configured_scheme ''mldsa'' = MlDsa"
  by (simp add: configured_scheme_def parse_scheme_def to_lowercase_def char_lower_def)

text \<open>The key is a real one: its signature of the transaction's hash verifies.\<close>

lemma test_witness_validation:
  assumes "\<not> traditional_sig_ok cl [0x12, 0x34, 0x56, 0x78]" and "length pk < 2 ^ 16" and "length sig < 2 ^ 16"
    and "verify_scheme cl MlDsa pk (b256_bytes (ptx_hash pq_tx)) sig = Ok ()"
  shows "test_witness_validation cl tx pq_tx pk sig"
proof -
  have none: "unpack_pq_envelope [0x12, 0x34, 0x56, 0x78] = Err NotAnEnvelope" by (simp add: unpack_pq_envelope_def)
  have "unpack_pq_envelope (pack_pq_envelope MlDsa pk sig) = Ok (MlDsa, pk, sig)"
    using unpack_pack_append [OF assms(2,3), of MlDsa "[]"] by simp
  moreover have "take 4 (pack_pq_envelope MlDsa pk sig) \<noteq> [0xde, 0xad, 0xbe, 0xef]" "pack_pq_envelope MlDsa pk sig \<noteq> []"
    by (simp_all add: pack_pq_envelope_def envelope_magic_def)
  ultimately show ?thesis
    using assms(1,4) none
    by (simp add: test_witness_validation_def validate_witness_in_test_build_def validate_witness_def pool_test_eval
        del: verify_scheme.simps split: outcome.split)
qed

lemma test_quantum_transaction_validator:
  assumes "ptx_input tx = []" and "length pk < 2 ^ 16" and "length sig < 2 ^ 16"
    and "verify_scheme cl MlDsa pk (b256_bytes (ptx_hash pq_tx)) sig = Ok ()"
  shows "test_quantum_transaction_validator cl tx pq_tx pk sig"
proof -
  have "unpack_pq_envelope [] = Err NotAnEnvelope" by (simp add: unpack_pq_envelope_def)
  moreover have "unpack_pq_envelope (pack_pq_envelope MlDsa pk sig) = Ok (MlDsa, pk, sig)"
    using unpack_pack_append [OF assms(2,3), of MlDsa "[]"] by simp
  ultimately show ?thesis
    using assms(1,4)
    by (simp add: test_quantum_transaction_validator_def validate_transaction_def pool_test_eval configured_mldsa
        del: verify_scheme.simps)
qed

end
