(* ===== verification/Scenarios_Mesh.thy ===== *)
theory Scenarios_Mesh
  imports Bgp Archival Actor Reanchor Scenarios_Execution
begin

text \<open>
  The unit tests of \<open>based_mesh.rs\<close>, \<open>bgp.rs\<close>, \<open>archival.rs\<close>, \<open>actor.rs\<close> and \<open>reanchor.rs\<close> as scenarios, among
  them the allocation of bandwidth over seven routers.
\<close>

section \<open>Packets\<close>

lemma mesh_new_valid:
  assumes "mesh_lib_ok ml" and "length ts < vec_bound" and "length z < vec_bound" and "length e < vec_bound"
  shows "mesh_valid (mesh_new ml src ts h s z e)" and "mp_version (mesh_new ml src ts h s z e) = 1"
    and "clean_packet (mesh_new ml src ts h s z e) = \<lparr>mp_version = 1, source_manifold_id = src, target_manifolds = ts,
      state_diff_blob_hash = h, kzg_commitment = replicate 48 0, kzg_proof = replicate 48 0, mp_scheme = s,
      zkevm_proof_payload = z, execution_payload = e\<rparr>"
proof -
  have "length c = 48 \<and> length pr = 48" if "blob_ok ml b" "blob_commitment ml b = Some c" "blob_proof ml b c = Some pr" for b c pr
    using mesh_lib_okD(5) [OF assms(1) that(1)] that(2,3) by auto
  then show "mesh_valid (mesh_new ml src ts h s z e)"
    using assms(2-4) by (auto simp: mesh_new_def mesh_valid_def with_kzg_def Let_def split: outcome.splits option.splits)
  show "mp_version (mesh_new ml src ts h s z e) = 1"
    by (auto simp: mesh_new_def with_kzg_def Let_def split: outcome.splits option.splits)
  show "clean_packet (mesh_new ml src ts h s z e) = \<lparr>mp_version = 1, source_manifold_id = src, target_manifolds = ts,
      state_diff_blob_hash = h, kzg_commitment = replicate 48 0, kzg_proof = replicate 48 0, mp_scheme = s,
      zkevm_proof_payload = z, execution_payload = e\<rparr>"
    by (auto simp: mesh_new_def with_kzg_def clean_packet_def Let_def split: outcome.splits option.splits)
qed

text \<open>A packet made by \<open>mesh_new\<close> is the one its blob decodes to.\<close>

lemma mesh_new_blob:
  assumes "mesh_lib_ok ml" and "length ts < vec_bound" and "length z < vec_bound" and "length e < vec_bound"
    and "length (mesh_encode ml (clean_packet (mesh_new ml src ts h s z e))) \<le> 31 * 4095"
  shows "\<exists>raw. to_blob_bytes ml (mesh_new ml src ts h s z e) = Ok (pack_blob raw) \<and>
    from_blob_bytes ml (pack_blob raw) = Ok (mesh_new ml src ts h s z e)"
proof -
  let ?p = "mesh_new ml src ts h s z e"
  let ?raw = "mesh_encode ml (clean_packet ?p)"
  note new = mesh_new_valid [OF assms(1-4), of src h s]
  have blob: "to_blob_bytes ml q = Ok (pack_blob ?raw)" if "clean_packet q = clean_packet ?p" for q
    using assms(5) that by (simp add: to_blob_bytes_def max_usable_def)
  have self: "clean_packet (clean_packet ?p) = clean_packet ?p" by (simp add: clean_packet_def)
  have p: "?p = with_kzg ml (pack_blob ?raw) (clean_packet ?p)"
    using blob [OF self] by (simp add: new(3)) (simp add: mesh_new_def Let_def)
  have "mesh_valid (clean_packet ?p)" "mp_version (clean_packet ?p) = 1"
    using new(1,2) by (simp_all add: mesh_valid_def clean_packet_def)
  then have "mesh_from_bytes ml ?raw = Ok (clean_packet ?p)"
    using mesh_from_bytes_encode [OF assms(1)] by simp
  moreover have "unpack_blob (pack_blob ?raw) = Ok ?raw"
    using unpack_pack_blob [of ?raw] assms(5) by (simp add: max_usable_def)
  ultimately have "from_blob_bytes ml (pack_blob ?raw) = Ok ?p"
    using p by (simp add: from_blob_bytes_def)
  with blob [OF refl] show ?thesis by blast
qed

definition test_packet_serialization :: "mesh_lib \<Rightarrow> bool" where
  "test_packet_serialization ml \<longleftrightarrow>
     (let packet = mesh_new ml 65001 [65002, 65003] (repeat_b256 0xaa) SpruceSp1Bls12381
            (as_bytes ''VALID_SP1_PROOF_BYTES_SAMPLE_32B'') (as_bytes ''execution_payload_data'')
      in mesh_from_bytes ml (mesh_encode ml packet) = Ok packet)"

definition test_eip4844_blob_encoding :: "mesh_lib \<Rightarrow> bool" where
  "test_eip4844_blob_encoding ml \<longleftrightarrow>
     (let packet = mesh_new ml 100 [200] (repeat_b256 0xbb) Groth16Bn254 (replicate 100 1) (replicate 500 2)
      in case to_blob_bytes ml packet of
           Ok blob \<Rightarrow> length blob = 131072 \<and> (\<forall>i<4096. blob ! (i * 32) = 0) \<and> from_blob_bytes ml blob = Ok packet
         | _ \<Rightarrow> False)"

lemma pack_blob_zero:
  assumes "i < 4096"
  shows "pack_blob raw ! (i * 32) = 0"
proof -
  obtain bs where "take 32 (drop (32 * i) (pack_blob raw)) = 0 # bs"
    using field_element_pack_blob [OF assms, of raw] by (auto simp: field_element_def)
  moreover have "32 * i < length (pack_blob raw)" using assms by simp
  ultimately show ?thesis
    by (metis hd_drop_conv_nth hd_take list.sel(1) mult.commute zero_less_numeral)
qed

lemma test_packet_serialization:
  assumes "mesh_lib_ok ml"
  shows "test_packet_serialization ml"
  unfolding test_packet_serialization_def Let_def
  using mesh_new_valid(1,2) [OF assms] mesh_from_bytes_encode [OF assms]
  by (simp add: vec_bound_def)

lemma test_eip4844_blob_encoding:
  assumes "mesh_lib_ok ml"
    and "length (mesh_encode ml (clean_packet (mesh_new ml 100 [200] (repeat_b256 0xbb) Groth16Bn254
      (replicate 100 1) (replicate 500 2)))) \<le> 31 * 4095"
  shows "test_eip4844_blob_encoding ml"
  using mesh_new_blob [OF assms(1) _ _ _ assms(2)] pack_blob_zero
  by (auto simp: test_eip4844_blob_encoding_def vec_bound_def Let_def)

section \<open>Proofs and messages\<close>

definition scheme_of_curve :: "pairing_curve \<Rightarrow> proof_scheme" where
  "scheme_of_curve c = (case c of Bn254 \<Rightarrow> Groth16Bn254 | Bls12381 \<Rightarrow> SpruceSp1Bls12381
     | BabyBear \<Rightarrow> RiscZeroBonsai | _ \<Rightarrow> Groth16Bn254)"

definition test_verify_validity_proof :: "mesh_lib \<Rightarrow> validator_registry \<Rightarrow> bool" where
  "test_verify_validity_proof ml reg \<longleftrightarrow>
     (let profile = mesh_profile reg; body = replicate 32 1;
          binding = hash (ml_crypto ml) (cp_hash profile) (body @ b256_bytes 0);
          scheme = scheme_of_curve (cp_pairing_curve profile);
          valid_packet = mesh_new ml 1 [2] 0 scheme (body @ take 32 binding) [];
          invalid_packet = mesh_new ml 1 [2] 0 scheme (as_bytes ''INVALID_PROOF_PAYLOAD'') []
      in verify_validity_proof ml reg valid_packet = Ok True \<and> is_err (verify_validity_proof ml reg invalid_packet))"

text \<open>The blob of a packet with up to 100 targets and 100000 bytes fits and is accepted by the commitment library.\<close>

definition blobs_ok :: "mesh_lib \<Rightarrow> bool" where
  "blobs_ok ml \<longleftrightarrow> (\<forall>p. length (target_manifolds p) \<le> 100 \<longrightarrow>
     length (zkevm_proof_payload p) + length (execution_payload p) \<le> 100000 \<longrightarrow>
     length (mesh_encode ml (clean_packet p)) \<le> 31 * 4095 \<and>
     (\<exists>blob. to_blob_bytes ml p = Ok blob \<and> blob_ok ml blob))"

lemma new_fields:
  "zkevm_proof_payload (mesh_new ml src ts h s z e) = z" "execution_payload (mesh_new ml src ts h s z e) = e"
  "source_manifold_id (mesh_new ml src ts h s z e) = src" "target_manifolds (mesh_new ml src ts h s z e) = ts"
  by (auto simp: mesh_new_def with_kzg_def Let_def split: outcome.splits option.splits)

lemma test_verify_validity_proof:
  assumes "mesh_lib_ok ml" and "blobs_ok ml"
    and "scheme_matches (scheme_of_curve (cp_pairing_curve (mesh_profile reg))) (cp_pairing_curve (mesh_profile reg))"
    and hash: "32 \<le> length (hash (ml_crypto ml) (cp_hash (mesh_profile reg)) (replicate 32 1 @ b256_bytes 0))"
  shows "test_verify_validity_proof ml reg"
proof -
  let ?scheme = "scheme_of_curve (cp_pairing_curve (mesh_profile reg))"
  define body where "body = replicate 32 (1 :: u8)"
  let ?calc = "hash (ml_crypto ml) (cp_hash (mesh_profile reg)) (body @ b256_bytes 0)"
  let ?p = "mesh_new ml 1 [2] 0 ?scheme (body @ take 32 ?calc) []"
  have new: "new_with_valid_binding ml reg 1 [2] 0 ?scheme body [] = Ok ?p"
    using hash by (simp add: new_with_valid_binding_def Let_def) (simp add: body_def)
  have "length (zkevm_proof_payload ?p) + length (execution_payload ?p) \<le> 100000" "length (target_manifolds ?p) \<le> 100"
    by (simp_all add: new_fields) (simp add: body_def)
  with assms(2) obtain blob where "to_blob_bytes ml ?p = Ok blob" "blob_ok ml blob" unfolding blobs_ok_def by blast
  from new_with_valid_binding_verifies(1) [OF assms(1) new assms(3) this]
  have "verify_validity_proof ml reg ?p = Ok True" .
  moreover have "is_err (verify_validity_proof ml reg (mesh_new ml 1 [2] 0 ?scheme (as_bytes ''INVALID_PROOF_PAYLOAD'') []))"
    by (simp add: verify_validity_proof_def new_fields)
  ultimately show ?thesis unfolding test_verify_validity_proof_def Let_def body_def by blast
qed

definition hello_message :: cross_manifold_message where
  "hello_message = \<lparr>message_id = repeat_b256 0x77, msg_sender = repeat_address 0x11, msg_recipient = repeat_address 0x22,
     msg_payload = as_bytes ''hello cross-manifold'', msg_timestamp = 123456789\<rparr>"

definition test_cross_manifold_message_packing_and_verification :: "mesh_lib \<Rightarrow> validator_registry \<Rightarrow> bool" where
  "test_cross_manifold_message_packing_and_verification ml reg \<longleftrightarrow>
     (case from_message ml reg 100 200 (repeat_b256 0x88) Groth16Bn254 (replicate 32 0) hello_message of
        Ok packet \<Rightarrow> extract_message ml reg packet = Ok hello_message \<and> source_manifold_id packet = 100 \<and>
          target_manifolds packet = [200]
      | _ \<Rightarrow> False)"

text \<open>A message that is packed is extracted again.\<close>

lemma message_extracted:
  assumes "mesh_lib_ok ml" and "blobs_ok ml" and "message_to_json ml m = Some js" and "length js \<le> 90000"
    and "length proof \<le> 1000" and "scheme_matches scheme (cp_pairing_curve (mesh_profile reg))"
    and "\<And>bs. 32 \<le> length (hash (ml_crypto ml) (cp_hash (mesh_profile reg)) bs)"
  shows "\<exists>p. from_message ml reg src tgt h scheme proof m = Ok p \<and> extract_message ml reg p = Ok m \<and>
    source_manifold_id p = src \<and> target_manifolds p = [tgt]"
proof -
  define body where "body = proof @ replicate (32 - length proof) 0"
  define p where "p = mesh_new ml src [tgt] h scheme
    (body @ take 32 (hash (ml_crypto ml) (cp_hash (mesh_profile reg)) (body @ b256_bytes h))) js"
  have "\<not> length (hash (ml_crypto ml) (cp_hash (mesh_profile reg)) (body @ b256_bytes h)) < 32"
    using assms(7) by (simp only: not_less)
  then have new: "new_with_valid_binding ml reg src [tgt] h scheme proof js = Ok p"
    by (simp only: new_with_valid_binding_def p_def body_def Let_def if_False)
  have "length body \<le> 1032" using assms(5) by (simp add: body_def)
  then have p: "length (zkevm_proof_payload p) + length (execution_payload p) \<le> 100000"
      "source_manifold_id p = src" "target_manifolds p = [tgt]"
    using assms(4) by (simp_all add: p_def new_fields)
  moreover from this have "length (target_manifolds p) \<le> 100" by simp
  ultimately obtain blob where "to_blob_bytes ml p = Ok blob" "blob_ok ml blob" using assms(2) unfolding blobs_ok_def by blast
  note ver = new_with_valid_binding_verifies [OF assms(1) new assms(6) this]
  have "message_from_json ml js = Some m" by (rule mesh_lib_okD(4) [OF assms(1,3)])
  with ver p new assms(3) show ?thesis by (simp add: from_message_def extract_message_def)
qed

lemma test_cross_manifold_message:
  assumes "mesh_lib_ok ml" and "blobs_ok ml" and "cp_pairing_curve (mesh_profile reg) = Bn254"
    and "\<And>bs. 32 \<le> length (hash (ml_crypto ml) (cp_hash (mesh_profile reg)) bs)"
    and "message_to_json ml hello_message = Some js" and "length js \<le> 90000"
  shows "test_cross_manifold_message_packing_and_verification ml reg"
proof -
  have "length (replicate 32 (0 :: u8)) \<le> 1000" "scheme_matches Groth16Bn254 (cp_pairing_curve (mesh_profile reg))"
    using assms(3) by simp_all
  from message_extracted [OF assms(1,2,5,6) this assms(4), of 100 200 "repeat_b256 0x88"]
  show ?thesis by (auto simp: test_cross_manifold_message_packing_and_verification_def)
qed

section \<open>The router and its hardware\<close>

definition test_bgp_router_wireguard_init :: "'t tunn_lib \<Rightarrow> bool" where
  "test_bgp_router_wireguard_init tn \<longleftrightarrow>
     (let router = register_peer tn (bgp_new :: (hardware_table, 't) bgp_router) (repeat_b256 1)
      in repeat_b256 1 \<in> dom (tunnels router) \<and>
         (case snd (send_data tn router (repeat_b256 1) (as_bytes ''cross-chain-intent-payload'')) of
            Ok wg_packet \<Rightarrow> wg_packet \<noteq> [] | _ \<Rightarrow> False))"

text \<open>A fresh tunnel answers data with the initiation of a handshake.\<close>

definition initiates_handshake :: "'t tunn_lib \<Rightarrow> bool" where
  "initiates_handshake tn \<longleftrightarrow> (\<forall>k peer data. \<exists>bs. bs \<noteq> [] \<and> snd (encapsulate tn (tunn_new tn k peer) data) = WriteToNetwork bs)"

lemma fresh_tunnel_sends:
  assumes "initiates_handshake tn"
  shows "\<exists>r' bs. send_data tn (register_peer tn r peer) peer data = (r', Ok bs) \<and> bs \<noteq> []"
proof -
  let ?t = "tunn_new tn (local_private_key r) peer"
  obtain t' bs where "encapsulate tn ?t data = (t', WriteToNetwork bs)" "bs \<noteq> []"
    using assms unfolding initiates_handshake_def by (metis prod.collapse)
  then show ?thesis by (simp add: send_data_def register_peer_def Let_def)
qed

lemma test_bgp_router_wireguard_init: "initiates_handshake tn \<Longrightarrow> test_bgp_router_wireguard_init tn"
  using fresh_tunnel_sends [of tn bgp_new "repeat_b256 1" "as_bytes ''cross-chain-intent-payload''"]
  by (auto simp: test_bgp_router_wireguard_init_def Let_def) (simp add: register_peer_def)

definition test_hardware_offload_integration :: "crypto_lib \<Rightarrow> bool" where
  "test_hardware_offload_integration cl \<longleftrightarrow>
     (let dest_did = ''did:peer:4:as65007''; h = dest_hash cl dest_did;
          router = (bgp_new :: (hardware_table, unit) bgp_router);
          routed = update_route cl mock_driver router dest_did
            \<lparr>next_hop = repeat_b256 9, forwarding_rate = 500000000, supported_assets = [repeat_b256 0xee]\<rparr>;
          removed = remove_route cl mock_driver routed dest_did
      in \<not> has_route (hw_state router) h \<and> has_route (hw_state routed) h \<and>
         hw_get_route (hw_state routed) h = Some (repeat_b256 9, 500000000) \<and> \<not> has_route (hw_state removed) h)"

lemmas router_eval = bgp_new_def new_with_driver_def update_route_def remove_route_def has_route_def
  hw_get_route_def mock_driver_def mock_push_route_def mock_remove_route_def Let_def

lemma test_hardware_offload_integration: "test_hardware_offload_integration cl"
  by (simp add: test_hardware_offload_integration_def router_eval)

definition did_as65008 :: string where "did_as65008 = ''did:peer:4:as65008''"

definition scenario_route :: "u8 \<Rightarrow> u64 \<Rightarrow> route_info" where
  "scenario_route hop rate = \<lparr>next_hop = repeat_b256 hop, forwarding_rate = rate, supported_assets = [repeat_b256 0xee]\<rparr>"

definition scenario_speculative ::
  "crypto_lib \<Rightarrow> (hardware_table, 't) bgp_router \<Rightarrow> account_witness
    \<Rightarrow> (hardware_table, 't) bgp_router \<times> account_witness \<times> (u256, sovereign_error) outcome" where
  "scenario_speculative cl router caller =
     speculative_update_route cl mock_driver router did_as65008 (scenario_route 8 200000000) caller scenario_contract
       50000 20 100000 velocity_engine_default scenario_request"

definition test_speculative_route_initialization :: "crypto_lib \<Rightarrow> bool" where
  "test_speculative_route_initialization cl \<longleftrightarrow>
     (let h = dest_hash cl did_as65008;
          (router, caller, res) = scenario_speculative cl (bgp_new :: (hardware_table, unit) bgp_router)
            (scenario_caller 10000000);
          (router_fail, caller_fail, res_fail) = scenario_speculative cl router (caller\<lparr>aw_balance := 1000000\<rparr>)
      in is_ok res \<and> routing_table router h \<noteq> None \<and> has_route (hw_state router) h \<and>
         aw_balance caller = 10000000 - 3100000 \<and>
         is_err res_fail \<and> \<not> has_route (hw_state router_fail) h \<and> aw_balance caller_fail = 500000)"

lemma test_speculative_route_initialization: "test_speculative_route_initialization cl"
proof -
  have pre: "pre_flight_execute c scenario_contract 50000 20 100000 velocity_engine_default (Some scenario_request) =
      scenario_pre_flight c (Some scenario_request)" for c
    by (simp add: scenario_pre_flight_def)
  show ?thesis
    by (simp add: test_speculative_route_initialization_def scenario_speculative_def speculative_update_route_def pre
        scenario_pre_flight_eq scenario_penalty scenario_caller_def account_default_def scenario_bandwidth
        scenario_route_def router_eval abuse_slashing_penalty_def saturating_sub_def)
qed

section \<open>Bandwidth over seven routers\<close>

text \<open>
  Seven routers in a row. Every router derives its keys from the same constant, so that one key
  \<open>pub\<close> stands for all of them.
\<close>

definition did_as65007 :: string where "did_as65007 = ''did:peer:4:as65007''"

definition seven_routers :: "'t tunn_lib \<Rightarrow> b256 \<Rightarrow> (hardware_table, 't) bgp_router list" where
  "seven_routers tn pub = replicate 6 (register_peer tn bgp_new pub) @ [bgp_new]"

definition sla_packet :: "mesh_lib \<Rightarrow> validator_registry \<Rightarrow> (mesh_packet, unit) outcome" where
  "sla_packet ml reg = map_err (\<lambda>_. ()) (new_with_valid_binding ml reg 65001 [65002, 65003, 65004, 65005, 65006, 65007]
     (repeat_b256 0x77) Groth16Bn254 (as_bytes ''PIED_PIPER_7_HOP_RECURSIVE_VALIDITY_PROOF'')
     (as_bytes ''PIED_PIPER_SLA: 1Gbps / 3600s / 500 EURe / target AS 65007''))"

definition reconfigured ::
  "crypto_lib \<Rightarrow> b256 \<Rightarrow> nat \<Rightarrow> (hardware_table, 't) bgp_router \<Rightarrow> (hardware_table, 't) bgp_router" where
  "reconfigured cl pub i router =
     update_route cl mock_driver router did_as65007
       \<lparr>next_hop = (if i + 1 < 7 then pub else 0), forwarding_rate = 1000000000, supported_assets = [repeat_b256 0xee]\<rparr>"

definition hop_accepts :: "mesh_lib \<Rightarrow> validator_registry \<Rightarrow> bytes \<Rightarrow> bool" where
  "hop_accepts ml reg blob \<longleftrightarrow>
     (case from_blob_bytes ml blob of Ok received \<Rightarrow> is_ok (verify_validity_proof ml reg received) | _ \<Rightarrow> False)"

definition advertises_sla :: "crypto_lib \<Rightarrow> (hardware_table, 't) bgp_router \<Rightarrow> bool" where
  "advertises_sla cl router \<longleftrightarrow>
     (case get_route cl router did_as65007 of
        None \<Rightarrow> False
      | Some route \<Rightarrow> forwarding_rate route = 1000000000 \<and> supported_assets route ! 0 = repeat_b256 0xee)"

definition test_pied_piper_7_hop_bandwidth_allocation ::
  "crypto_lib \<Rightarrow> mesh_lib \<Rightarrow> 't tunn_lib \<Rightarrow> validator_registry \<Rightarrow> b256 \<Rightarrow> bool" where
  "test_pied_piper_7_hop_bandwidth_allocation cl ml tn reg pub \<longleftrightarrow>
     (let routers = seven_routers tn pub in
      (\<forall>i \<in> set [0..<6]. pub \<in> dom (tunnels (routers ! i))) \<and>
      (case sla_packet ml reg of
         Ok packet \<Rightarrow>
           (case to_blob_bytes ml packet of
              Ok blob \<Rightarrow> length blob = 131072 \<and>
                (case snd (broadcast_based_mesh_packet ml tn [pub] (routers ! 0) packet) of
                   [(peer, wg)] \<Rightarrow> peer = pub \<and> wg \<noteq> [] | _ \<Rightarrow> False) \<and>
                (\<forall>i \<in> set [1..<7]. hop_accepts ml reg blob \<and> advertises_sla cl (reconfigured cl pub i (routers ! i)))
            | _ \<Rightarrow> False)
       | _ \<Rightarrow> False))"

lemma reconfigured_advertises: "advertises_sla cl (reconfigured cl pub i router)"
  by (simp add: advertises_sla_def reconfigured_def get_route_def update_route_def Let_def)

lemma blobs_ok_fits:
  assumes "blobs_ok ml" and "length (zkevm_proof_payload p) + length (execution_payload p) \<le> 100000"
    and "length (target_manifolds p) \<le> 100"
  shows "length (mesh_encode ml (clean_packet p)) \<le> 31 * 4095"
  using assms unfolding blobs_ok_def by blast

lemma sla_packet_blob:
  assumes "mesh_lib_ok ml" and "blobs_ok ml" and "cp_pairing_curve (mesh_profile reg) = Bn254"
    and "\<And>bs. 32 \<le> length (hash (ml_crypto ml) (cp_hash (mesh_profile reg)) bs)"
  shows "\<exists>p raw. sla_packet ml reg = Ok p \<and> to_blob_bytes ml p = Ok (pack_blob raw) \<and>
    hop_accepts ml reg (pack_blob raw)"
proof -
  define h where "h = repeat_b256 0x77"
  define ts where "ts = [65002, 65003, 65004, 65005, 65006, 65007 :: u64]"
  define z where "z = as_bytes ''PIED_PIPER_7_HOP_RECURSIVE_VALIDITY_PROOF''"
  define e where "e = as_bytes ''PIED_PIPER_SLA: 1Gbps / 3600s / 500 EURe / target AS 65007''"
  define z' where "z' = z @ take 32 (hash (ml_crypto ml) (cp_hash (mesh_profile reg)) (z @ b256_bytes h))"
  define p where "p = mesh_new ml 65001 ts h Groth16Bn254 z' e"
  have z: "length z = 41" and e: "length e = 58" and ts: "length ts = 6"
    by (simp_all add: z_def e_def ts_def)
  have "\<not> length (hash (ml_crypto ml) (cp_hash (mesh_profile reg)) (z @ b256_bytes h)) < 32"
    using assms(4) by (simp only: not_less)
  then have new: "new_with_valid_binding ml reg 65001 ts h Groth16Bn254 z e = Ok p"
    using z by (simp add: new_with_valid_binding_def p_def z'_def Let_def)
  have z': "length z' \<le> 73" using z by (simp add: z'_def)
  then have small: "length (zkevm_proof_payload p) + length (execution_payload p) \<le> 100000" "length (target_manifolds p) \<le> 100"
    using e ts by (simp_all add: p_def new_fields)
  obtain raw where raw: "to_blob_bytes ml p = Ok (pack_blob raw)" "from_blob_bytes ml (pack_blob raw) = Ok p"
    using mesh_new_blob [OF assms(1) _ _ _ blobs_ok_fits [OF assms(2) small, unfolded p_def]] ts e z'
    by (auto simp: p_def vec_bound_def)
  obtain blob where "to_blob_bytes ml p = Ok blob" "blob_ok ml blob" using assms(2) small unfolding blobs_ok_def by blast
  moreover have "scheme_matches Groth16Bn254 (cp_pairing_curve (mesh_profile reg))" using assms(3) by simp
  ultimately have "verify_validity_proof ml reg p = Ok True"
    using new_with_valid_binding_verifies(1) [OF assms(1) new] by blast
  with raw have "hop_accepts ml reg (pack_blob raw)" by (simp add: hop_accepts_def)
  moreover have "sla_packet ml reg = Ok p"
    using new by (simp add: sla_packet_def z_def e_def h_def ts_def)
  ultimately show ?thesis using raw(1) by blast
qed

lemma test_pied_piper_7_hop_bandwidth_allocation:
  assumes "mesh_lib_ok ml" and "blobs_ok ml" and "cp_pairing_curve (mesh_profile reg) = Bn254"
    and "\<And>bs. 32 \<le> length (hash (ml_crypto ml) (cp_hash (mesh_profile reg)) bs)" and "initiates_handshake tn"
  shows "test_pied_piper_7_hop_bandwidth_allocation cl ml tn reg pub"
proof -
  obtain p raw where p: "sla_packet ml reg = Ok p" "to_blob_bytes ml p = Ok (pack_blob raw)" "hop_accepts ml reg (pack_blob raw)"
    using sla_packet_blob [OF assms(1-4)] by blast
  have routers: "seven_routers tn pub ! i = register_peer tn bgp_new pub" if "i < 6" for i
    using that by (simp add: seven_routers_def nth_append)
  obtain r' bs where "send_data tn (register_peer tn bgp_new pub) pub (mesh_encode ml p) = (r', Ok bs)" "bs \<noteq> []"
    using fresh_tunnel_sends [OF assms(5)] by blast
  then have "snd (broadcast_based_mesh_packet ml tn [pub] (seven_routers tn pub ! 0) p) = [(pub, bs)]" "bs \<noteq> []"
    using routers [of 0] by (simp_all add: broadcast_based_mesh_packet_def)
  moreover have "\<forall>i \<in> set [0..<6]. pub \<in> dom (tunnels (seven_routers tn pub ! i))"
    using routers by (simp add: register_peer_def)
  ultimately show ?thesis
    using p by (simp add: test_pied_piper_7_hop_bandwidth_allocation_def reconfigured_advertises Let_def)
qed

section \<open>Archival\<close>

definition test_local_ipfs_cluster_backend_mock_mode :: "crypto_lib \<Rightarrow> bool" where
  "test_local_ipfs_cluster_backend_mock_mode cl \<longleftrightarrow>
     (let data = as_bytes ''mock_state_diff_payload''; (s, res) = cluster_pin_blob cl Map.empty 65001 data in
      case res of
        Ok cid \<Rightarrow> cluster_is_pinned s cid = Ok True \<and> cluster_fetch_blob s cid = Ok data
      | _ \<Rightarrow> False)"

lemma test_local_ipfs_cluster_backend_mock_mode: "test_local_ipfs_cluster_backend_mock_mode cl"
  by (simp add: test_local_ipfs_cluster_backend_mock_mode_def cluster_pin_blob_def cluster_is_pinned_def
      cluster_fetch_blob_def Let_def)

definition test_rpc_ipfs_archival_daemon_lifecycle :: "mesh_lib \<Rightarrow> ('n, 'r, 'p) nmt_lib \<Rightarrow> bool" where
  "test_rpc_ipfs_archival_daemon_lifecycle ml nl \<longleftrightarrow>
     (let be = mock_backend (ml_crypto ml);
          packet = mesh_new ml 100 [200] (repeat_b256 0xcc) SpruceSp1Bls12381
            (as_bytes ''VALID_PROOF_PAYLOAD'') (as_bytes ''execution_state_diff'');
          (daemon, res) = archive_based_mesh_packet ml nl be (daemon_new Map.empty) packet
      in case res of
           Ok cid \<Rightarrow> starts_with cid ''mock_cid_'' \<and> pinned_cids daemon 100 = Some [cid] \<and>
             recover_packet ml be daemon cid = Ok packet
         | _ \<Rightarrow> False)"

lemma test_rpc_ipfs_archival_daemon_lifecycle:
  assumes "mesh_lib_ok ml" and "\<And>leaf. is_ok (push_leaf nl (nmt_new nl) leaf)"
  shows "test_rpc_ipfs_archival_daemon_lifecycle ml nl"
proof -
  let ?p = "mesh_new ml 100 [200] (repeat_b256 0xcc) SpruceSp1Bls12381
      (as_bytes ''VALID_PROOF_PAYLOAD'') (as_bytes ''execution_state_diff'')"
  have "mesh_from_bytes ml (mesh_encode ml ?p) = Ok ?p"
    using mesh_new_valid(1,2) [OF assms(1)] mesh_from_bytes_encode [OF assms(1)] by (simp add: vec_bound_def)
  moreover obtain t where "push_leaf nl (nmt_new nl)
      \<lparr>leaf_namespace = namespace_of_u64 100, leaf_data = mesh_encode ml ?p\<rparr> = Ok t"
    using assms(2) by (metis is_ok_def)
  ultimately show ?thesis
    by (simp add: test_rpc_ipfs_archival_daemon_lifecycle_def archive_based_mesh_packet_def pin_and_register_def
        register_cid_def daemon_new_def recover_packet_def mock_backend_def mock_pin_blob_def mock_fetch_blob_def
        mock_cid_def new_fields starts_with_def Let_def)
qed

definition archived_witness :: account_witness where
  "archived_witness = account_default\<lparr>aw_balance := 7500000, aw_nonce := 42, aw_code_hash := repeat_b256 0xba,
     aw_code := as_bytes ''somerevmbytecode'', aw_q0 := 0b11, aw_q1 := 0b1000, aw_q2 := 0, aw_q3 := 0b10\<rparr>"

definition test_out_of_band_witness_resolution_mock_mode :: "crypto_lib \<Rightarrow> scale_lib \<Rightarrow> bool" where
  "test_out_of_band_witness_resolution_mock_mode cl sl \<longleftrightarrow>
     (let be = mock_backend cl;
          (daemon, res) = archive_account_witness sl be (daemon_new Map.empty) 65001 archived_witness
      in case res of
           Ok cid \<Rightarrow> starts_with cid ''mock_cid_'' \<and> resolve_account_witness sl be daemon cid = Ok archived_witness
         | _ \<Rightarrow> False)"

lemma test_out_of_band_witness_resolution_mock_mode:
  assumes "scale_ok sl"
  shows "test_out_of_band_witness_resolution_mock_mode cl sl"
proof -
  have "length (aw_code archived_witness) < vec_bound" by (simp add: archived_witness_def vec_bound_def)
  from account_witness_decode_encode [OF assms this, of "[]"] show ?thesis
    by (simp add: test_out_of_band_witness_resolution_mock_mode_def archive_account_witness_def pin_and_register_def
        register_cid_def daemon_new_def resolve_account_witness_def mock_backend_def mock_pin_blob_def
        mock_fetch_blob_def mock_cid_def starts_with_def Let_def)
qed

section \<open>The saga of two actors\<close>

definition initiated_actor :: "validator_registry \<Rightarrow> actor" where
  "initiated_actor reg = actor_new reg (repeat_b256 0x99) (repeat_address 0x12) (repeat_address 0x34) 1000 10000"

definition test_cross_manifold_actor_attestation_flow :: "actor_lib \<Rightarrow> validator_registry \<Rightarrow> bool" where
  "test_cross_manifold_actor_attestation_flow al reg \<longleftrightarrow>
     actor_st (initiated_actor reg) = InitiateIntent \<and>
     (case emit_prepare_attestation al reg (initiated_actor reg) 65001 65002 0 Groth16Bn254 (replicate 32 0) of
        Ok packet \<Rightarrow>
          (case process_attestation al reg (initiated_actor reg) packet of
             Ok target \<Rightarrow> actor_st target = PrepareExecution \<and>
               (case process_attestation al reg target packet of
                  Ok target' \<Rightarrow> actor_st target' = Commit | _ \<Rightarrow> False)
           | _ \<Rightarrow> False)
      | _ \<Rightarrow> False)"

text \<open>The message of an attestation with the actor as its payload\<close>

definition attestation_message :: "actor \<Rightarrow> bytes \<Rightarrow> cross_manifold_message" where
  "attestation_message a bs = \<lparr>message_id = actor_id a, msg_sender = actor_sender a, msg_recipient = actor_recipient a,
     msg_payload = bs, msg_timestamp = created_at a\<rparr>"

lemma test_cross_manifold_actor_attestation_flow:
  assumes "mesh_lib_ok (al_mesh al)" and "blobs_ok (al_mesh al)" and "cp_pairing_curve (mesh_profile reg) = Bn254"
    and "\<And>bs. 32 \<le> length (hash (ml_crypto (al_mesh al)) (cp_hash (mesh_profile reg)) bs)"
    and bs: "actor_to_json al (initiated_actor reg) = Some bs" "actor_from_json al bs = Some (initiated_actor reg)"
    and js: "message_to_json (al_mesh al) (attestation_message (initiated_actor reg) bs) = Some js" "length js \<le> 90000"
  shows "test_cross_manifold_actor_attestation_flow al reg"
proof -
  let ?a = "initiated_actor reg"
  have "length (replicate 32 (0 :: u8)) \<le> 1000" "scheme_matches Groth16Bn254 (cp_pairing_curve (mesh_profile reg))"
    using assms(3) by simp_all
  from message_extracted [OF assms(1,2) js this assms(4), of 65001 65002 0] obtain p where
    p: "from_message (al_mesh al) reg 65001 65002 0 Groth16Bn254 (replicate 32 0) (attestation_message ?a bs) = Ok p"
      "extract_message (al_mesh al) reg p = Ok (attestation_message ?a bs)"
    by blast
  have st: "actor_st ?a = InitiateIntent" by (simp add: initiated_actor_def actor_new_def)
  with p(1) bs(1) have "emit_prepare_attestation al reg ?a 65001 65002 0 Groth16Bn254 (replicate 32 0) = Ok p"
    by (simp add: emit_prepare_attestation_def attestation_message_def)
  moreover have "process_attestation al reg ?a p = Ok (?a\<lparr>actor_st := PrepareExecution\<rparr>)"
    using p(2) bs(2) st by (simp add: process_attestation_def same_parameters_def prepare_def attestation_message_def)
  moreover have "process_attestation al reg (?a\<lparr>actor_st := PrepareExecution\<rparr>) p = Ok (?a\<lparr>actor_st := Commit\<rparr>)"
    using p(2) bs(2) st by (simp add: process_attestation_def same_parameters_def commit_def attestation_message_def)
  ultimately show ?thesis
    using st by (simp add: test_cross_manifold_actor_attestation_flow_def)
qed

section \<open>Re-anchoring\<close>

definition test_reanchor_no_mutation :: bool where
  "test_reanchor_no_mutation \<longleftrightarrow>
     (let addr = repeat_address 0x11; slot = 100;
          footprint = \<lparr>cf_addresses = {addr}, cf_slots = {(addr, slot)}\<rparr>;
          reanchor = (\<lambda>f ivc. reanchor_witness f footprint (as_bytes ''hist'') ivc);
          f0 = mutation_filter_new; f1 = record_mutation f0 addr 200; f2 = record_mutation f1 addr slot
      in reanchor f0 [] = Ok True \<and> reanchor f1 [] = Ok True \<and> is_err (reanchor f2 []) \<and>
         reanchor f2 (as_bytes ''VALID_IVC'') = Ok True)"

lemma test_reanchor_no_mutation: "test_reanchor_no_mutation"
  by (simp add: test_reanchor_no_mutation_def reanchor_witness_def has_mutated_def mutation_filter_new_def
      record_mutation_def as_bytes_def Let_def)

section \<open>The scenarios with concrete libraries\<close>

lemma sample_blobs_ok: "blobs_ok sample_mesh_lib"
  unfolding blobs_ok_def
proof (intro allI impI conjI)
  fix p :: mesh_packet
  assume "length (target_manifolds p) \<le> 100" "length (zkevm_proof_payload p) + length (execution_payload p) \<le> 100000"
  moreover from this show l: "length (mesh_encode sample_mesh_lib (clean_packet p)) \<le> 31 * 4095"
    using length_sample_encode [of "clean_packet p"] by (simp add: clean_packet_def)
  ultimately show "\<exists>blob. to_blob_bytes sample_mesh_lib p = Ok blob \<and> blob_ok sample_mesh_lib blob"
    by (simp add: to_blob_bytes_def max_usable_def sample_mesh_lib_def Let_def)
qed

text \<open>An actor as its fields one after the other\<close>

definition print_actor :: "actor \<Rightarrow> bytes" where
  "print_actor a = b256_bytes (actor_id a) @ address_bytes (actor_sender a) @ address_bytes (actor_recipient a) @
     b256_bytes (actor_amount a) @ u64_be_bytes (created_at a) @ u64_be_bytes (timeout_seconds a) @
     [case actor_st a of InitiateIntent \<Rightarrow> 0 | PrepareExecution \<Rightarrow> 1 | Commit \<Rightarrow> 2 | Rollback \<Rightarrow> 3]"

definition parse_actor :: "bytes \<Rightarrow> actor option" where
  "parse_actor bs = Some
     \<lparr>actor_id = b256_of_bytes (take 32 bs),
      actor_st = (let b = bs ! 120 in if b = 0 then InitiateIntent else if b = 1 then PrepareExecution
        else if b = 2 then Commit else Rollback),
      actor_sender = address_of_bytes (take 20 (drop 32 bs)), actor_recipient = address_of_bytes (take 20 (drop 52 bs)),
      actor_amount = b256_of_bytes (take 32 (drop 72 bs)), created_at = word_of_nat (be_nat (take 8 (drop 104 bs))),
      timeout_seconds = word_of_nat (be_nat (take 8 (drop 112 bs)))\<rparr>"

lemma u64_be_nat [simp]: "word_of_nat (be_nat (u64_be_bytes n)) = n"
  using unat_less [of n] by (simp add: u64_be_bytes_def be_nat_be_bytes)

lemma parse_print_actor: "parse_actor (print_actor a) = Some a"
  by (cases "actor_st a") (simp_all add: parse_actor_def print_actor_def nth_append Let_def)

definition printing_actor_lib :: actor_lib where
  "printing_actor_lib = \<lparr>al_mesh = sample_mesh_lib, actor_to_json = (\<lambda>a. Some (print_actor a)), actor_from_json = parse_actor\<rparr>"

definition initiating_tunnel :: "unit tunn_lib" where
  "initiating_tunnel = \<lparr>tunn_new = (\<lambda>k peer. ()), encapsulate = (\<lambda>t bs. (t, WriteToNetwork [1])),
     decapsulate = (\<lambda>t bs. (t, TunnDone))\<rparr>"

lemma default_profile: "mesh_profile validator_registry_default = ETHEREUM"
  by (simp add: mesh_profile_def validator_registry_default_def validator_registry_new_def dynamic_config_default_def
      profile_or_ethereum_ethereum)

lemma mesh_scenarios_pass:
  "test_packet_serialization sample_mesh_lib"
  "test_verify_validity_proof sample_mesh_lib validator_registry_default"
  "test_cross_manifold_message_packing_and_verification sample_mesh_lib validator_registry_default"
  "test_pied_piper_7_hop_bandwidth_allocation sample_crypto sample_mesh_lib initiating_tunnel validator_registry_default 7"
  "test_cross_manifold_actor_attestation_flow printing_actor_lib validator_registry_default"
proof -
  have curve: "cp_pairing_curve (mesh_profile validator_registry_default) = Bn254" by (simp add: default_profile ETHEREUM_def)
  have hash: "32 \<le> length (hash (ml_crypto sample_mesh_lib) (cp_hash (mesh_profile validator_registry_default)) bs)" for bs
    by (simp add: default_profile ETHEREUM_def)
  have json: "\<exists>js. message_to_json sample_mesh_lib m = Some js \<and> length js \<le> 90000" if "length (msg_payload m) \<le> 1000" for m
    using that length_compact_enc [of "length (msg_payload m)"]
    by (simp add: sample_mesh_lib_def message_encode_def scale_ref_def vec_bound_def)
  show "test_packet_serialization sample_mesh_lib" by (rule test_packet_serialization [OF sample_mesh_lib_ok])
  show "test_verify_validity_proof sample_mesh_lib validator_registry_default"
    using hash by (intro test_verify_validity_proof sample_mesh_lib_ok sample_blobs_ok)
      (simp_all add: curve scheme_of_curve_def)
  have "length (msg_payload hello_message) \<le> 1000" by (simp add: hello_message_def)
  with json show "test_cross_manifold_message_packing_and_verification sample_mesh_lib validator_registry_default"
    using test_cross_manifold_message [OF sample_mesh_lib_ok sample_blobs_ok curve hash] by blast
  have "initiates_handshake initiating_tunnel" by (simp add: initiates_handshake_def initiating_tunnel_def)
  then show "test_pied_piper_7_hop_bandwidth_allocation sample_crypto sample_mesh_lib initiating_tunnel validator_registry_default 7"
    by (rule test_pied_piper_7_hop_bandwidth_allocation [OF sample_mesh_lib_ok sample_blobs_ok curve hash])
  let ?a = "initiated_actor validator_registry_default"
  have "length (msg_payload (attestation_message ?a (print_actor ?a))) \<le> 1000"
    by (simp add: attestation_message_def print_actor_def)
  then obtain js where js: "message_to_json sample_mesh_lib (attestation_message ?a (print_actor ?a)) = Some js" "length js \<le> 90000"
    using json by blast
  show "test_cross_manifold_actor_attestation_flow printing_actor_lib validator_registry_default"
  proof (rule test_cross_manifold_actor_attestation_flow [OF _ _ curve])
    show "message_to_json (al_mesh printing_actor_lib) (attestation_message ?a (print_actor ?a)) = Some js"
      using js(1) by (simp add: printing_actor_lib_def)
  qed (use hash js(2) in \<open>simp_all add: printing_actor_lib_def sample_mesh_lib_ok sample_blobs_ok parse_print_actor\<close>)
qed

end
