(* ===== verification/Scenarios_Consensus.thy ===== *)
theory Scenarios_Consensus
  imports Registry_Names Slashing Subset_Election Sync_Committee Flat_State Scenarios
begin

text \<open>
  The unit tests of \<open>registry.rs\<close>, \<open>subset_election.rs\<close>, \<open>slashing.rs\<close>, \<open>sync_committee.rs\<close> and \<open>flat_state.rs\<close> as
  scenarios.
\<close>

section \<open>Election\<close>

definition three_addresses :: "address list" where
  "three_addresses = [repeat_address 1, repeat_address 2, repeat_address 3]"

definition test_snow_subset_election_success :: "crypto_lib \<Rightarrow> address list \<Rightarrow> bool" where
  "test_snow_subset_election_success cl pool \<longleftrightarrow>
     (let run = (\<lambda>epoch. trigger_election cl (subset_election_new 42) pool epoch 2);
          (election, res) = run 100; (election2, res2) = run 100; (election3, res3) = run 200
      in is_ok res \<and> card (current_subset election) = 2 \<and> current_subset election \<subseteq> set pool \<and>
         is_ok res2 \<and> current_subset election = current_subset election2 \<and> card (current_subset election3) = 2)"

definition test_snow_subset_election_empty_pool :: "crypto_lib \<Rightarrow> bool" where
  "test_snow_subset_election_empty_pool cl \<longleftrightarrow>
     (let (election, res) = trigger_election cl (subset_election_new 42) [] 100 2
      in res = Err NoRoutableValidators \<and> current_subset election = {})"

definition test_snow_subset_election_clamped_sample_size :: "crypto_lib \<Rightarrow> bool" where
  "test_snow_subset_election_clamped_sample_size cl \<longleftrightarrow>
     (let (election, res) = trigger_election cl (subset_election_new 42) [repeat_address 1] 100 5
      in is_ok res \<and> card (current_subset election) = 1 \<and> repeat_address 1 \<in> current_subset election)"

text \<open>\<open>pool\<close> is the hash set of the three addresses in any iteration order.\<close>

lemma test_snow_subset_election_success:
  assumes "distinct pool" and "set pool = set three_addresses"
  shows "test_snow_subset_election_success cl pool"
proof -
  have "card (set pool) = 3" unfolding assms(2) by (simp add: three_addresses_def)
  then have len: "length pool = 3" using assms(1) by (simp add: distinct_card)
  then have "pool \<noteq> []" by auto
  then show ?thesis
    using card_elected [OF assms(1)] elected_subset len
    by (simp add: test_snow_subset_election_success_def trigger_election_elected Let_def)
qed

lemma test_snow_subset_election_empty_pool: "test_snow_subset_election_empty_pool cl"
  by (simp add: test_snow_subset_election_empty_pool_def trigger_election_def)

lemma test_snow_subset_election_clamped: "test_snow_subset_election_clamped_sample_size cl"
  by (simp add: test_snow_subset_election_clamped_sample_size_def trigger_election_def)

section \<open>The soulbound token\<close>

definition test_soulbound_token :: bool where
  "test_soulbound_token \<longleftrightarrow>
     (let user = repeat_address 0x11; recipient = repeat_address 0x22; token = mint Map.empty user 500
      in token user = Some 500 \<and>
         snd (soulbound_transfer token user recipient 100) = Err ''SOV_merit token is non-transferable (Soulbound)'')"

lemma test_soulbound_token: "test_soulbound_token"
  by (simp add: test_soulbound_token_def mint_def balance_of_def soulbound_transfer_def)

section \<open>The orchestrators' quorum\<close>

text \<open>\<open>did\<close> resolves to an Ed25519 key under which \<open>sig\<close> signs the identifier of the intent.\<close>

definition test_saga_intent_verify_consensus ::
  "crypto_lib \<Rightarrow> (string \<Rightarrow> (string \<times> bytes option) list option) \<Rightarrow> string \<Rightarrow> bytes \<Rightarrow> bool" where
  "test_saga_intent_verify_consensus cl resolver did sig \<longleftrightarrow>
     (let addr = repeat_address 0x77;
          reg = add_mock_validator did addr (repeat_b256 0x99) (validator_registry_default
            \<lparr>vr_dynamic_cfg := (vr_dynamic_cfg validator_registry_default)\<lparr>zero_latency_quantum_trigger := False\<rparr>\<rparr>);
          committee = (committee_default reg)\<lparr>orchestrators := {addr}, oc_threshold := f64_lit 1\<rparr>;
          intent = (saga_intent_new reg (repeat_b256 0xab) (repeat_address 0x11) (repeat_address 0x22) 100 10000)
            \<lparr>orchestrator_signatures := [(addr, sig)]\<rparr>
      in is_ok (verify_consensus cl resolver reg intent committee False))"

lemma test_saga_intent_verify_consensus:
  assumes "did_peer4_resolve resolver did = Ok peer"
    and "did_peer4_verify_signature cl peer (b256_bytes (repeat_b256 0xab)) sig False = Ok ()"
  shows "test_saga_intent_verify_consensus cl resolver did sig"
proof -
  let ?th = "committee_threshold (vr_dynamic_cfg validator_registry_default)"
  have "?th = f64_lit (67 / 100)"
    by (simp add: validator_registry_default_def validator_registry_new_def dynamic_config_default_def)
  then have "required_quorum (Suc 0) ?th = 1"
    by (simp add: required_quorum_def f64_eval f64_of_nat_def)
  then show ?thesis
    using assms
    by (simp add: test_saga_intent_verify_consensus_def verify_consensus_def committee_default_def saga_intent_new_def
        add_mock_validator_def get_did_by_address_def Let_def)
qed

section \<open>Flat state\<close>

definition test_flat_state_and_trie_root :: "crypto_lib \<Rightarrow> bool" where
  "test_flat_state_and_trie_root cl \<longleftrightarrow>
     (let addr = repeat_address 0x11; slot = 42; val = 100;
          store = flat_write cl ETHEREUM Map.empty addr slot val; deltas = [(addr, slot, val)]
      in flat_read cl ETHEREUM store addr slot = val \<and> build_state_root cl ETHEREUM deltas deltas \<noteq> 0)"

text \<open>The hash is assumed to be zero on no input.\<close>

lemma test_flat_state_and_trie_root:
  assumes "\<And>bs. keccak256 cl bs \<noteq> 0"
  shows "test_flat_state_and_trie_root cl"
  using assms
  by (simp add: test_flat_state_and_trie_root_def flat_read_write build_state_root_def ETHEREUM_def fit32_b256_bytes Let_def)

section \<open>The names of an identity\<close>

text \<open>
  \<open>test_did_domain_conversion_and_lookup\<close>, on a fresh registry with chain identifier 420: it registers a
  derived DID and asks for it under its names and by its keys. Its assertions are in three groups.
\<close>

definition found_under :: "did_lib \<Rightarrow> address_parser \<Rightarrow> iteration \<Rightarrow> validator_registry \<Rightarrow> address \<Rightarrow> string \<Rightarrow> bool" where
  "found_under dl pa it reg addr did \<longleftrightarrow>
     is_did_registered dl pa it reg did \<and> get_address_by_did dl pa it reg did = Some addr"

definition test_lookups ::
  "did_lib \<Rightarrow> address_parser \<Rightarrow> iteration \<Rightarrow> validator_registry \<Rightarrow> sovereign_did_document \<Rightarrow> address \<Rightarrow> bool" where
  "test_lookups dl pa it reg doc addr \<longleftrightarrow>
     (let addr_hex = ''0x'' @ hex_string (address_bytes addr) in
      found_under dl pa it reg addr (did_uri doc) \<and> is_did_fully_registered dl pa it reg (did_uri doc) \<and>
      found_under dl pa it reg addr (short_form doc) \<and>
      found_under dl pa it reg addr (''did:sovereign:420:'' @ addr_hex) \<and>
      found_under dl pa it reg addr (''did:peer:'' @ addr_hex) \<and>
      get_did_by_address reg addr = Some (did_uri doc))"

definition test_key_lookups ::
  "did_lib \<Rightarrow> iteration \<Rightarrow> validator_registry \<Rightarrow> sovereign_did_document \<Rightarrow> bool" where
  "test_key_lookups dl it reg doc \<longleftrightarrow>
     (\<forall>(code, key) \<in> set [([0xe7, 0x01], secp256k1_pubkey doc), ([0xed, 0x01], ed25519_pubkey doc),
         ([0xea, 0x01], bls_pubkey doc), ([0x93, 0x01], ml_dsa_pubkey doc), ([0x94, 0x01], slh_dsa_pubkey doc),
         ([0x92, 0x01], falcon_pubkey doc), ([0x95, 0x01], xmss_pubkey doc)].
       map_option ri_did (find_identity_by_any_key dl it reg (''did:peer:z'' @ bs58_encode dl (code @ key))) =
         Some (did_uri doc))"

definition test_hash_lookup ::
  "did_lib \<Rightarrow> address_parser \<Rightarrow> iteration \<Rightarrow> validator_registry \<Rightarrow> sovereign_did_document \<Rightarrow> address \<Rightarrow> bool" where
  "test_hash_lookup dl pa it reg doc addr \<longleftrightarrow>
     (let hash_part = hd (split_on (CHR '':'') (drop 10 (did_uri doc)))
      in found_under dl pa it reg addr (''did:sovereign:420:'' @ hash_part))"

definition test_did_domain_conversion_and_lookup ::
  "did_lib \<Rightarrow> address_parser \<Rightarrow> iteration \<Rightarrow> iteration \<Rightarrow> u64 \<Rightarrow> bool" where
  "test_did_domain_conversion_and_lookup dl pa it it' now \<longleftrightarrow>
     (case derive_from_seed dl (repeat_b256 0xbc) of
        Ok doc \<Rightarrow>
          (case register_user_did dl pa it now (validator_registry_default\<lparr>vr_chain_id := 420\<rparr>) (did_uri doc) of
             Ok (addr, reg) \<Rightarrow>
               test_lookups dl pa it' reg doc addr \<and> test_hash_lookup dl pa it' reg doc addr \<and>
               test_key_lookups dl it' reg doc
           | _ \<Rightarrow> False)
      | _ \<Rightarrow> False)"

text \<open>All its assertions but one group hold.\<close>

lemma name_test_other_assertions:
  assumes "did_lib_ok dl" and "bs58_alphabet dl" and doc: "derive_from_seed dl seed = Ok doc"
    and reg: "register_user_did dl pa it now (validator_registry_default\<lparr>vr_chain_id := 420\<rparr>) (did_uri doc) = Ok (addr, reg)"
    and it: "iterates it' reg" and pa: "pa (address_key addr) = Some addr" and point: "secp256k1_pubkey doc \<noteq> []"
  shows "test_lookups dl pa it' reg doc addr" and "test_key_lookups dl it' reg doc"
proof -
  let ?r = "validator_registry_default\<lparr>vr_chain_id := 420\<rparr>"
  let ?q = "''did:peer:'' @ address_key addr"
  have fresh: "identities ?r = Map.empty" by (simp add: validator_registry_default_def validator_registry_new_def)
  have sov: "sovereign_name (vr_chain_id ?r) key = ''did:sovereign:420:'' @ key" for key
    by (simp add: sovereign_name_def decimal.simps char_of_def bit_0)
  obtain t u where did: "did_uri doc = ''did:peer:4'' @ hash_part doc @ '':z'' @ bs58_encode dl u"
    and short: "short_form doc = ''did:peer:4'' @ hash_part doc"
    using doc by (rule derived_did)
  have "?q \<notin> set (did_uri doc # derived_names (vr_chain_id ?r) (did_uri doc) addr)"
    unfolding derived_names_derived [OF assms(1) doc] by (simp add: did short sovereign_name_def address_key_def)
  then have "?q \<notin> dom (identities reg)" using registered_state(4) [OF reg] fresh by (simp add: domIff)
  note peer = peer_address_found [OF reg pa this]
  have "\<forall>name \<in> {did_uri doc, short_form doc, ''did:sovereign:420:'' @ address_key addr}. found_under dl pa it' reg addr name"
    using registered_names [OF assms(1,2) doc reg, of it'] unfolding sov found_under_def by blast
  moreover have "is_did_fully_registered dl pa it' reg (did_uri doc)"
    by (rule is_did_fully_registered_peer4 [OF reg derived_did_peer4 [OF assms(2) doc]])
  ultimately show "test_lookups dl pa it' reg doc addr"
    using peer registered_state(1) [OF reg]
    unfolding test_lookups_def Let_def address_key_def [symmetric] by (simp add: found_under_def get_did_by_address_def)
  have keys: "ed25519_pubkey doc = [4, 5]" "bls_pubkey doc = [6, 7]" "ml_dsa_pubkey doc = [8, 9]"
    "slh_dsa_pubkey doc = [10, 11]" "falcon_pubkey doc = [12, 13]" "xmss_pubkey doc = [14, 15]"
    using doc by (auto simp: derive_from_seed_def Let_def split: option.splits)
  have "map_option ri_did (find_identity_by_any_key dl it' reg (''did:peer:z'' @ bs58_encode dl (code @ key))) =
      Some (did_uri doc)" if "key \<in> doc_keys doc" "key \<noteq> []" "length code = 2" for code key
    using registered_keys [OF assms(1,2) doc reg it that] fresh by (simp add: key_query_def)
  moreover have "\<forall>key \<in> doc_keys doc. key \<noteq> []" using point by (simp add: doc_keys_def keys)
  moreover have "\<forall>(code, key) \<in> set [([0xe7, 0x01], secp256k1_pubkey doc), ([0xed, 0x01], ed25519_pubkey doc),
         ([0xea, 0x01], bls_pubkey doc), ([0x93, 0x01], ml_dsa_pubkey doc), ([0x94, 0x01], slh_dsa_pubkey doc),
         ([0x92, 0x01], falcon_pubkey doc), ([0x95, 0x01 :: u8], xmss_pubkey doc)]. key \<in> doc_keys doc \<and> length code = 2"
    by (simp add: doc_keys_def)
  ultimately show "test_key_lookups dl it' reg doc"
    unfolding test_key_lookups_def by (fast dest: bspec)
qed

text \<open>
  The test does not pass: it fails at the hash form, whatever the library, as long as compressed points
  have 33 bytes and digests 32.
\<close>

lemma name_test_fails:
  assumes "did_lib_ok dl" and "bs58_alphabet dl" and "\<And>bs. length (sha256 (dl_crypto dl) bs) = 32"
    and "\<And>s c u. secp_point dl s = Some (c, u) \<Longrightarrow> length c = 33"
  shows "\<not> test_did_domain_conversion_and_lookup dl pa it it' now"
proof
  let ?r = "validator_registry_default\<lparr>vr_chain_id := 420\<rparr>"
  have fresh: "identities ?r = Map.empty" "peer_keys ?r = Map.empty"
    by (simp_all add: validator_registry_default_def validator_registry_new_def)
  assume "test_did_domain_conversion_and_lookup dl pa it it' now"
  then obtain doc addr reg where doc: "derive_from_seed dl (repeat_b256 0xbc) = Ok doc"
    and reg: "register_user_did dl pa it now ?r (did_uri doc) = Ok (addr, reg)"
    and found: "is_did_registered dl pa it' reg (''did:sovereign:420:'' @ hd (split_on (CHR '':'') (drop 10 (did_uri doc))))"
    by (auto simp: test_did_domain_conversion_and_lookup_def test_hash_lookup_def found_under_def Let_def
        split: outcome.splits prod.splits)
  obtain t u where did: "did_uri doc = ''did:peer:4'' @ hash_part doc @ '':z'' @ bs58_encode dl u"
    and h: "hash_part doc = ''z'' @ bs58_encode dl t"
    using doc by (rule derived_did)
  have "CHR '':'' \<notin> set (hash_part doc)" using did_lib_okD(2) [OF assms(1)] by (simp add: h)
  from split_on_append [OF this, of "''z'' @ bs58_encode dl u"]
  have "hd (split_on (CHR '':'') (drop 10 (did_uri doc))) = hash_part doc" by (simp add: did)
  moreover have "sovereign_name (vr_chain_id ?r) (hash_part doc) = ''did:sovereign:420:'' @ hash_part doc"
    by (simp add: sovereign_name_def decimal.simps char_of_def bit_0)
  moreover have "no_key dl reg (drop 1 (hash_part doc))"
    by (rule registered_digest_no_key [OF assms(1) doc assms(3,4) reg fresh(1)])
  ultimately show False
    using registered_names [OF assms(1,2) doc reg, of it'] found fresh(2) by auto
qed

end
