(* ===== verification/Scenarios_Identity.thy ===== *)
theory Scenarios_Identity
  imports Namespace Network Das Node_Main Scenarios
begin

text \<open>
  The unit tests of the identity, crypto and network crates and of the node's \<open>main.rs\<close> as scenarios.
\<close>

section \<open>Crypto\<close>

definition test_crypto_envelope_pack_unpack :: bool where
  "test_crypto_envelope_pack_unpack \<longleftrightarrow>
     (let pk = [1, 2, 3]; sig = [4, 5, 6, 7]
      in unpack_pq_envelope (pack_pq_envelope MlDsa pk sig) = Ok (MlDsa, pk, sig))"

lemma test_crypto_envelope_pack_unpack: "test_crypto_envelope_pack_unpack"
  using unpack_pack_append [of "[1, 2, 3]" "[4, 5, 6, 7]" MlDsa "[]"]
  by (simp add: test_crypto_envelope_pack_unpack_def)

definition test_profiles :: bool where
  "test_profiles \<longleftrightarrow>
     (case (profile_from_name ''ethereum'', profile_from_name ''throughput'') of
        (Ok eth, Ok tp) \<Rightarrow> cp_signature eth = Secp256k1 \<and> cp_state_tree eth = Verkle \<and>
          cp_signature tp = Ed25519 \<and> cp_state_tree tp = PoseidonMerkle
      | _ \<Rightarrow> False)"

lemma test_profiles: "test_profiles"
  by (simp add: test_profiles_def profile_from_name_def to_lowercase_def char_lower_def ETHEREUM_def THROUGHPUT_def)

definition test_hash_and_derive :: "crypto_lib \<Rightarrow> bool" where
  "test_hash_and_derive cl \<longleftrightarrow> length (derive_address cl Keccak256 (as_bytes ''test_public_key_bytes_for_hash'')) = 20"

lemma test_hash_and_derive: "test_hash_and_derive cl"
  by (simp add: test_hash_and_derive_def derive_address_def Let_def)

section \<open>The namespace directory\<close>

text \<open>Powers of small integers are exact.\<close>

definition exact_powi :: "(f64 \<Rightarrow> int \<Rightarrow> f64) \<Rightarrow> bool" where
  "exact_powi fpowi \<longleftrightarrow> (\<forall>b k. b ^ k \<le> 1000 \<longrightarrow> fpowi (Fin (of_nat b)) (int k) = Fin (of_nat (b ^ k)))"

definition f64_epsilon :: f64 where
  "f64_epsilon = Fin (1 / 2 ^ 52)"

definition close_to :: "f64 \<Rightarrow> f64 \<Rightarrow> bool" where
  "close_to a b \<longleftrightarrow> f64_lt (f64_sub a b) f64_epsilon \<and> f64_lt (f64_neg f64_epsilon) (f64_sub a b)"

definition alice :: string where "alice = ''did:peer:4:alice''"

definition bob :: string where "bob = ''did:peer:4:bob''"

definition claim ::
  "(f64 \<Rightarrow> int \<Rightarrow> f64) \<Rightarrow> string \<Rightarrow> string \<Rightarrow> f64 \<Rightarrow> u64 \<Rightarrow> namespace_registry \<Rightarrow> namespace_registry" where
  "claim fpowi name did rep stake r = snd (register fpowi r name did rep stake)"

definition test_namespace_slots_and_penalties :: "(f64 \<Rightarrow> int \<Rightarrow> f64) \<Rightarrow> bool" where
  "test_namespace_slots_and_penalties fpowi \<longleftrightarrow>
     (let reg = (\<lambda>r name. register fpowi r name alice (f64_lit 10) 0);
          (a, r1) = reg namespace_registry_new ''alice.sovereign''; (b, r2) = reg r1 ''ali.sovereign'';
          (c, r3) = reg r2 ''al.sovereign''; (d, r4) = reg r3 ''alice4.sovereign''
      in a \<and> b \<and> c \<and> close_to (calculate_score fpowi r3 alice (f64_lit 10) 0) (f64_lit 1) \<and>
         d \<and> close_to (calculate_score fpowi r4 alice (f64_lit 10) 0) (f64_lit (1 / 10)))"

definition alice_names :: "(f64 \<Rightarrow> int \<Rightarrow> f64) \<Rightarrow> namespace_registry" where
  "alice_names fpowi = fold (\<lambda>i. claim fpowi (''alice'' @ i @ ''.sovereign'') alice (f64_lit 10) 0)
     [''1'', ''2'', ''3'', ''4''] namespace_registry_new"

definition shared :: string where "shared = ''shared.sovereign''"

definition test_conflict_resolution_primary_vs_secondary :: "(f64 \<Rightarrow> int \<Rightarrow> f64) \<Rightarrow> bool" where
  "test_conflict_resolution_primary_vs_secondary fpowi \<longleftrightarrow>
     (let r = claim fpowi shared alice (f64_lit 10) 0 (alice_names fpowi);
          (success, r') = register fpowi r shared bob (f64_lit 2) 0
      in success \<and> names r' shared = Some bob)"

definition test_staking_to_offset_penalty :: "(f64 \<Rightarrow> int \<Rightarrow> f64) \<Rightarrow> bool" where
  "test_staking_to_offset_penalty fpowi \<longleftrightarrow>
     (let r = claim fpowi shared alice (f64_lit 10) 400 (alice_names fpowi);
          (bob_success, r') = register fpowi r shared bob (f64_lit (1 / 2)) 0
      in \<not> bob_success \<and> names r' shared = Some alice)"

lemma alice_bob [simp]: "alice \<noteq> bob" "bob \<noteq> alice" by (simp_all add: alice_def bob_def)

lemma exact_powers:
  assumes "exact_powi fpowi"
  shows "fpowi (f64_lit 10) 0 = Fin 1" "fpowi (f64_lit 10) 1 = Fin 10" "fpowi (f64_lit 10) 2 = Fin 100"
    "fpowi (f64_lit 10) 3 = Fin 1000" "fpowi (f64_lit 2) 0 = Fin 1" "fpowi (f64_lit 2) 1 = Fin 2"
    "fpowi (f64_lit 2) 2 = Fin 4" "fpowi (f64_lit 2) 3 = Fin 8"
proof -
  have p: "fpowi (Fin (of_nat b)) (int k) = Fin (of_nat (b ^ k))" if "b ^ k \<le> 1000" for b k
    using assms that by (simp add: exact_powi_def)
  show "fpowi (f64_lit 10) 0 = Fin 1" "fpowi (f64_lit 10) 1 = Fin 10" "fpowi (f64_lit 10) 2 = Fin 100"
    "fpowi (f64_lit 10) 3 = Fin 1000"
    using p [of 10 0] p [of 10 1] p [of 10 2] p [of 10 3] by (simp_all add: rnd_numeral)
  show "fpowi (f64_lit 2) 0 = Fin 1" "fpowi (f64_lit 2) 1 = Fin 2" "fpowi (f64_lit 2) 2 = Fin 4"
    "fpowi (f64_lit 2) 3 = Fin 8"
    using p [of 2 0] p [of 2 1] p [of 2 2] p [of 2 3] by (simp_all add: rnd_numeral)
qed

text \<open>The names of an identity after a claim of a free name\<close>

lemma claim_free:
  "names r name = None \<Longrightarrow> register fpowi r name did rep stake = (True, assign_name r name did stake)"
  by (simp add: register_def)

lemma score_of_names:
  assumes "exact_powi fpowi"
  shows "length (names_of r did) < 3 \<Longrightarrow> calculate_score fpowi r did rep s =
      f64_add (f64_div rep (Fin 1)) (f64_div (f64_of_nat (unat s)) (f64_mul (f64_lit 100) (Fin 1)))"
    "length (names_of r did) = 3 \<Longrightarrow> calculate_score fpowi r did rep s =
      f64_add (f64_div rep (Fin 10)) (f64_div (f64_of_nat (unat s)) (f64_mul (f64_lit 100) (Fin 2)))"
    "length (names_of r did) = 4 \<Longrightarrow> calculate_score fpowi r did rep s =
      f64_add (f64_div rep (Fin 100)) (f64_div (f64_of_nat (unat s)) (f64_mul (f64_lit 100) (Fin 4)))"
    "length (names_of r did) = 5 \<Longrightarrow> calculate_score fpowi r did rep s =
      f64_add (f64_div rep (Fin 1000)) (f64_div (f64_of_nat (unat s)) (f64_mul (f64_lit 100) (Fin 8)))"
  by (simp_all add: calculate_score_def exact_powers [OF assms] Let_def)

text \<open>What \<open>alice_names\<close> holds, whatever the scores: no claim meets an owner.\<close>

lemmas claim_eval = claim_def register_def assign_name_def names_of_def namespace_registry_new_def

lemma alice_claims:
  "names (claim fpowi shared alice (f64_lit 10) s (alice_names fpowi)) shared = Some alice"
  "length (names_of (claim fpowi shared alice (f64_lit 10) s (alice_names fpowi)) alice) = 5"
  "names_of (claim fpowi shared alice (f64_lit 10) s (alice_names fpowi)) bob = []"
  "stakes (claim fpowi shared alice (f64_lit 10) s (alice_names fpowi)) alice = Some s"
  by (simp_all add: alice_names_def shared_def claim_eval)

lemma test_namespace_slots_and_penalties:
  assumes "exact_powi fpowi"
  shows "test_namespace_slots_and_penalties fpowi"
proof -
  define r3 where "r3 = fold (\<lambda>n. claim fpowi n alice (f64_lit 10) 0)
    [''alice.sovereign'', ''ali.sovereign'', ''al.sovereign''] namespace_registry_new"
  have "length (names_of r3 alice) = 3"
    "length (names_of (claim fpowi ''alice4.sovereign'' alice (f64_lit 10) 0 r3) alice) = 4"
    by (simp_all add: r3_def claim_eval)
  from score_of_names(2) [OF assms this(1)] score_of_names(3) [OF assms this(2)]
  have "close_to (calculate_score fpowi r3 alice (f64_lit 10) 0) (f64_lit 1)"
    "close_to (calculate_score fpowi (claim fpowi ''alice4.sovereign'' alice (f64_lit 10) 0 r3) alice (f64_lit 10) 0)
      (f64_lit (1 / 10))"
    by (simp_all add: close_to_def f64_epsilon_def f64_sub_def f64_of_nat_def f64_eval)
  moreover have "fst (register fpowi r3 ''alice4.sovereign'' alice (f64_lit 10) 0)"
    by (simp add: r3_def claim_eval)
  ultimately show ?thesis
    by (simp add: test_namespace_slots_and_penalties_def r3_def claim_eval Let_def)
qed

lemma test_conflict_resolution:
  assumes "exact_powi fpowi"
  shows "test_conflict_resolution_primary_vs_secondary fpowi"
proof -
  let ?r = "claim fpowi shared alice (f64_lit 10) 0 (alice_names fpowi)"
  have "length (names_of ?r bob) < 3" by (simp only: alice_claims list.size)
  then have "f64_lt (calculate_score fpowi ?r alice (f64_lit 1) 0) (calculate_score fpowi ?r bob (f64_lit 2) 0)"
    unfolding score_of_names(4) [OF assms alice_claims(2)] score_of_names(1) [OF assms \<open>length (names_of ?r bob) < 3\<close>]
    by (simp add: f64_of_nat_def f64_eval)
  then have "register fpowi ?r shared bob (f64_lit 2) 0 = (True, assign_name (evict_name ?r shared alice) shared bob 0)"
    by (simp add: register_def alice_claims Let_def)
  then show ?thesis
    by (simp add: test_conflict_resolution_primary_vs_secondary_def Let_def) (simp add: assign_name_def)
qed

lemma test_staking_to_offset_penalty:
  assumes "exact_powi fpowi"
  shows "test_staking_to_offset_penalty fpowi"
proof -
  let ?r = "claim fpowi shared alice (f64_lit 10) 400 (alice_names fpowi)"
  have "length (names_of ?r bob) < 3" by (simp only: alice_claims list.size)
  then have "\<not> f64_lt (calculate_score fpowi ?r alice (f64_lit 1) 400) (calculate_score fpowi ?r bob (f64_lit (1 / 2)) 0)"
    unfolding score_of_names(4) [OF assms alice_claims(2)] score_of_names(1) [OF assms \<open>length (names_of ?r bob) < 3\<close>]
    by (simp add: f64_of_nat_def f64_eval)
  then have "register fpowi ?r shared bob (f64_lit (1 / 2)) 0 = (False, ?r)"
    by (simp add: register_def alice_claims Let_def)
  then show ?thesis by (simp add: test_staking_to_offset_penalty_def alice_claims Let_def)
qed

section \<open>Identities\<close>

definition test_did_peer4_resolve_ed25519 :: "(string \<Rightarrow> (string \<times> bytes option) list option) \<Rightarrow> string \<Rightarrow> bool" where
  "test_did_peer4_resolve_ed25519 resolver did \<longleftrightarrow>
     (case did_peer4_resolve resolver did of
        Ok resolved \<Rightarrow> dp_key_type resolved = KtEd25519 \<and> dp_public_key resolved \<noteq> []
      | _ \<Rightarrow> False)"

definition test_did_peer4_resolve_secp256k1 :: "(string \<Rightarrow> (string \<times> bytes option) list option) \<Rightarrow> string \<Rightarrow> bool" where
  "test_did_peer4_resolve_secp256k1 resolver did \<longleftrightarrow>
     (case did_peer4_resolve resolver did of
        Ok resolved \<Rightarrow> dp_key_type resolved = KtSecp256k1 \<and> dp_public_key resolved \<noteq> []
      | _ \<Rightarrow> False)"

text \<open>The resolver gives a created identity one \<open>Multikey\<close> method with the bare key.\<close>

lemma test_did_peer4_resolve:
  assumes "starts_with did ''did:peer:''" and "resolver did = Some [(''Multikey'', Some pk)]"
  shows "length pk = 32 \<Longrightarrow> test_did_peer4_resolve_ed25519 resolver did"
    and "length pk = 33 \<Longrightarrow> pk ! 0 \<in> {2, 3} \<Longrightarrow> test_did_peer4_resolve_secp256k1 resolver did"
proof -
  have r: "did_peer4_resolve resolver did =
      Ok \<lparr>dp_did = did, dp_key_type = detect_key_type ''Multikey'' pk, dp_public_key = pk\<rparr>"
    using assms by (simp add: did_peer4_resolve_def)
  then show "length pk = 32 \<Longrightarrow> test_did_peer4_resolve_ed25519 resolver did"
    by (auto simp: test_did_peer4_resolve_ed25519_def detect_key_type_def)
  show "test_did_peer4_resolve_secp256k1 resolver did" if "length pk = 33" "pk ! 0 \<in> {2, 3}"
  proof -
    have "\<not> starts_with pk [0x01, b]" for b using that by (cases pk) (auto simp: starts_with_def)
    with r that(1) show ?thesis by (auto simp: test_did_peer4_resolve_secp256k1_def detect_key_type_def)
  qed
qed

definition test_did_peer4_invalid_format :: "(string \<Rightarrow> (string \<times> bytes option) list option) \<Rightarrow> bool" where
  "test_did_peer4_invalid_format resolver \<longleftrightarrow>
     is_err (did_peer4_resolve resolver ''did:peer:3:z6M'') \<and> is_err (did_peer4_resolve resolver ''did:peer:4:'')"

lemma test_did_peer4_invalid_format:
  "resolver ''did:peer:3:z6M'' = None \<Longrightarrow> resolver ''did:peer:4:'' = None \<Longrightarrow> test_did_peer4_invalid_format resolver"
  by (simp add: test_did_peer4_invalid_format_def did_peer4_resolve_def)

text \<open>The providers, in an environment without live tests\<close>

definition authentik_relay :: string where "authentik_relay = ''https://authentik.relay''"

definition test_authentik_zkp_auth_flow :: "id_env \<Rightarrow> string \<Rightarrow> string \<Rightarrow> bool" where
  "test_authentik_zkp_auth_flow env siwe_msg addr \<longleftrightarrow>
     authentik_verify env ''https://authentik.local'' siwe_msg =
       Ok \<lparr>im_internal_user_id = addr, im_identity_server = ''https://authentik.local''\<rparr> \<and>
     is_err (authentik_verify env ''https://authentik.local'' ''invalid message'')"

definition test_nexterp_zkp_auth_flow :: "id_env \<Rightarrow> bool" where
  "test_nexterp_zkp_auth_flow env \<longleftrightarrow>
     (let auth = \<lparr>tenant_id = ''erp_tenant_1'', ne_relay_server = authentik_relay\<rparr>;
          creds = \<lparr>ne_user_did = ''did:peer:4:z6M'', authentik_relay_signature = as_bytes ''valid_sig'',
            internal_user_email = ''employee@company.com'',
            group_proof = Some \<lparr>zp_proof = as_bytes ''valid_group_proof'', zp_public_inputs = as_bytes ''group_id_1''\<rparr>\<rparr>;
          invalid_creds = creds\<lparr>authentik_relay_signature := as_bytes ''INVALID'', group_proof := None\<rparr>
      in next_erp_verify env auth creds =
           Ok \<lparr>im_internal_user_id = ''employee@company.com'', im_identity_server = authentik_relay\<rparr> \<and>
         is_err (next_erp_verify env auth invalid_creds))"

definition test_nextcloud_zkp_auth_flow :: "id_env \<Rightarrow> bool" where
  "test_nextcloud_zkp_auth_flow env \<longleftrightarrow>
     (let auth = \<lparr>instance_url = ''https://nextcloud.local'', nc_relay_server = authentik_relay\<rparr>;
          creds = (\<lambda>p. \<lparr>nc_user_did = ''did:peer:4:z6M'', relay_token = ''nc_session_token_xyz'',
            internal_username = ''nextcloud_user_99'',
            session_proof = \<lparr>zp_proof = as_bytes p, zp_public_inputs = as_bytes ''session_id_456''\<rparr>\<rparr>)
      in next_cloud_verify env auth (creds ''valid_session_proof'') =
           Ok \<lparr>im_internal_user_id = ''nextcloud_user_99'', im_identity_server = authentik_relay\<rparr> \<and>
         is_err (next_cloud_verify env auth (creds ''INVALID_SESSION_PROOF'')))"

definition test_nfc_token_auth_flow :: bool where
  "test_nfc_token_auth_flow \<longleftrightarrow>
     (let creds = (\<lambda>s. \<lparr>card_uid = [0x04, 0x23, 0x45], dynamic_signature = as_bytes s, nfc_challenge = [1, 2, 3, 4]\<rparr>)
      in nfc_verify (creds ''valid_cmac_or_ecdsa_sig'') =
           Ok \<lparr>im_internal_user_id = ''nfc_card_042345'', im_identity_server = ''NFC_Reader''\<rparr> \<and>
         is_err (nfc_verify (creds ''BAD_SIGNATURE'')))"

lemma test_authentik_zkp_auth_flow:
  "env_live_tests env \<noteq> ''1'' \<Longrightarrow> env_siwe_parse env msg = Some (''authentik.local'', addr) \<Longrightarrow>
   env_siwe_parse env ''invalid message'' = None \<Longrightarrow> test_authentik_zkp_auth_flow env msg addr"
  by (simp add: test_authentik_zkp_auth_flow_def authentik_verify_def live_check_def)

lemma test_nexterp_zkp_auth_flow: "env_live_tests env \<noteq> ''1'' \<Longrightarrow> test_nexterp_zkp_auth_flow env"
  by (simp add: test_nexterp_zkp_auth_flow_def next_erp_verify_def live_check_def as_bytes_def Let_def)

lemma test_nextcloud_zkp_auth_flow: "env_live_tests env \<noteq> ''1'' \<Longrightarrow> test_nextcloud_zkp_auth_flow env"
  by (simp add: test_nextcloud_zkp_auth_flow_def next_cloud_verify_def live_check_def as_bytes_def Let_def)

lemma test_nfc_token_auth_flow: "test_nfc_token_auth_flow"
  by (simp add: test_nfc_token_auth_flow_def nfc_verify_def as_bytes_def hex_string_def hex_char_def char_of_def bit_0 Let_def)

definition test_live_identity_connection_failure :: "(string \<Rightarrow> 'a list option) \<Rightarrow> ('a \<Rightarrow> probe) \<Rightarrow> bool" where
  "test_live_identity_connection_failure to_socket_addrs connect \<longleftrightarrow>
     (case check_live_server_active to_socket_addrs connect ''https://nonexistent-authentik-server.xyz'' of
        Err e \<Rightarrow> e \<in> {FailedToResolveAddress, ConnectionRefused}
      | _ \<Rightarrow> False)"

text \<open>The name does not resolve; the text of that error contains \<open>resolve\<close>.\<close>

lemma test_live_identity_connection_failure:
  assumes "to_socket_addrs (live_server_address ''https://nonexistent-authentik-server.xyz'') = None"
  shows "test_live_identity_connection_failure to_socket_addrs connect"
  using assms by (simp add: test_live_identity_connection_failure_def check_live_server_active_def)

text \<open>Two peers whose keys sign the message: one with an ECDSA key, one with an ML-DSA key\<close>

definition test_zero_latency_quantum_trigger_enforcement ::
  "crypto_lib \<Rightarrow> bytes \<Rightarrow> bytes \<Rightarrow> bytes \<Rightarrow> bytes \<Rightarrow> bool" where
  "test_zero_latency_quantum_trigger_enforcement cl secp_pk sig pk mldsa_sig \<longleftrightarrow>
     (let msg = as_bytes ''test message for quantum trigger enforcement check'';
          secp_peer = \<lparr>dp_did = ''did:peer:4:zQ3s'', dp_key_type = KtSecp256k1, dp_public_key = secp_pk\<rparr>;
          mldsa_peer = \<lparr>dp_did = ''did:peer:4:zDilithium'', dp_key_type = KtMlDsa, dp_public_key = pk\<rparr>
      in is_ok (did_peer4_verify_signature cl secp_peer msg sig False) \<and>
         is_ok (did_peer4_verify_signature cl mldsa_peer msg mldsa_sig False) \<and>
         did_peer4_verify_signature cl secp_peer msg sig True = Err RejectedQuantumThreat \<and>
         is_ok (did_peer4_verify_signature cl mldsa_peer msg mldsa_sig True))"

lemma test_zero_latency_quantum_trigger_enforcement:
  assumes "verify_scheme cl Secp256k1 secp_pk (as_bytes ''test message for quantum trigger enforcement check'') sig = Ok ()"
    and "verify_scheme cl MlDsa pk (as_bytes ''test message for quantum trigger enforcement check'') mldsa_sig = Ok ()"
  shows "test_zero_latency_quantum_trigger_enforcement cl secp_pk sig pk mldsa_sig"
  unfolding test_zero_latency_quantum_trigger_enforcement_def Let_def did_peer4_verify_signature_def verify_signature_def
  using assms by (simp del: verify_scheme.simps)

section \<open>Network\<close>

definition test_key_derivation :: "curve_lib \<Rightarrow> bool" where
  "test_key_derivation cl \<longleftrightarrow>
     (let seed = replicate 32 42; zero = replicate 32 0;
          (wg_priv, wg_pub) = derive_curve25519 cl seed; (ed_priv, ed_pub) = derive_ed25519 cl seed
      in wg_priv \<noteq> zero \<and> wg_pub \<noteq> zero \<and> ed_priv \<noteq> zero \<and> ed_pub \<noteq> zero \<and>
         (case derive_secp256k1 cl seed of
            Some (secp_priv, secp_pub) \<Rightarrow> secp_priv \<noteq> zero \<and> secp_pub \<noteq> replicate 33 0
          | None \<Rightarrow> False))"

text \<open>No digest and no public key is zero, and the first digest is a scalar.\<close>

lemma b256_bytes_zero_iff: "b256_bytes h = replicate 32 0 \<longleftrightarrow> h = 0"
proof -
  have "be_nat (replicate k 0) = 0" for k by (induction k) (simp_all)
  then have "b256_of_bytes (replicate 32 0) = 0" by (simp add: b256_of_bytes_def)
  then show ?thesis
    using b256_of_bytes_b256_bytes [of h] b256_bytes_b256_of_bytes [of "replicate 32 0"] by (metis length_replicate)
qed

lemma test_key_derivation:
  assumes "\<And>bs. keccak256 (cl_crypto cl) bs \<noteq> 0"
    and "\<And>bs. x25519_public cl bs \<noteq> replicate 32 0" and "\<And>bs. ed25519_public cl bs \<noteq> replicate 32 0"
    and "k256_public cl (b256_bytes (keccak256 (cl_crypto cl) (as_bytes ''secp256k1'' @ replicate 32 42))) = Some pub"
    and "pub \<noteq> replicate 33 0"
  shows "test_key_derivation cl"
proof -
  have "derive_secp256k1 cl (replicate 32 42) =
      Some (b256_bytes (keccak256 (cl_crypto cl) (as_bytes ''secp256k1'' @ replicate 32 42)), pub)"
    unfolding derive_secp256k1_def by (subst find_scalar.simps) (simp only: assms(4) option.case)
  with assms(1-3,5) show ?thesis
    by (simp add: test_key_derivation_def derive_curve25519_def derive_ed25519_def b256_bytes_zero_iff Let_def)
qed

definition nfc_creds :: "bytes \<Rightarrow> bytes \<Rightarrow> bytes \<Rightarrow> nfc_credentials" where
  "nfc_creds uid sig ch = \<lparr>card_uid = uid, dynamic_signature = sig, nfc_challenge = ch\<rparr>"

definition mesh_wg0 :: "'w \<Rightarrow> 'w zero_config_mesh" where
  "mesh_wg0 w = \<lparr>zm_interface = ''wg0'', peered_dids = [], zm_host = w\<rparr>"

definition test_zero_config_nfc_handshake ::
  "crypto_lib \<Rightarrow> 'w host \<Rightarrow> peer_resolver \<Rightarrow> (did_peer4_error \<Rightarrow> string) \<Rightarrow> 'w \<Rightarrow> string \<Rightarrow> bytes \<Rightarrow> bool" where
  "test_zero_config_nfc_handshake cl h resolver show_error w did sig \<longleftrightarrow>
     (let handshake = (\<lambda>m s. handle_nfc_handshake cl h resolver show_error m did (nfc_creds [0x11, 0x22] s [1, 2, 3]) ''10.0.0.2:51820'');
          (mesh, res) = handshake (mesh_wg0 w) sig;
          (mesh', res_err) = handshake mesh (as_bytes ''BAD_SIGNATURE_BYTES_REPEATED_BYTE_000000000000000000000000000000'')
      in res = Ok () \<and> peered_dids mesh ! 0 = did \<and> is_err res_err)"

text \<open>In mock mode a handshake succeeds exactly when the signature verifies under the resolved key.\<close>

lemma mock_handshake:
  assumes "mock h" and "did_peer4_resolve resolver did = Ok peer"
  shows "did_peer4_verify_signature cl peer ch s False = Ok () \<Longrightarrow>
      handle_nfc_handshake cl h resolver show_error m did (nfc_creds uid s ch) ep = (m\<lparr>peered_dids := peered_dids m @ [did]\<rparr>, Ok ())"
    and "did_peer4_verify_signature cl peer ch s False = Err e \<Longrightarrow>
      handle_nfc_handshake cl h resolver show_error m did (nfc_creds uid s ch) ep = (m, Err (HandshakeSignature e))"
proof -
  have "starts_with did ''did:peer:''" using assms(2) by (auto simp: did_peer4_resolve_def split: if_splits)
  then have "add_peer_from_did h resolver show_error name did ep w = (w, Ok ())" for name w
    using assms by (simp add: add_peer_from_did_def)
  then show "did_peer4_verify_signature cl peer ch s False = Ok () \<Longrightarrow>
      handle_nfc_handshake cl h resolver show_error m did (nfc_creds uid s ch) ep = (m\<lparr>peered_dids := peered_dids m @ [did]\<rparr>, Ok ())"
    and "did_peer4_verify_signature cl peer ch s False = Err e \<Longrightarrow>
      handle_nfc_handshake cl h resolver show_error m did (nfc_creds uid s ch) ep = (m, Err (HandshakeSignature e))"
    using assms(2) by (simp_all add: handle_nfc_handshake_def nfc_creds_def)
qed

lemma test_zero_config_nfc_handshake:
  assumes "mock h" and "did_peer4_resolve resolver did = Ok peer"
    and "did_peer4_verify_signature cl peer [1, 2, 3] sig False = Ok ()"
    and "did_peer4_verify_signature cl peer [1, 2, 3]
      (as_bytes ''BAD_SIGNATURE_BYTES_REPEATED_BYTE_000000000000000000000000000000'') False = Err e"
  shows "test_zero_config_nfc_handshake cl h resolver show_error w did sig"
  unfolding test_zero_config_nfc_handshake_def Let_def
  by (simp add: mock_handshake(1) [OF assms(1-3)] mock_handshake(2) [OF assms(1,2,4)]) (simp add: mesh_wg0_def)

definition test_xroad_relay_query :: "did_lib \<Rightarrow> bool" where
  "test_xroad_relay_query dl \<longleftrightarrow>
     (case derive_from_seed dl (repeat_b256 0x01) of
        Ok doc \<Rightarrow>
          (case query_organization_state [did_uri doc \<mapsto> doc] (did_uri doc) of
             Ok response \<Rightarrow> xr_did_uri response = did_uri doc \<and> xr_signature response = ''signed:'' @ did_uri doc
           | _ \<Rightarrow> False)
      | _ \<Rightarrow> False)"

lemma test_xroad_relay_query: "secp_point dl (repeat_b256 0x01) = Some ps \<Longrightarrow> test_xroad_relay_query dl"
  by (cases ps) (simp add: test_xroad_relay_query_def derive_from_seed_def query_organization_state_def Let_def)

definition test_perform_das_failure_on_missing_chunk :: "rs_lib \<Rightarrow> bool" where
  "test_perform_das_failure_on_missing_chunk rs \<longleftrightarrow>
     (case encode_grid rs (replicate 1024 5) 2 256 of
        Ok grid \<Rightarrow> perform_das rs 16 grid ({..<grid_size grid} \<times> {..<grid_size grid}) = Some (Ok False)
      | _ \<Rightarrow> False)"

lemma test_perform_das_failure_on_missing_chunk:
  assumes "encode_grid rs (replicate 1024 5) 2 256 = Ok grid"
  shows "test_perform_das_failure_on_missing_chunk rs"
proof -
  have "eg_k grid = 2" using assms by (auto simp: encode_grid_def Let_def outcome_simps split: if_splits)
  then have sz: "grid_size grid = 4" by (simp add: grid_size_def)
  obtain cell seed where n: "next_cell 4 (Suc 0) 42 = (cell, seed)" by fastforce
  then have "cell \<in> {..<4} \<times> {..<4}" by (auto simp: next_cell_def Let_def)
  then have "das_loop (Suc 1016) 4 16 (check_cell rs grid ({..<4} \<times> {..<4})) {} 42 0 0 = Some (Ok False)"
    using n unfolding das_loop.simps by (simp add: check_cell_def Let_def)
  moreover have "das_fuel 4 = Suc 1016" by (simp add: das_fuel_def)
  ultimately have "perform_das rs 16 grid ({..<4} \<times> {..<4}) = Some (Ok False)"
    by (simp only: perform_das_def sz Let_def) simp
  with assms show ?thesis by (simp add: test_perform_das_failure_on_missing_chunk_def sz)
qed

section \<open>The node\<close>

definition test_get_tee_attestation_action :: bool where
  "test_get_tee_attestation_action \<longleftrightarrow>
     get_tee_attestation_action ''sgx'' ''0xEphemeralKey'' 42 = ''sgx:block:42:key:0xEphemeralKey'' \<and>
     get_tee_attestation_action ''nitro'' ''0xEphemeralKey'' 42 = ''nitro:block:42:key:0xEphemeralKey'' \<and>
     get_tee_attestation_action ''none'' ''0xEphemeralKey'' 42 = ''native''"

lemma test_get_tee_attestation_action: "test_get_tee_attestation_action"
  by (simp add: test_get_tee_attestation_action_def get_tee_attestation_action_def decimal.simps char_of_def bit_0)

text \<open>A peer, its name and an organisation's state, one after the other\<close>

definition test_integration_nfc_namespace_did ::
  "crypto_lib \<Rightarrow> 'w host \<Rightarrow> peer_resolver \<Rightarrow> (did_peer4_error \<Rightarrow> string) \<Rightarrow> 'w \<Rightarrow> (f64 \<Rightarrow> int \<Rightarrow> f64) \<Rightarrow> did_lib
    \<Rightarrow> string \<Rightarrow> bytes \<Rightarrow> bool" where
  "test_integration_nfc_namespace_did cl h resolver show_error w fpowi dl node_a_did sig \<longleftrightarrow>
     (let (mesh, res) = handle_nfc_handshake cl h resolver show_error (mesh_wg0 w) node_a_did
            (nfc_creds [0x99, 0x88] sig [0, 0, 1]) ''192.168.1.100:51820'';
          (registered, ns) = register fpowi namespace_registry_new ''nodea.sovereign'' node_a_did (f64_lit 10) 0
      in is_ok res \<and> registered \<and>
         (case derive_from_seed dl (repeat_b256 0x02) of
            Ok doc \<Rightarrow>
              (case query_organization_state [did_uri doc \<mapsto> doc] (did_uri doc) of
                 Ok response \<Rightarrow> xr_did_uri response = did_uri doc | _ \<Rightarrow> False)
          | _ \<Rightarrow> False))"

lemma test_integration_nfc_namespace_did:
  assumes "mock h" and "did_peer4_resolve resolver did = Ok peer"
    and "did_peer4_verify_signature cl peer [0, 0, 1] sig False = Ok ()"
    and "secp_point dl (repeat_b256 0x02) = Some ps"
  shows "test_integration_nfc_namespace_did cl h resolver show_error w fpowi dl did sig"
  using mock_handshake(1) [OF assms(1-3)] assms(4)
  by (cases ps) (simp add: test_integration_nfc_namespace_did_def claim_free namespace_registry_new_def
      derive_from_seed_def query_organization_state_def Let_def)

end
