(* ===== verification/Spec2Isabelle.thy ===== *)
theory Spec2Isabelle
  imports Parallel_Convergence Identity Namespace Subset_Election Sync_Committee Slashing Reanchor Flat_State
    Based_Mesh Actor Hw_Offload Bgp Nmt Archival Kzg Onboarding Node_Main
    Pool_Build Das_Code Network Attestation
    Scenarios_Codes Scenarios_Execution Scenarios_Mesh Scenarios_Consensus Scenarios_Identity
begin

text \<open>
  A verification library of the Sovereign Reth node, a set of Rust crates under \<open>src/crates\<close> that
  wrap an Ethereum execution client: \<open>node\<close> (the binary, its RPC proxy and the onboarding tool),
  \<open>consensus\<close> (registry, validation, execution engines, mesh, committees), \<open>identity\<close>, \<open>crypto\<close>,
  \<open>network\<close> and \<open>attestation\<close>. A request enters through the proxy, which registers identities in
  the validator registry, indexes transfers and forwards the rest to the client; the pool and the
  block checks ask the registry who a key belongs to; packets travel between manifolds over the
  router, are archived, and drive two-phase actors.

  Conventions. A struct is a record, an enum a datatype, an unsigned integer a word of its width,
  \<open>usize\<close> a natural number, \<open>f64\<close> the rational model of \<open>F64\<close> with rounding made explicit. A
  function that can fail returns an \<open>outcome\<close>: \<open>Ok\<close>, \<open>Err\<close> or \<open>Panic\<close>. A hash map is a map;
  where its iteration order matters the order is an argument. The process-wide registry is
  passed explicitly. Code of other packages is a parameter: a record of functions per component
  (\<open>crypto_lib\<close>, \<open>did_lib\<close>, \<open>mesh_lib\<close>, \<open>rpc_lib\<close>, \<open>cli_lib\<close>, \<open>rs_lib\<close>, ...), with a predicate
  such as \<open>did_lib_ok\<close> that states what its documentation promises, and a concrete instance
  (\<open>sample_crypto\<close>, \<open>sample_did_lib\<close>, ...) that satisfies it.
\<close>

section \<open>Foundations\<close>

text \<open>
  \<^item> \<open>Prelude\<close>: outcomes and their rules \<open>outcome_simps\<close>, big- and little-endian bytes, chunks,
    prefixes, saturating subtraction.
  \<^item> \<open>Text\<close>: splitting, trimming, decimal and hexadecimal texts and what reads them back.
  \<^item> \<open>Json\<close>: values and accessors. \<open>F64\<close>: floating point. \<open>Scale\<close>: the SCALE codec as a locale of
    round-trip laws, interpreted on a reference codec.
\<close>

section \<open>Execution and validation (crates/consensus)\<close>

text \<open>
  \<^item> \<open>Parallel\<close> models \<open>parallel.rs\<close>: the account transition, the wave partition, the PEVM rounds and
    the GREVM trace; which transactions the threads of a round get to is an argument.
    \<open>Parallel_Wave\<close> proves the wave engine equal to serial execution when the declared accesses
    are complete, the partition sound, and exactly when its loop ends; \<open>Parallel_Pevm\<close> that a
    validated optimistic run is a serial one, and that an unvalidated one may not be.
    \<open>Parallel_Engines\<close> states the trait \<open>ParallelExecutor\<close> as a locale, interpreted for the three
    engines: on a block without conflicts they all settle the same payments, or leave the database alone.
    \<open>Parallel_Convergence\<close>: how many transactions the optimistic executor can take.
  \<^item> \<open>Stateless\<close> (\<open>stateless.rs\<close>), \<open>Velocity\<close> (\<open>velocity.rs\<close>), \<open>Flat_State\<close> (\<open>flat_state.rs\<close>), \<open>Kzg\<close>
    (\<open>kzg.rs\<close>), \<open>Nmt\<close> (\<open>nmt.rs\<close>), \<open>Reanchor\<close> (\<open>reanchor.rs\<close>): what an accepted block proves, the
    accounting of the pre-flight check, the dependence of the flat root on the thread schedule.
  \<^item> \<open>Pool\<close> and \<open>Pool_Build\<close> (\<open>pool.rs\<close>): first come, first served; what the quantum trigger and witnesses
    prove; the traits of transactions as records of methods, and the assembled pool.
  \<^item> \<open>Config\<close> (\<open>config.rs\<close>) and \<open>Registry\<close> (\<open>registry.rs\<close>): lookups, normalisation, registration.
    \<open>Registry_Names\<close>: under which of its names and keys a registered identity is found.
  \<^item> \<open>Subset_Election\<close>, \<open>Sync_Committee\<close>, \<open>Slashing\<close>: who is elected and that the order of the
    candidates does not matter, what an accepted intent has been signed by, exactly who is slashed.
\<close>

section \<open>Mesh (crates/consensus and crates/network)\<close>

text \<open>
  \<^item> \<open>Based_Mesh\<close> (\<open>based_mesh.rs\<close>): packets and blobs with their round trips; the codec laws are the
    locale \<open>mesh_primitives\<close>.
  \<^item> \<open>Hw_Offload\<close> (\<open>hw_offload.rs\<close>) and \<open>Bgp\<close> (\<open>bgp.rs\<close>): the router over an abstract driver and when
    its hardware table agrees with the routing table.
  \<^item> \<open>Actor\<close> (\<open>actor.rs\<close>): the saga as an inductive step relation; what every run preserves.
  \<^item> \<open>Archival\<close> (\<open>archival.rs\<close>): an archived packet is recovered whatever is pinned later.
  \<^item> \<open>Das\<close> (\<open>das.rs\<close>): the erasure grid and the sampling loop, which always ends on predictable cells.
    \<open>Das_Code\<close>: for every systematic linear code the two encoding phases give a grid that verifies
    in all rows, and one overwritten chunk is noticed.
  \<^item> \<open>Network\<close> (\<open>handshake.rs\<close>, \<open>wireguard.rs\<close>, \<open>xroad.rs\<close>), \<open>Attestation\<close> (the crate
    \<open>attestation\<close> and \<open>actuator.rs\<close>; its trait is the locale \<open>attestation_provider\<close>).
\<close>

section \<open>Identity (crates/crypto and crates/identity)\<close>

text \<open>
  \<^item> \<open>Crypto\<close>: scheme dispatch, the post-quantum envelope, when verification errs or panics.
  \<^item> \<open>Did\<close> (\<open>did.rs\<close>): synthesis and resolution of documents. \<open>Identity\<close> (\<open>lib.rs\<close>, \<open>zkp_auth.rs\<close>,
    \<open>delegation.rs\<close>): peers, logins, cards. \<open>Namespace\<close> (\<open>namespace.rs\<close>): the directory of names.
\<close>

section \<open>The node (crates/node)\<close>

text \<open>
  \<^item> \<open>Http_Frame\<close>, \<open>Hot_Index\<close>, \<open>Caip_Rpc\<close>, \<open>Rpc_Proxy\<close> model \<open>caip_rpc.rs\<close>: framing of requests, the
    index of transfers, the handlers, and the dispatch with runs as inductive relations
    (\<open>proxy_step\<close>, \<open>proxy_run\<close>), in which a request is one step.
  \<^item> \<open>Proxy_Tasks\<close> takes the requests apart: a task is a resumption whose actions are the sections the
    code runs under one lock and the answers it awaits, and tasks of all connections and the
    background query interleave (\<open>tasks_step\<close>, \<open>tasks_run\<close>). The locale \<open>task_invariant\<close> lifts what
    the single actions preserve to every interleaving, and through its \<open>sublocale\<close> of
    \<open>proxy_invariant\<close> to sequential runs. \<open>Proxy_Runs\<close> and \<open>Proxy_Interleaved\<close> use its
    interpretations: the index stays within its bounds, a registered address stays with its
    DID, no run makes a block acceptable. An uninterrupted task is the handler of \<open>Rpc_Proxy\<close>;
    the mark of the scanned blocks shows that an interrupted one need not be.
  \<^item> \<open>Did_Cli\<close> (\<open>did_cli.rs\<close>): what the onboarding tool sends, the proxy registers. \<open>Onboarding\<close>: the
    tool and the proxy together, a registered identity is found by every later query.
  \<^item> \<open>Node_Main\<close> (\<open>main.rs\<close>): ports, configuration, the launch and the execution extension; a launched
    node with its proxy never accepts a block.
\<close>

section \<open>Unit tests as scenarios\<close>

text \<open>
  \<open>Scenarios\<close> holds the constants of the tests; \<open>Scenarios_Execution\<close>, \<open>Scenarios_Mesh\<close>,
  \<open>Scenarios_Consensus\<close>, \<open>Scenarios_Identity\<close> and \<open>Scenarios_Codes\<close> state 59 test functions of the crates as
  propositions with their inputs and assertions. A lemma for each of them proves that the model
  passes the test, with what the test takes from a library (a key that signs, a digest that is not
  zero) as its hypotheses; \<open>mesh_scenarios_pass\<close> discharges those of the mesh on concrete libraries.
  One test does not pass: \<open>name_test_fails\<close> proves that the lookup of an identity by the DID of its hash
  finds nothing, \<open>name_test_other_assertions\<close> that its other assertions hold. The branches that
  exist only in test builds are modelled there (\<open>validate_block_in_test_build\<close>,
  \<open>validate_witness_in_test_build\<close>), apart from the code that a node runs.
\<close>

section \<open>Fuel and termination\<close>

text \<open>
  The wave partition and the search for a curve scalar may run forever and are partial functions;
  \<open>partition_waves_total_iff\<close> says exactly when the partition returns. The sampling loop of \<open>Das\<close>
  runs on \<open>das_fuel\<close>: 1000 attempts of the generator and one pass over the cells, which visits
  every cell, so that it always returns. PEVM rounds are bounded as in the code, by twenty;
  \<open>pevm_convergence_bound\<close> says for which blocks they are enough.
\<close>

section \<open>Not modelled\<close>

text \<open>
  Sockets: a connection is the list of its reads, and its requests are handed in one by one. The
  pool and the execution client that the node is built from, argument parsing, and log or
  terminal output, which are other packages. The remaining tests: of a library alone (multi-key
  DIDs, the TOML parser, the namespace tree), of a constructor, and the integration tests.
  Constructors that only build the empty value of a struct. Files without code (module declarations and re-exports), contracts and scripts.
\<close>

end
